theory Spec2Isabelle
  imports
    Complex_Main
    "HOL-Library.AList"
    "HOL-Library.Char_ord"
    "HOL-Library.List_Lexorder"
    "HOL-Library.Multiset"
begin

section \<open>The synthesizer's data model (types.ts)\<close>

text \<open>
  A JavaScript \<open>number\<close> is modelled as a \<open>real\<close>: rounding, \<open>NaN\<close> and the
  infinities of IEEE doubles are outside the model. \<open>settings.octave\<close> is an integer
  in every caller and is modelled as an \<open>int\<close>. Of \<open>SynthSettings\<close> the record keeps the
  fields the audio engine and the gesture bridge read or write; the fields that only the
  control surface reads (patch name, theme, XY pad, visualizer mode) are left out.
\<close>

datatype PatchCategory = Lead | Pad | Bass | Keys | Strings

datatype ModSource = LFO | ENV | Gesture_L_H | Gesture_L_V | Gesture_R_H | Gesture_R_V | Gesture_Dist

datatype ModDestination = Cutoff | Resonance | Pitch | Gain | Reverb | Delay

datatype KeySlideTarget = Slide_Cutoff | Slide_Resonance | Slide_Pitch | Slide_Vibrato

record ModRoute =
  source :: ModSource
  destination :: ModDestination
  amount :: real

record HandGesture =
  hand_x :: real
  hand_y :: real
  active :: bool
  isPincer :: bool
  isClosed :: bool

record GestureState =
  leftHand :: HandGesture
  rightHand :: HandGesture
  distance :: real

record SynthSettings =
  patchCategory :: PatchCategory
  cutoff :: real
  resonance :: real
  reverb :: real
  attack :: real
  release :: real
  detune :: real
  lfoRate :: real
  delayTime :: real
  delayFeedback :: real
  arpRate :: real
  octave :: int
  pitchBend :: real
  glide :: real
  monoMode :: bool
  modMatrix :: "ModRoute list"
  keySlideTarget :: KeySlideTarget
  gestureControlEnabled :: bool
  sustain :: bool

section \<open>The audio substrate: parameters, nodes and their connections\<close>

text \<open>
  The engine never computes a sample: it configures nodes of the Web Audio graph and
  schedules automation on their parameters. A parameter is modelled by the list of
  automation calls made on it, in call order, and by \<open>pvalue\<close>, the value the rendering
  substrate reports for it (the engine reads it, only the substrate writes it).
\<close>

datatype automation =
    SetValueAtTime real real
  | LinearRampToValueAtTime real real
  | ExponentialRampToValueAtTime real real
  | SetTargetAtTime real real real

fun eventTime :: "automation \<Rightarrow> real" where
  "eventTime (SetValueAtTime v t) = t"
| "eventTime (LinearRampToValueAtTime v t) = t"
| "eventTime (ExponentialRampToValueAtTime v t) = t"
| "eventTime (SetTargetAtTime v t c) = t"

record AudioParam =
  pvalue :: real
  events :: "automation list"

definition newParam :: "real \<Rightarrow> AudioParam" where
  "newParam v = \<lparr>pvalue = v, events = []\<rparr>"

definition setValueAtTime :: "real \<Rightarrow> real \<Rightarrow> AudioParam \<Rightarrow> AudioParam" where
  "setValueAtTime v t p = p\<lparr>events := events p @ [SetValueAtTime v t]\<rparr>"

definition linearRampToValueAtTime :: "real \<Rightarrow> real \<Rightarrow> AudioParam \<Rightarrow> AudioParam" where
  "linearRampToValueAtTime v t p = p\<lparr>events := events p @ [LinearRampToValueAtTime v t]\<rparr>"

definition exponentialRampToValueAtTime :: "real \<Rightarrow> real \<Rightarrow> AudioParam \<Rightarrow> AudioParam" where
  "exponentialRampToValueAtTime v t p = p\<lparr>events := events p @ [ExponentialRampToValueAtTime v t]\<rparr>"

definition setTargetAtTime :: "real \<Rightarrow> real \<Rightarrow> real \<Rightarrow> AudioParam \<Rightarrow> AudioParam" where
  "setTargetAtTime v t c p = p\<lparr>events := events p @ [SetTargetAtTime v t c]\<rparr>"

text \<open>\<open>cancelScheduledValues(t)\<close> drops every scheduled event at or after \<open>t\<close>.\<close>

definition cancelScheduledValues :: "real \<Rightarrow> AudioParam \<Rightarrow> AudioParam" where
  "cancelScheduledValues t p = p\<lparr>events := filter (\<lambda>e. eventTime e < t) (events p)\<rparr>"

datatype OscillatorType = Sine | Square | Sawtooth | Triangle

datatype param_ref = FilterFrequency | FilterQ | Osc1Frequency | NoteGainGain | LfoFrequency

text \<open>
  Where an output is connected: the filter's input, the note gain's input, the engine's
  main gain, the input of the \<open>k\<close>-th node of the voice's \<open>modGains\<close>, or a parameter.
\<close>

datatype port = ToFilter | ToNoteGain | ToMainGain | ToModGain nat | ToParam param_ref

record OscillatorNode =
  oscType :: OscillatorType
  frequency :: AudioParam
  oscDetune :: AudioParam
  oscStart :: "real option"
  oscStop :: "real option"
  oscOut :: "port list"

record ConstantSourceNode =
  offset :: AudioParam
  srcStart :: "real option"
  srcStop :: "real option"
  srcOut :: "port list"

record GainNode =
  gainParam :: AudioParam
  gainOut :: "port list"

record BiquadFilterNode =
  filterFrequency :: AudioParam
  filterQ :: AudioParam
  filterOut :: "port list"

record DelayNode =
  delayTimeParam :: AudioParam

definition createOscillator :: OscillatorNode where
  "createOscillator = \<lparr>oscType = Sine, frequency = newParam 440, oscDetune = newParam 0,
     oscStart = None, oscStop = None, oscOut = []\<rparr>"

definition createConstantSource :: ConstantSourceNode where
  "createConstantSource = \<lparr>offset = newParam 1, srcStart = None, srcStop = None, srcOut = []\<rparr>"

definition createGain :: GainNode where
  "createGain = \<lparr>gainParam = newParam 1, gainOut = []\<rparr>"

definition createBiquadFilter :: BiquadFilterNode where
  "createBiquadFilter = \<lparr>filterFrequency = newParam 350, filterQ = newParam 1, filterOut = []\<rparr>"

section \<open>Note names and the frequency table (constants.ts)\<close>

text \<open>
  \<open>note.match(/([A-G#]+)(\d+)/)\<close>: the leftmost place where a run of pitch characters is
  followed by a digit. A run that is not followed by a digit cannot match from any of
  its positions (a shorter run is followed by a pitch character), so trying each start
  position with the longest run is the whole backtracking search. The groups are the
  run from the start position and the longest run of digits after it.
\<close>

definition isPitchChar :: "char \<Rightarrow> bool" where
  "isPitchChar c = (c \<in> set ''ABCDEFG#'')"

definition isDigit :: "char \<Rightarrow> bool" where
  "isDigit c = (c \<in> set ''0123456789'')"

definition matchHere :: "string \<Rightarrow> (string \<times> string) option" where
  "matchHere s =
     (let letters = takeWhile isPitchChar s;
          digits = takeWhile isDigit (dropWhile isPitchChar s)
      in if letters \<noteq> [] \<and> digits \<noteq> [] then Some (letters, digits) else None)"

fun noteMatch :: "string \<Rightarrow> (string \<times> string) option" where
  "noteMatch [] = None"
| "noteMatch (c # cs) =
     (case matchHere (c # cs) of Some r \<Rightarrow> Some r | None \<Rightarrow> noteMatch cs)"

text \<open>\<open>parseInt\<close> on a string of decimal digits, and the decimal text of an integer.\<close>

definition digitValue :: "char \<Rightarrow> nat" where
  "digitValue c = of_char c - 48"

definition parseInt :: "string \<Rightarrow> nat" where
  "parseInt ds = foldl (\<lambda>n c. 10 * n + digitValue c) 0 ds"

definition digitChar :: "nat \<Rightarrow> char" where
  "digitChar d = ''0123456789'' ! d"

fun natToString :: "nat \<Rightarrow> string" where
  "natToString n = (if n < 10 then [digitChar n] else natToString (n div 10) @ [digitChar (n mod 10)])"

declare natToString.simps [simp del]

definition intToString :: "int \<Rightarrow> string" where
  "intToString i = (if i < 0 then CHR ''-'' # natToString (nat (- i)) else natToString (nat i))"

definition shiftNote :: "string \<Rightarrow> int \<Rightarrow> string" where
  "shiftNote note oct =
     (case noteMatch note of
        None \<Rightarrow> note
      | Some (letters, digits) \<Rightarrow> letters @ intToString (int (parseInt digits) + oct))"

definition NOTES :: "string list" where
  "NOTES = [''C'', ''C#'', ''D'', ''D#'', ''E'', ''F'', ''F#'', ''G'', ''G#'', ''A'', ''A#'', ''B'']"

text \<open>
  \<open>generateFrequencies\<close>: for the octaves 0 to 8 and the twelve note names in order,
  \<open>freqs[key] = 440 * Math.pow(2, semiFromA4 / 12)\<close>, written into an object (a later
  write to a key replaces the earlier one).
\<close>

definition semiFromA4 :: "nat \<Rightarrow> nat \<Rightarrow> int" where
  "semiFromA4 oct i = (int oct - 4) * 12 + (int i - 9)"

definition generateFrequencies :: "string \<rightharpoonup> real" where
  "generateFrequencies =
     foldl (\<lambda>freqs oct.
              foldl (\<lambda>freqs (i, note).
                       freqs(note @ natToString oct \<mapsto> 440 * 2 powr (real_of_int (semiFromA4 oct i) / 12)))
                freqs (enumerate 0 NOTES))
       Map.empty [0..<9]"

definition FREQUENCIES :: "string \<rightharpoonup> real" where
  "FREQUENCIES = generateFrequencies"

text \<open>
  \<open>FREQUENCIES[shiftedNote]\<close> is a property access on a plain object: a key the table
  does not hold itself is looked up in \<open>Object.prototype\<close>, whose members are functions
  (for \<open>__proto__\<close> the prototype object), truthy and not numbers.
\<close>

definition objectPrototype :: "string list" where
  "objectPrototype =
     [''constructor'', ''__defineGetter__'', ''__defineSetter__'', ''hasOwnProperty'',
      ''__lookupGetter__'', ''__lookupSetter__'', ''isPrototypeOf'', ''propertyIsEnumerable'',
      ''toString'', ''valueOf'', ''__proto__'', ''toLocaleString'']"

datatype property = Absent | Own real | Inherited

definition frequencyOf :: "string \<Rightarrow> property" where
  "frequencyOf k =
     (case FREQUENCIES k of
        Some f \<Rightarrow> Own f
      | None \<Rightarrow> if k \<in> set objectPrototype then Inherited else Absent)"

section \<open>The engine state (class AudioService)\<close>

text \<open>
  The audio context is the browser's: the engine reads its state and clock and may ask
  it to resume. \<open>resumeCalls\<close> counts the calls of \<open>ctx.resume()\<close>; the state itself
  changes only when the browser honours one.
\<close>

datatype ContextState = Suspended | Running | Closed

record AudioContext =
  ctxState :: ContextState
  currentTime :: real
  resumeCalls :: nat

record ActiveOscillator =
  osc1 :: OscillatorNode
  osc2 :: OscillatorNode
  gain :: GainNode
  filterNode :: BiquadFilterNode
  lfo :: OscillatorNode
  envSource :: ConstantSourceNode
  slideSource :: ConstantSourceNode
  modGains :: "GainNode list"
  baseFreq :: real
  released :: bool

text \<open>
  The closures the engine hands to \<open>setTimeout\<close>: the teardown of \<open>stopNote\<close> (it
  captures the note key and the entry object), the note-off of an arpeggiator step (it
  captures the step's note, \<open>undefined\<close> when the index was out of range, and the
  settings) and the arpeggiator's \<open>tick\<close> (it captures the settings).
\<close>

datatype callback =
    Teardown string nat
  | ArpNoteOff "string option" SynthSettings
  | ArpTick SynthSettings

record timer =
  timerId :: nat
  fireAt :: real
  action :: callback

text \<open>
  \<open>activeOscillators\<close> is a JavaScript \<open>Map\<close>: an association list in insertion order
  whose values are references to entry objects. \<open>voices\<close> is the heap of entry objects
  ever created, a reference being an index into it, so that two keys, a pending
  teardown and the map can share one entry, and \<open>===\<close> on entries is equality of
  references. \<open>timers\<close> are the pending timeouts, \<open>clock\<close> the event loop's time in
  milliseconds.
\<close>

record AudioService =
  ctx :: "AudioContext option"
  mainGain :: "GainNode option"
  delayNode :: "DelayNode option"
  delayFeedbackNode :: "GainNode option"
  activeOscillators :: "(string \<times> nat) list"
  voices :: "ActiveOscillator list"
  arpTimer :: "nat option"
  activeNotesForArp :: "string list"
  currentArpIndex :: nat
  currentPitchBend :: real
  lastFrequency :: "real option"
  currentSustain :: bool
  timers :: "timer list"
  nextTimerId :: nat
  clock :: real
  hasWindow :: bool

text \<open>
  The object after its field initialisers, in an environment with or without a global
  \<open>window\<close> (\<open>hasWindow\<close>; the global \<open>setTimeout\<close> and \<open>clearTimeout\<close> exist in both).
\<close>

definition newAudioService :: "bool \<Rightarrow> AudioService" where
  "newAudioService w =
     \<lparr>ctx = None, mainGain = None, delayNode = None, delayFeedbackNode = None,
      activeOscillators = [], voices = [], arpTimer = None, activeNotesForArp = [],
      currentArpIndex = 0, currentPitchBend = 0, lastFrequency = None,
      currentSustain = False, timers = [], nextTimerId = 1, clock = 0, hasWindow = w\<rparr>"

text \<open>
  \<open>init\<close>, run by the constructor: it returns at once when there is no window, and
  otherwise builds the backend with the context the browser returns. The master chain
  behind the main gain (analyser, reverb, delay line) is fixed wiring and is not part of
  the model. An engine is \<open>init c (newAudioService w)\<close>.
\<close>

definition init :: "AudioContext \<Rightarrow> AudioService \<Rightarrow> AudioService" where
  "init c s =
     (if \<not> hasWindow s then s
      else s\<lparr>ctx := Some c,
             mainGain := Some (createGain\<lparr>gainParam := newParam 0.5\<rparr>),
             delayNode := Some \<lparr>delayTimeParam = newParam 0\<rparr>,
             delayFeedbackNode := Some createGain\<rparr>)"

text \<open>
  What a call can raise, and the result of a call that may raise: the error with the
  state reached at the raise, or the state at the return.
\<close>

datatype error = TypeError | ReferenceError

definition stateOf :: "(error \<times> AudioService) + AudioService \<Rightarrow> AudioService" where
  "stateOf res = (case res of Inl (e, s) \<Rightarrow> s | Inr s \<Rightarrow> s)"

text \<open>JavaScript truthiness of a nullable number: neither \<open>null\<close> nor \<open>0\<close>.\<close>

definition truthy :: "'a::zero option \<Rightarrow> bool" where
  "truthy v = (case v of None \<Rightarrow> False | Some n \<Rightarrow> n \<noteq> 0)"

subsection \<open>Timeouts\<close>

text \<open>
  \<open>setTimeout\<close> returns a fresh positive handle; a negative delay counts as zero.
\<close>

definition setTimeout :: "callback \<Rightarrow> real \<Rightarrow> AudioService \<Rightarrow> nat \<times> AudioService" where
  "setTimeout cb ms s =
     (nextTimerId s,
      s\<lparr>timers := timers s @ [\<lparr>timerId = nextTimerId s, fireAt = clock s + max 0 ms, action = cb\<rparr>],
        nextTimerId := nextTimerId s + 1\<rparr>)"

definition clearTimeout :: "nat \<Rightarrow> AudioService \<Rightarrow> AudioService" where
  "clearTimeout i s = s\<lparr>timers := filter (\<lambda>t. timerId t \<noteq> i) (timers s)\<rparr>"

subsection \<open>Pitch bend and key slide\<close>

definition getBentFrequency :: "AudioService \<Rightarrow> real \<Rightarrow> real" where
  "getBentFrequency s baseFreq' =
     (let bendRange = 2 in baseFreq' * 2 powr ((currentPitchBend s * bendRange) / 12))"

text \<open>
  \<open>this.activeOscillators.forEach\<close> with a callback that only mutates the entry it is
  given: each entry of the map is updated in the heap, in map order.
\<close>

definition forEachEntry :: "(ActiveOscillator \<Rightarrow> ActiveOscillator) \<Rightarrow> AudioService \<Rightarrow> AudioService" where
  "forEachEntry f s =
     foldl (\<lambda>st (note, r). st\<lparr>voices := (voices st)[r := f (voices st ! r)]\<rparr>) s (activeOscillators s)"

text \<open>The body of the loop of \<open>setPitchBend\<close>, on one entry.\<close>

definition bendEntry :: "AudioService \<Rightarrow> real \<Rightarrow> ActiveOscillator \<Rightarrow> ActiveOscillator" where
  "bendEntry s now entry =
     (let bentFreq = getBentFrequency s (baseFreq entry) in
      osc2_update (frequency_update (setTargetAtTime bentFreq now 0.03))
        (osc1_update (frequency_update (setTargetAtTime bentFreq now 0.03)) entry))"

definition setPitchBend :: "real \<Rightarrow> AudioService \<Rightarrow> AudioService" where
  "setPitchBend v s0 =
     (let s = s0\<lparr>currentPitchBend := v\<rparr> in
      case ctx s of
        None \<Rightarrow> s
      | Some c \<Rightarrow> let now = currentTime c in forEachEntry (bendEntry s now) s)"

definition updateNoteSlide :: "string \<Rightarrow> real \<Rightarrow> AudioService \<Rightarrow> AudioService" where
  "updateNoteSlide note slide s =
     (case map_of (activeOscillators s) note of
        None \<Rightarrow> s
      | Some r \<Rightarrow>
          (case ctx s of
             None \<Rightarrow> s
           | Some c \<Rightarrow>
               let now = currentTime c in
               s\<lparr>voices := (voices s)
                   [r := slideSource_update (offset_update (setTargetAtTime slide now 0.01)) (voices s ! r)]\<rparr>))"

subsection \<open>playNote\<close>

definition resumeIfSuspended :: "AudioService \<Rightarrow> AudioService" where
  "resumeIfSuspended s =
     (case ctx s of
        None \<Rightarrow> s
      | Some c \<Rightarrow>
          if ctxState c = Suspended then s\<lparr>ctx := Some (c\<lparr>resumeCalls := resumeCalls c + 1\<rparr>)\<rparr> else s)"

text \<open>The patch category's waveform pair and the detune of the second oscillator.\<close>

definition configurePatch :: "SynthSettings \<Rightarrow> real \<Rightarrow> OscillatorNode \<times> OscillatorNode" where
  "configurePatch settings now =
     (let osc = createOscillator;
          tuned = (\<lambda>cents. oscDetune_update (setValueAtTime cents now))
      in case patchCategory settings of
           Lead \<Rightarrow> (osc\<lparr>oscType := Sawtooth\<rparr>, tuned (detune settings + 12) (osc\<lparr>oscType := Square\<rparr>))
         | Pad \<Rightarrow> (osc\<lparr>oscType := Sine\<rparr>, tuned (detune settings + 7) (osc\<lparr>oscType := Sawtooth\<rparr>))
         | Bass \<Rightarrow> (osc\<lparr>oscType := Square\<rparr>, tuned (- 1200) (osc\<lparr>oscType := Sawtooth\<rparr>))
         | Keys \<Rightarrow> (osc\<lparr>oscType := Sine\<rparr>, tuned 1200 (osc\<lparr>oscType := Sine\<rparr>))
         | Strings \<Rightarrow> (osc\<lparr>oscType := Sawtooth\<rparr>, tuned (detune settings + 5) (osc\<lparr>oscType := Sawtooth\<rparr>)))"

text \<open>
  The modulation matrix: the \<open>switch\<close> on the destination gives the scale (1 unless a
  case sets it) and the target parameter (none for Reverb and Delay).
\<close>

fun routeScale :: "ModDestination \<Rightarrow> real" where
  "routeScale Cutoff = 6000"
| "routeScale Resonance = 15"
| "routeScale Pitch = 800"
| "routeScale Gain = 0.5"
| "routeScale Reverb = 1"
| "routeScale Delay = 1"

fun routeTarget :: "ModDestination \<Rightarrow> param_ref option" where
  "routeTarget Cutoff = Some FilterFrequency"
| "routeTarget Resonance = Some FilterQ"
| "routeTarget Pitch = Some Osc1Frequency"
| "routeTarget Gain = Some NoteGainGain"
| "routeTarget Reverb = None"
| "routeTarget Delay = None"

text \<open>
  One pass of \<open>settings.modMatrix.forEach\<close>. \<open>routeGain\<close> is the gain node of a route
  with a target: its gain set to amount times scale, its output connected to the
  target. The accumulator holds the outputs of the LFO, the outputs of the envelope
  source and the \<open>modGains\<close> pushed so far; a gain node that is pushed gets the next
  index.
\<close>

definition routeGain :: "real \<Rightarrow> ModRoute \<Rightarrow> param_ref \<Rightarrow> GainNode" where
  "routeGain now route target =
     createGain
       \<lparr>gainParam := setValueAtTime (amount route * routeScale (destination route)) now (gainParam createGain),
        gainOut := [ToParam target]\<rparr>"

definition wireRoute ::
  "real \<Rightarrow> ModRoute \<Rightarrow> port list \<times> port list \<times> GainNode list \<Rightarrow> port list \<times> port list \<times> GainNode list" where
  "wireRoute now route acc =
     (let (lfoOut, envOut, mgs) = acc in
      case routeTarget (destination route) of
        None \<Rightarrow> (lfoOut, envOut, mgs)
      | Some target \<Rightarrow>
          let modGain = routeGain now route target;
              k = length mgs
          in (if source route = LFO then lfoOut @ [ToModGain k] else lfoOut,
              if source route \<noteq> LFO \<and> source route = ENV then envOut @ [ToModGain k] else envOut,
              mgs @ [modGain]))"

fun slideScale :: "KeySlideTarget \<Rightarrow> real" where
  "slideScale Slide_Cutoff = 12000"
| "slideScale Slide_Resonance = 30"
| "slideScale Slide_Pitch = 2400"
| "slideScale Slide_Vibrato = 20"

fun slideTarget :: "KeySlideTarget \<Rightarrow> param_ref" where
  "slideTarget Slide_Cutoff = FilterFrequency"
| "slideTarget Slide_Resonance = FilterQ"
| "slideTarget Slide_Pitch = Osc1Frequency"
| "slideTarget Slide_Vibrato = LfoFrequency"

text \<open>The routes of the matrix that get a gain node: those whose destination has a target.\<close>

definition wiredRoutes :: "SynthSettings \<Rightarrow> ModRoute list" where
  "wiredRoutes st = filter (\<lambda>r. routeTarget (destination r) \<noteq> None) (modMatrix st)"

text \<open>
  The mono branch of \<open>playNote\<close>: the first entry of the map is retargeted
  (\<open>retargetEntry\<close> is what happens to the entry object) and renamed.
\<close>

definition retargetEntry :: "SynthSettings \<Rightarrow> real \<Rightarrow> real \<Rightarrow> real \<Rightarrow> ActiveOscillator \<Rightarrow> ActiveOscillator" where
  "retargetEntry settings baseFreq' targetFreq now entry =
     (let move = (\<lambda>p. let p1 = cancelScheduledValues now p in
                       if glide settings > 0
                       then exponentialRampToValueAtTime targetFreq (now + glide settings) p1
                       else setValueAtTime targetFreq now p1)
      in (osc2_update (frequency_update move) (osc1_update (frequency_update move) entry))
           \<lparr>baseFreq := baseFreq', released := False\<rparr>)"

definition playNote_retarget ::
  "string \<Rightarrow> SynthSettings \<Rightarrow> real \<Rightarrow> real \<Rightarrow> real \<Rightarrow> real \<Rightarrow> AudioService \<Rightarrow> AudioService" where
  "playNote_retarget note settings initialSlide baseFreq' targetFreq now s =
     (let (existingNote, r) = hd (activeOscillators s);
          s1 = s\<lparr>voices := (voices s)[r := retargetEntry settings baseFreq' targetFreq now (voices s ! r)]\<rparr>;
          s2 = (if existingNote \<noteq> note
                then s1\<lparr>activeOscillators := AList.update note r (AList.delete existingNote (activeOscillators s1))\<rparr>
                else s1);
          s3 = s2\<lparr>lastFrequency := Some targetFreq\<rparr>
      in updateNoteSlide note initialSlide s3)"

text \<open>The rest of \<open>playNote\<close>: a new entry is built, wired, started and put into the map.\<close>

definition playNote_create ::
  "string \<Rightarrow> SynthSettings \<Rightarrow> real \<Rightarrow> real \<Rightarrow> real \<Rightarrow> real \<Rightarrow> real \<Rightarrow> AudioService \<Rightarrow> AudioService" where
  "playNote_create note settings velocity initialSlide baseFreq' targetFreq now s =
     (let (o1, o2) = configurePatch settings now;
          gliding = (glide settings > 0 \<and> truthy (lastFrequency s));
          startFreq = (if gliding then the (lastFrequency s) else targetFreq);
          tune = (\<lambda>p. let p1 = setValueAtTime startFreq now p in
                       if gliding then exponentialRampToValueAtTime targetFreq (now + glide settings) p1 else p1);
          filter0 = createBiquadFilter
            \<lparr>filterFrequency := setValueAtTime (cutoff settings) now (filterFrequency createBiquadFilter),
             filterQ := setValueAtTime (resonance settings * 8) now (filterQ createBiquadFilter)\<rparr>;
          lfo0 = createOscillator
            \<lparr>oscType := Sine,
             frequency := setValueAtTime (lfoRate settings) now (frequency createOscillator),
             oscStart := Some 0\<rparr>;
          attackEnd = now + max 0.005 (attack settings);
          env0 = createConstantSource
            \<lparr>offset := linearRampToValueAtTime 1 attackEnd (setValueAtTime 0 now (offset createConstantSource)),
             srcStart := Some 0\<rparr>;
          slide0 = createConstantSource
            \<lparr>offset := setValueAtTime initialSlide now (offset createConstantSource),
             srcStart := Some 0\<rparr>;
          noteGain = createGain
            \<lparr>gainParam := linearRampToValueAtTime velocity attackEnd (setValueAtTime 0 now (gainParam createGain))\<rparr>;
          (lfoOut, envOut, mgs) = foldl (\<lambda>acc route. wireRoute now route acc) ([], [], []) (modMatrix settings);
          expressionGain = createGain
            \<lparr>gainParam := setValueAtTime (slideScale (keySlideTarget settings)) now (gainParam createGain),
             gainOut := [ToParam (slideTarget (keySlideTarget settings))]\<rparr>;
          entry =
            \<lparr>osc1 = (frequency_update tune o1)\<lparr>oscStart := Some now, oscOut := [ToFilter]\<rparr>,
             osc2 = (frequency_update tune o2)\<lparr>oscStart := Some now, oscOut := [ToFilter]\<rparr>,
             gain = noteGain\<lparr>gainOut := [ToMainGain]\<rparr>,
             filterNode = filter0\<lparr>filterOut := [ToNoteGain]\<rparr>,
             lfo = lfo0\<lparr>oscOut := lfoOut\<rparr>,
             envSource = env0\<lparr>srcOut := envOut\<rparr>,
             slideSource = slide0\<lparr>srcOut := [ToModGain (length mgs)]\<rparr>,
             modGains = mgs @ [expressionGain],
             baseFreq = baseFreq',
             released = False\<rparr>
      in s\<lparr>voices := voices s @ [entry],
           activeOscillators := AList.update note (length (voices s)) (activeOscillators s),
           lastFrequency := Some targetFreq\<rparr>)"

text \<open>
  \<open>playNote\<close> with a table entry that is not a number: \<open>getBentFrequency\<close> yields NaN.
  The mono branch has cancelled the schedules of both oscillators of the first entry
  when \<open>exponentialRampToValueAtTime\<close> or \<open>setValueAtTime\<close> refuses the NaN with a
  TypeError; the other branch has only created nodes nothing refers to when
  \<open>osc1.frequency\<close> refuses it.
\<close>

definition playNote_notANumber :: "SynthSettings \<Rightarrow> real \<Rightarrow> AudioService \<Rightarrow> AudioService" where
  "playNote_notANumber settings now s =
     (if monoMode settings \<and> length (activeOscillators s) > 0
      then let (existingNote, r) = hd (activeOscillators s) in
           s\<lparr>voices := (voices s)
               [r := osc2_update (frequency_update (cancelScheduledValues now))
                       (osc1_update (frequency_update (cancelScheduledValues now)) (voices s ! r))]\<rparr>
      else s)"

definition playNote_outcome ::
  "string \<Rightarrow> SynthSettings \<Rightarrow> real \<Rightarrow> real \<Rightarrow> AudioService \<Rightarrow> (error \<times> AudioService) + AudioService" where
  "playNote_outcome note settings velocity initialSlide s0 =
     (case ctx s0 of
        None \<Rightarrow> Inr s0
      | Some c \<Rightarrow>
          if mainGain s0 = None then Inr s0
          else
            let s = resumeIfSuspended s0;
                shiftedNote = shiftNote note (octave settings)
            in (case frequencyOf shiftedNote of
                  Absent \<Rightarrow> Inr s
                | Inherited \<Rightarrow> Inl (TypeError, playNote_notANumber settings (currentTime c) s)
                | Own baseFreq' \<Rightarrow>
                    if baseFreq' = 0 then Inr s
                    else
                      let now = currentTime c;
                          targetFreq = getBentFrequency s baseFreq'
                      in if monoMode settings \<and> length (activeOscillators s) > 0
                         then Inr (playNote_retarget note settings initialSlide baseFreq' targetFreq now s)
                         else Inr (playNote_create note settings velocity initialSlide baseFreq' targetFreq now s)))"

text \<open>The state \<open>playNote\<close> leaves the engine in.\<close>

definition playNote :: "string \<Rightarrow> SynthSettings \<Rightarrow> real \<Rightarrow> real \<Rightarrow> AudioService \<Rightarrow> AudioService" where
  "playNote note settings velocity initialSlide s =
     stateOf (playNote_outcome note settings velocity initialSlide s)"

subsection \<open>stopNote and its teardown\<close>

text \<open>
  The release of one parameter: cancel what is scheduled from now on, hold the value
  the substrate reports, ramp exponentially to 0.001.
\<close>

definition releaseRamp :: "real \<Rightarrow> real \<Rightarrow> AudioParam \<Rightarrow> AudioParam" where
  "releaseRamp now releaseTime p =
     (let p1 = cancelScheduledValues now p;
          p2 = setValueAtTime (pvalue p1) now p1
      in exponentialRampToValueAtTime 0.001 (now + releaseTime) p2)"

definition releaseEntry :: "real \<Rightarrow> real \<Rightarrow> ActiveOscillator \<Rightarrow> ActiveOscillator" where
  "releaseEntry now releaseTime entry =
     (let stopAt = Some (now + releaseTime + 0.1) in
      entry\<lparr>gain := gainParam_update (releaseRamp now releaseTime) (gain entry),
            envSource := (offset_update (releaseRamp now releaseTime) (envSource entry))\<lparr>srcStop := stopAt\<rparr>,
            osc1 := (osc1 entry)\<lparr>oscStop := stopAt\<rparr>,
            osc2 := (osc2 entry)\<lparr>oscStop := stopAt\<rparr>,
            lfo := (lfo entry)\<lparr>oscStop := stopAt\<rparr>,
            slideSource := (slideSource entry)\<lparr>srcStop := stopAt\<rparr>\<rparr>)"

definition stopNote :: "string \<Rightarrow> SynthSettings \<Rightarrow> bool \<Rightarrow> AudioService \<Rightarrow> AudioService" where
  "stopNote note settings immediate s =
     (case map_of (activeOscillators s) note of
        None \<Rightarrow> s
      | Some r \<Rightarrow>
          (case ctx s of
             None \<Rightarrow> s
           | Some c \<Rightarrow>
               if currentSustain s \<and> \<not> immediate
               then s\<lparr>voices := (voices s)[r := (voices s ! r)\<lparr>released := True\<rparr>]\<rparr>
               else
                 let now = currentTime c;
                     releaseTime = (if immediate then 0.01 else release settings);
                     s1 = s\<lparr>voices := (voices s)[r := releaseEntry now releaseTime (voices s ! r)]\<rparr>
                 in snd (setTimeout (Teardown note r) ((releaseTime + 0.2) * 1000) s1)))"

text \<open>
  The scheduled closure of \<open>stopNote\<close>: every node the closure holds except the filter
  is disconnected, then the map entry is deleted if it still is this entry.
\<close>

definition disconnectEntry :: "ActiveOscillator \<Rightarrow> ActiveOscillator" where
  "disconnectEntry entry =
     entry\<lparr>osc1 := (osc1 entry)\<lparr>oscOut := []\<rparr>,
           osc2 := (osc2 entry)\<lparr>oscOut := []\<rparr>,
           gain := (gain entry)\<lparr>gainOut := []\<rparr>,
           lfo := (lfo entry)\<lparr>oscOut := []\<rparr>,
           envSource := (envSource entry)\<lparr>srcOut := []\<rparr>,
           slideSource := (slideSource entry)\<lparr>srcOut := []\<rparr>,
           modGains := map (\<lambda>mg. mg\<lparr>gainOut := []\<rparr>) (modGains entry)\<rparr>"

definition teardown :: "string \<Rightarrow> nat \<Rightarrow> AudioService \<Rightarrow> AudioService" where
  "teardown note r s =
     (let s1 = s\<lparr>voices := (voices s)[r := disconnectEntry (voices s ! r)]\<rparr> in
      if map_of (activeOscillators s1) note = Some r
      then s1\<lparr>activeOscillators := AList.delete note (activeOscillators s1)\<rparr>
      else s1)"

subsection \<open>updateGlobalParams\<close>

text \<open>
  The loop that runs when the pedal is lifted (\<open>releaseHeld\<close>) and the body of the loop
  that broadcasts filter and LFO settings (\<open>sweepEntry\<close>).
\<close>

definition releaseHeld :: "SynthSettings \<Rightarrow> AudioService \<Rightarrow> AudioService" where
  "releaseHeld settings s =
     foldl (\<lambda>st (note, r). if released (voices st ! r) then stopNote note settings False st else st)
       s (activeOscillators s)"

definition sweepEntry :: "SynthSettings \<Rightarrow> real \<Rightarrow> ActiveOscillator \<Rightarrow> ActiveOscillator" where
  "sweepEntry settings now entry =
     entry\<lparr>filterNode :=
             (filterNode entry)
               \<lparr>filterFrequency := setTargetAtTime (cutoff settings) now 0.05 (filterFrequency (filterNode entry)),
                filterQ := setTargetAtTime (resonance settings * 8) now 0.05 (filterQ (filterNode entry))\<rparr>,
           lfo := frequency_update (setTargetAtTime (lfoRate settings) now 0.05) (lfo entry)\<rparr>"

definition updateGlobalParams :: "SynthSettings \<Rightarrow> AudioService \<Rightarrow> AudioService" where
  "updateGlobalParams settings s =
     (case (ctx s, delayNode s, delayFeedbackNode s) of
        (Some c, Some dn, Some fb) \<Rightarrow>
          let now = currentTime c;
              s1 = (if currentSustain s \<and> \<not> sustain settings
                    then releaseHeld settings (s\<lparr>currentSustain := False\<rparr>)
                    else s);
              s2 = s1\<lparr>currentSustain := sustain settings\<rparr>;
              s3 = s2\<lparr>delayNode := Some (delayTimeParam_update (setTargetAtTime (delayTime settings) now 0.1) dn),
                      delayFeedbackNode := Some (gainParam_update (setTargetAtTime (delayFeedback settings) now 0.1) fb)\<rparr>;
              s4 = forEachEntry (sweepEntry settings now) s3
          in if pitchBend settings \<noteq> currentPitchBend s4 then setPitchBend (pitchBend settings) s4 else s4
      | _ \<Rightarrow> s)"

subsection \<open>The arpeggiator\<close>

definition stopArp :: "AudioService \<Rightarrow> AudioService" where
  "stopArp s =
     (let s1 = (if truthy (arpTimer s) then (clearTimeout (the (arpTimer s)) s)\<lparr>arpTimer := None\<rparr> else s)
      in s1\<lparr>currentArpIndex := 0\<rparr>)"

text \<open>
  \<open>playNote\<close> called with \<open>undefined\<close>, which is what \<open>tick\<close> passes when the index is
  past the end of the sequence: without a backend it returns at once, with one
  \<open>note.match\<close> raises a TypeError (after the context was asked to resume).
\<close>

definition playNote_undefined :: "AudioService \<Rightarrow> (error \<times> AudioService) + AudioService" where
  "playNote_undefined s =
     (if ctx s = None \<or> mainGain s = None then Inr s else Inl (TypeError, resumeIfSuspended s))"

text \<open>
  One run of the closure \<open>tick\<close>. A raise leaves the closure at that point: the state
  reached so far comes with the error. The note-off is set with the global
  \<open>setTimeout\<close>, the next tick with \<open>window.setTimeout\<close>, a ReferenceError where there
  is no window.
\<close>

definition tick :: "SynthSettings \<Rightarrow> AudioService \<Rightarrow> (error \<times> AudioService) + AudioService" where
  "tick settings s =
     (if length (activeNotesForArp s) = 0 then Inr (stopArp s)
      else
        let i = currentArpIndex s;
            played =
              (if i < length (activeNotesForArp s)
               then map_sum id (Pair (Some (activeNotesForArp s ! i)))
                      (playNote_outcome (activeNotesForArp s ! i) settings 0.3 0.5 s)
               else map_sum id (Pair None) (playNote_undefined s))
        in case played of
             Inl e \<Rightarrow> Inl e
           | Inr (note, s1) \<Rightarrow>
               let duration = (60 / arpRate settings) * 0.8;
                   s2 = snd (setTimeout (ArpNoteOff note settings) (duration * 1000) s1);
                   s3 = s2\<lparr>currentArpIndex := (currentArpIndex s2 + 1) mod length (activeNotesForArp s2)\<rparr>
               in if hasWindow s3
                  then let (h, s4) = setTimeout (ArpTick settings) ((60 / arpRate settings) * 1000) s3
                       in Inr (s4\<lparr>arpTimer := Some h\<rparr>)
                  else Inl (ReferenceError, s3))"

text \<open>\<open>[...notes].sort()\<close> orders strings by their code units: the list order on characters.\<close>

definition startArp :: "string list \<Rightarrow> SynthSettings \<Rightarrow> AudioService \<Rightarrow> (error \<times> AudioService) + AudioService" where
  "startArp notes settings s =
     (let s1 = s\<lparr>activeNotesForArp := sort notes\<rparr> in
      if truthy (arpTimer s1) then Inr s1 else tick settings s1)"

subsection \<open>The event loop\<close>

text \<open>
  The pending timeout that fires next is the one with the least fire time, the one set
  first among equals. Firing it removes it, moves the clock and runs its closure.
\<close>

fun earliest :: "timer list \<Rightarrow> timer option" where
  "earliest [] = None"
| "earliest (t # ts) =
     (case earliest ts of
        None \<Rightarrow> Some t
      | Some u \<Rightarrow> if fireAt u < fireAt t then Some u else Some t)"

definition runCallback :: "callback \<Rightarrow> AudioService \<Rightarrow> (error \<times> AudioService) + AudioService" where
  "runCallback cb s =
     (case cb of
        Teardown note r \<Rightarrow> Inr (teardown note r s)
      | ArpNoteOff None settings \<Rightarrow> Inr s
      | ArpNoteOff (Some note) settings \<Rightarrow> Inr (stopNote note settings False s)
      | ArpTick settings \<Rightarrow> tick settings s)"

definition fire :: "timer \<Rightarrow> AudioService \<Rightarrow> (error \<times> AudioService) + AudioService" where
  "fire t s =
     runCallback (action t)
       (s\<lparr>timers := filter (\<lambda>u. timerId u \<noteq> timerId t) (timers s), clock := max (clock s) (fireAt t)\<rparr>)"

definition fireNext :: "AudioService \<Rightarrow> ((error \<times> AudioService) + AudioService) option" where
  "fireNext s = (case earliest (timers s) of None \<Rightarrow> None | Some t \<Rightarrow> Some (fire t s))"

section \<open>The gesture bridge (the effect "Apply Gestures to Synth" of App)\<close>

text \<open>\<open>route.source.startsWith('Gesture')\<close>: every source but the two internal ones.\<close>

definition isGestureSource :: "ModSource \<Rightarrow> bool" where
  "isGestureSource src = (src \<noteq> LFO \<and> src \<noteq> ENV)"

fun sourceValue :: "GestureState \<Rightarrow> ModSource \<Rightarrow> real" where
  "sourceValue g Gesture_L_H = hand_x (leftHand g)"
| "sourceValue g Gesture_L_V = hand_y (leftHand g)"
| "sourceValue g Gesture_R_H = hand_x (rightHand g)"
| "sourceValue g Gesture_R_V = hand_y (rightHand g)"
| "sourceValue g Gesture_Dist = distance g"
| "sourceValue g LFO = 0"
| "sourceValue g ENV = 0"

text \<open>One pass of \<open>prev.modMatrix.forEach\<close> over the settings being built.\<close>

definition applyGestureRoute :: "GestureState \<Rightarrow> SynthSettings \<Rightarrow> ModRoute \<Rightarrow> SynthSettings" where
  "applyGestureRoute g next route =
     (if \<not> isGestureSource (source route) then next
      else
        let amt = sourceValue g (source route) * amount route;
            poseMult = (if isClosed (leftHand g) \<or> isClosed (rightHand g) then 1.5 else 1.0);
            finalAmt = amt * poseMult
        in case destination route of
             Cutoff \<Rightarrow> next\<lparr>cutoff := max 50 (min 10000 (2000 + finalAmt * 8000))\<rparr>
           | Resonance \<Rightarrow> next\<lparr>resonance := max 0.1 (min 10 (1 + finalAmt * 9))\<rparr>
           | Reverb \<Rightarrow> next\<lparr>reverb := max 0 (min 1 finalAmt)\<rparr>
           | Delay \<Rightarrow> next\<lparr>delayFeedback := max 0 (min 0.9 (finalAmt * 0.9))\<rparr>
           | Pitch \<Rightarrow> next
           | Gain \<Rightarrow> next)"

definition applyGestures :: "GestureState option \<Rightarrow> SynthSettings \<Rightarrow> SynthSettings" where
  "applyGestures gestureData prev =
     (case gestureData of
        None \<Rightarrow> prev
      | Some g \<Rightarrow>
          if \<not> gestureControlEnabled prev then prev
          else
            let isLHandSustaining = (active (leftHand g) \<and> isPincer (leftHand g));
                isRHandSustaining = (active (rightHand g) \<and> isPincer (rightHand g));
                next = prev\<lparr>sustain := (isLHandSustaining \<or> isRHandSustaining)\<rparr>
            in foldl (applyGestureRoute g) next (modMatrix prev))"

text \<open>The setting a destination stands for in the bridge; Pitch and Gain have none.\<close>

fun destinationSetting :: "ModDestination \<Rightarrow> SynthSettings \<Rightarrow> real option" where
  "destinationSetting Cutoff st = Some (cutoff st)"
| "destinationSetting Resonance st = Some (resonance st)"
| "destinationSetting Reverb st = Some (reverb st)"
| "destinationSetting Delay st = Some (delayFeedback st)"
| "destinationSetting Pitch st = None"
| "destinationSetting Gain st = None"

section \<open>Runs of the engine\<close>

text \<open>
  What can happen to the engine: a call of one of its public methods, the event loop
  firing the next pending timeout, or the browser changing the audio context (its clock
  or its state). A run applies a list of such events in order; a raise inside a
  callback or a method leaves the state as it was at the raise.
\<close>

datatype event =
    PlayNote string SynthSettings real real
  | StopNote string SynthSettings bool
  | UpdateNoteSlide string real
  | SetPitchBend real
  | UpdateGlobalParams SynthSettings
  | StartArp "string list" SynthSettings
  | StopArp
  | FireNext
  | Browser AudioContext

fun step :: "event \<Rightarrow> AudioService \<Rightarrow> AudioService" where
  "step (PlayNote k st velocity slide) s = playNote k st velocity slide s"
| "step (StopNote k st immediate) s = stopNote k st immediate s"
| "step (UpdateNoteSlide k slide) s = updateNoteSlide k slide s"
| "step (SetPitchBend v) s = setPitchBend v s"
| "step (UpdateGlobalParams st) s = updateGlobalParams st s"
| "step (StartArp ks st) s = stateOf (startArp ks st s)"
| "step StopArp s = stopArp s"
| "step FireNext s = (case fireNext s of None \<Rightarrow> s | Some res \<Rightarrow> stateOf res)"
| "step (Browser c) s = (if ctx s = None then s else s\<lparr>ctx := Some c\<rparr>)"

definition run :: "event list \<Rightarrow> AudioService \<Rightarrow> AudioService" where
  "run evs s = foldl (\<lambda>st e. step e st) s evs"


text \<open>
  The shape every state of a run has: the map has one entry per key, no entry object
  under two keys, every reference is to an entry of the heap, timeout handles are
  positive, and in a browser an arpeggiator that is not running stands at index 0.
\<close>

definition wellFormed :: "AudioService \<Rightarrow> bool" where
  "wellFormed s =
     (distinct (map fst (activeOscillators s)) \<and>
      distinct (map snd (activeOscillators s)) \<and>
      list_all (\<lambda>(k, r). r < length (voices s)) (activeOscillators s) \<and>
      0 < nextTimerId s \<and>
      (hasWindow s \<longrightarrow> truthy (arpTimer s) \<or> currentArpIndex s = 0))"




text \<open>
  What the constructor establishes: an engine without a context has no entry in its
  map, and one with a context has its main gain and its delay nodes.
\<close>

definition backed :: "AudioService \<Rightarrow> bool" where
  "backed s =
     ((ctx s = None \<longrightarrow> activeOscillators s = []) \<and>
      (ctx s \<noteq> None \<longrightarrow> mainGain s \<noteq> None \<and> delayNode s \<noteq> None \<and> delayFeedbackNode s \<noteq> None))"

text \<open>
  What the quiet events are while the sustain pedal is held: every event but a note-off
  with \<open>immediate\<close> set and a parameter update that lifts the pedal.
\<close>

fun keepsSustain :: "event \<Rightarrow> bool" where
  "keepsSustain (StopNote k st immediate) = (\<not> immediate)"
| "keepsSustain (UpdateGlobalParams st) = sustain st"
| "keepsSustain e = True"

text \<open>The amplitude side of an entry: the automation of its gain and of its envelope source.\<close>

definition amplitude :: "ActiveOscillator \<Rightarrow> automation list \<times> automation list" where
  "amplitude entry = (events (gainParam (gain entry)), events (offset (envSource entry)))"

text \<open>
  From \<open>s\<close> to \<open>s'\<close> the pedal has stayed down and no entry object of \<open>s\<close> has had its
  amplitude automation touched.
\<close>

definition stillHeld :: "AudioService \<Rightarrow> AudioService \<Rightarrow> bool" where
  "stillHeld s s' =
     (map amplitude (take (length (voices s)) (voices s')) = map amplitude (voices s) \<and>
      length (voices s) \<le> length (voices s') \<and> currentSustain s')"

section \<open>A concrete engine\<close>

text \<open>
  \<open>INITIAL_SETTINGS\<close> of constants.ts, with the two fields App adds to it, and an
  engine constructed in a browser whose audio context runs and stands at time 0.
\<close>

definition INITIAL_SETTINGS :: SynthSettings where
  "INITIAL_SETTINGS =
     \<lparr>patchCategory = Lead, cutoff = 2000, resonance = 1, reverb = 0.3, attack = 0.1,
      release = 0.5, detune = 0, lfoRate = 5, delayTime = 0.3, delayFeedback = 0.4,
      arpRate = 120, octave = 0, pitchBend = 0, glide = 0.1, monoMode = False,
      modMatrix = [\<lparr>source = LFO, destination = Cutoff, amount = 0.2\<rparr>,
                   \<lparr>source = ENV, destination = Cutoff, amount = 0.5\<rparr>],
      keySlideTarget = Slide_Cutoff, gestureControlEnabled = False, sustain = False\<rparr>"

definition runningContext :: AudioContext where
  "runningContext = \<lparr>ctxState = Running, currentTime = 0, resumeCalls = 0\<rparr>"

definition audioService :: AudioService where
  "audioService = init runningContext (newAudioService True)"

definition playingC4 :: AudioService where
  "playingC4 = playNote ''C4'' INITIAL_SETTINGS 0.4 0.5 audioService"

text \<open>A gesture reading and a matrix with two gesture routes onto the cutoff.\<close>

definition openHands :: GestureState where
  "openHands =
     \<lparr>leftHand = \<lparr>hand_x = 1, hand_y = 0, active = True, isPincer = False, isClosed = False\<rparr>,
      rightHand = \<lparr>hand_x = 0, hand_y = 0.5, active = True, isPincer = False, isClosed = False\<rparr>,
      distance = 0.25\<rparr>"

definition twoCutoffRoutes :: SynthSettings where
  "twoCutoffRoutes =
     INITIAL_SETTINGS
       \<lparr>gestureControlEnabled := True,
        modMatrix := [\<lparr>source = Gesture_L_H, destination = Cutoff, amount = 1\<rparr>,
                      \<lparr>source = LFO, destination = Cutoff, amount = 0.2\<rparr>,
                      \<lparr>source = Gesture_R_V, destination = Cutoff, amount = 0.5\<rparr>,
                      \<lparr>source = Gesture_Dist, destination = Reverb, amount = 1\<rparr>]\<rparr>"

text \<open>Settings whose matrix mixes internal and gesture sources, and Reverb as a destination.\<close>

definition mixedRoutes :: SynthSettings where
  "mixedRoutes =
     INITIAL_SETTINGS
       \<lparr>modMatrix := [\<lparr>source = LFO, destination = Cutoff, amount = 0.2\<rparr>,
                      \<lparr>source = Gesture_Dist, destination = Reverb, amount = 1\<rparr>,
                      \<lparr>source = Gesture_L_H, destination = Pitch, amount = 1\<rparr>,
                      \<lparr>source = ENV, destination = Gain, amount = 0.5\<rparr>]\<rparr>"

text \<open>
  Mono mode on the concrete engine: C4 is played and released, and E4 is played while
  the release of C4 is still pending.
\<close>

definition monoSettings :: SynthSettings where
  "monoSettings = INITIAL_SETTINGS\<lparr>monoMode := True\<rparr>"

definition monoC4 :: AudioService where
  "monoC4 = playNote ''C4'' monoSettings 0.4 0.5 audioService"

definition monoC4released :: AudioService where
  "monoC4released = stopNote ''C4'' monoSettings False monoC4"

definition monoE4retargeted :: AudioService where
  "monoE4retargeted = playNote ''E4'' monoSettings 0.4 0.5 monoC4released"





text \<open>
  The sustain pedal on the concrete engine: C4 is played, the pedal goes down, the key
  is released (\<open>heldC4\<close>), pressed again (\<open>retriggered\<close>), and the pedal is lifted.
\<close>

definition pedalDown :: SynthSettings where
  "pedalDown = INITIAL_SETTINGS\<lparr>sustain := True\<rparr>"

definition sustainedC4 :: AudioService where
  "sustainedC4 = updateGlobalParams pedalDown playingC4"

definition heldC4 :: AudioService where
  "heldC4 = stopNote ''C4'' pedalDown False sustainedC4"

definition retriggered :: AudioService where
  "retriggered = playNote ''C4'' pedalDown 0.4 0.5 heldC4"

definition lifted :: AudioService where
  "lifted = updateGlobalParams INITIAL_SETTINGS retriggered"



text \<open>
  The part of the state the event loop and the arpeggiator act on: the clock, the pending
  timeouts, the next handle, the arpeggiator's index, the map and the size of the heap.
  An engine is \<open>ready\<close> when it is in a browser, its backend runs and the sustain pedal is up.
\<close>

definition schedule :: "AudioService \<Rightarrow> real \<times> timer list \<times> nat \<times> nat \<times> (string \<times> nat) list \<times> nat" where
  "schedule s =
     (clock s, timers s, nextTimerId s, currentArpIndex s, activeOscillators s, length (voices s))"

definition ready :: "AudioService \<Rightarrow> bool" where
  "ready s =
     ((case ctx s of None \<Rightarrow> False | Some c \<Rightarrow> ctxState c = Running) \<and>
      mainGain s \<noteq> None \<and> \<not> currentSustain s \<and> hasWindow s)"

section \<open>Basic facts\<close>

subsection \<open>Loops over the map\<close>

lemma forEachEntry_alt:
  "forEachEntry f s =
     s\<lparr>voices := foldl (\<lambda>vs (k, r). vs[r := f (vs ! r)]) (voices s) (activeOscillators s)\<rparr>"
proof -
  have "foldl (\<lambda>st (k, r). st\<lparr>voices := (voices st)[r := f (voices st ! r)]\<rparr>) s al
        = s\<lparr>voices := foldl (\<lambda>vs (k, r). vs[r := f (vs ! r)]) (voices s) al\<rparr>"
    for al :: "(string \<times> nat) list"
    by (induction al arbitrary: s) (auto simp: case_prod_beta)
  then show ?thesis by (simp add: forEachEntry_def)
qed

lemma foldl_update_length:
  "length (foldl (\<lambda>vs (k, r). vs[r := f (vs ! r)]) vs al) = length vs"
  by (induction al arbitrary: vs) (auto simp: case_prod_beta)

lemma foldl_update_nth:
  "distinct (map snd al) \<Longrightarrow> i < length vs \<Longrightarrow>
   foldl (\<lambda>vs (k, r). vs[r := f (vs ! r)]) vs al ! i =
     (if i \<in> snd ` set al then f (vs ! i) else vs ! i)"
proof (induction al arbitrary: vs)
  case Nil
  then show ?case by simp
next
  case (Cons a al)
  obtain k r where a: "a = (k, r)" by (cases a)
  from Cons.prems have d: "distinct (map snd al)" and nr: "r \<notin> snd ` set al"
    by (auto simp: a)
  have len: "i < length (vs[r := f (vs ! r)])" using Cons.prems by simp
  show ?case
  proof (cases "i = r")
    case True
    then show ?thesis using Cons.IH[OF d len] nr Cons.prems(2) by (simp add: a)
  next
    case False
    then show ?thesis using Cons.IH[OF d len] Cons.prems(2) by (simp add: a)
  qed
qed

lemma map_update_same: "g y = g (xs ! k) \<Longrightarrow> map g (xs[k := y]) = map g xs"
  by (cases "k < length xs") (simp_all add: map_update list_update_same_conv list_update_beyond)

lemma foldl_update_map:
  "(\<And>e. g (f e) = g e) \<Longrightarrow> map g (foldl (\<lambda>vs (k, r). vs[r := f (vs ! r)]) vs al) = map g vs"
  by (induction al arbitrary: vs) (auto simp: case_prod_beta map_update_same)

lemma wellFormed_ref:
  "wellFormed s \<Longrightarrow> (k, r) \<in> set (activeOscillators s) \<Longrightarrow> r < length (voices s)"
  by (auto simp: wellFormed_def list_all_iff)

lemma wellFormed_lookup:
  "wellFormed s \<Longrightarrow> map_of (activeOscillators s) k = Some r \<Longrightarrow> r < length (voices s)"
  by (auto dest: map_of_SomeD wellFormed_ref)

subsection \<open>The frequency table and the concrete engine\<close>

lemmas note_simps =
  shiftNote_def matchHere_def isPitchChar_def isDigit_def parseInt_def digitValue_def
  intToString_def digitChar_def natToString.simps

lemmas table_simps =
  FREQUENCIES_def generateFrequencies_def NOTES_def upt_rec enumerate_eq_zip semiFromA4_def
  digitChar_def natToString.simps

lemma foldl_upd_pos:
  "(\<And>k f. m k = Some f \<Longrightarrow> 0 < f) \<Longrightarrow>
   foldl (\<lambda>freqs (i, n). freqs(g i n \<mapsto> 440 * 2 powr h i n)) m xs k = Some (f::real) \<Longrightarrow> 0 < f"
proof (induction xs arbitrary: m)
  case Nil
  then show ?case by simp
next
  case (Cons a xs)
  obtain i n where a: "a = (i, n)" by (cases a)
  show ?case
  proof (rule Cons.IH[of "m(g i n \<mapsto> 440 * 2 powr h i n)"])
    fix k' f' assume "(m(g i n \<mapsto> 440 * 2 powr h i n)) k' = Some f'"
    then show "0 < f'" using Cons.prems(1)[of k' f'] by (auto split: if_splits)
  next
    show "foldl (\<lambda>freqs (i, n). freqs(g i n \<mapsto> 440 * 2 powr h i n)) (m(g i n \<mapsto> 440 * 2 powr h i n)) xs k = Some f"
      using Cons.prems(2) unfolding a by (simp only: foldl_Cons prod.case)
  qed
qed

lemma foldl_octaves_pos:
  "(\<And>k f. m k = Some f \<Longrightarrow> 0 < f) \<Longrightarrow>
   foldl (\<lambda>freqs oct. foldl (\<lambda>freqs (i, n). freqs(g oct i n \<mapsto> 440 * 2 powr h oct i n)) freqs xs) m os k = Some (f::real)
   \<Longrightarrow> 0 < f"
proof (induction os arbitrary: m)
  case Nil
  then show ?case by simp
next
  case (Cons oct os)
  show ?case
  proof (rule Cons.IH[of "foldl (\<lambda>freqs (i, n). freqs(g oct i n \<mapsto> 440 * 2 powr h oct i n)) m xs"])
    fix k' f' assume "foldl (\<lambda>freqs (i, n). freqs(g oct i n \<mapsto> 440 * 2 powr h oct i n)) m xs k' = Some f'"
    then show "0 < f'" using foldl_upd_pos[of m "g oct" "h oct" xs k' f'] Cons.prems(1) by blast
  next
    show "foldl (\<lambda>freqs oct. foldl (\<lambda>freqs (i, n). freqs(g oct i n \<mapsto> 440 * 2 powr h oct i n)) freqs xs)
            (foldl (\<lambda>freqs (i, n). freqs(g oct i n \<mapsto> 440 * 2 powr h oct i n)) m xs) os k = Some f"
      using Cons.prems(2) by (simp only: foldl_Cons)
  qed
qed

lemma FREQUENCIES_pos: "FREQUENCIES k = Some f \<Longrightarrow> 0 < f"
  unfolding FREQUENCIES_def generateFrequencies_def
  by (rule foldl_octaves_pos[of Map.empty "\<lambda>oct i n. n @ natToString oct" "\<lambda>oct i n. real_of_int (semiFromA4 oct i) / 12"]) simp_all

lemma FREQUENCIES_C4: "FREQUENCIES ''C4'' = Some (440 * 2 powr (- 9 / 12))"
  by (simp add: table_simps)

lemma FREQUENCIES_E4: "FREQUENCIES ''E4'' = Some (440 * 2 powr (- 5 / 12))"
  by (simp add: table_simps)




lemma frequencyOf_own: "FREQUENCIES k = Some f \<Longrightarrow> frequencyOf k = Own f"
  by (simp add: frequencyOf_def)




lemma shiftNote_C4: "shiftNote ''C4'' 0 = ''C4''"
  by (simp add: note_simps)

lemma shiftNote_E4: "shiftNote ''E4'' 0 = ''E4''"
  by (simp add: note_simps)



lemma audioService_fields:
  "ctx audioService = Some runningContext"
  "mainGain audioService \<noteq> None"
  "delayNode audioService \<noteq> None"
  "delayFeedbackNode audioService \<noteq> None"
  "activeOscillators audioService = []"
  "voices audioService = []"
  "arpTimer audioService = None"
  "activeNotesForArp audioService = []"
  "currentArpIndex audioService = 0"
  "currentPitchBend audioService = 0"
  "lastFrequency audioService = None"
  "currentSustain audioService = False"
  "timers audioService = []"
  "nextTimerId audioService = 1"
  "clock audioService = 0"
  "hasWindow audioService"
  by (simp_all add: audioService_def init_def newAudioService_def)

lemma wellFormed_audioService: "wellFormed audioService"
  by (simp add: wellFormed_def audioService_fields)

lemma wellFormed_newAudioService: "wellFormed (newAudioService w)"
  by (simp add: wellFormed_def newAudioService_def)


subsection \<open>setPitchBend\<close>

lemma setPitchBend_alt:
  "setPitchBend v s =
     (case ctx s of
        None \<Rightarrow> s\<lparr>currentPitchBend := v\<rparr>
      | Some c \<Rightarrow>
          s\<lparr>currentPitchBend := v,
            voices := foldl (\<lambda>vs (k, r). vs[r := bendEntry (s\<lparr>currentPitchBend := v\<rparr>) (currentTime c) (vs ! r)])
                        (voices s) (activeOscillators s)\<rparr>)"
  by (simp add: setPitchBend_def forEachEntry_alt Let_def split: option.splits)

lemma bendEntry_baseFreq: "baseFreq (bendEntry s now e) = baseFreq e"
  by (simp add: bendEntry_def Let_def)

lemma setPitchBend_baseFreq: "map baseFreq (voices (setPitchBend v s)) = map baseFreq (voices s)"
proof -
  have "map baseFreq (foldl (\<lambda>vs (k, r). vs[r := bendEntry s' t (vs ! r)]) vs al) = map baseFreq vs"
    for s' t vs and al :: "(string \<times> nat) list"
    by (rule foldl_update_map) (rule bendEntry_baseFreq)
  then show ?thesis by (simp add: setPitchBend_alt split: option.splits)
qed

lemma setPitchBend_frame:
  "activeOscillators (setPitchBend v s) = activeOscillators s"
  "ctx (setPitchBend v s) = ctx s"
  "length (voices (setPitchBend v s)) = length (voices s)"
  "nextTimerId (setPitchBend v s) = nextTimerId s"
  "arpTimer (setPitchBend v s) = arpTimer s"
  "currentArpIndex (setPitchBend v s) = currentArpIndex s"
  "timers (setPitchBend v s) = timers s"
  "currentSustain (setPitchBend v s) = currentSustain s"
  "hasWindow (setPitchBend v s) = hasWindow s"
  "mainGain (setPitchBend v s) = mainGain s"
  "delayNode (setPitchBend v s) = delayNode s"
  "delayFeedbackNode (setPitchBend v s) = delayFeedbackNode s"
  by (simp_all add: setPitchBend_alt foldl_update_length split: option.splits)

lemma setPitchBend_entry:
  assumes "ctx s = Some c" and "wellFormed s" and "(k, r) \<in> set (activeOscillators s)"
  shows "voices (setPitchBend v s) ! r = bendEntry (s\<lparr>currentPitchBend := v\<rparr>) (currentTime c) (voices s ! r)"
proof -
  have d: "distinct (map snd (activeOscillators s))" using assms(2) by (simp add: wellFormed_def)
  have r: "r < length (voices s)" using assms(2,3) by (rule wellFormed_ref)
  have m: "r \<in> snd ` set (activeOscillators s)" using assms(3) by force
  show ?thesis
    using foldl_update_nth[OF d r, of "bendEntry (s\<lparr>currentPitchBend := v\<rparr>) (currentTime c)"] m
    by (simp add: setPitchBend_alt assms(1))
qed

lemma setPitchBend_wellFormed: "wellFormed s \<Longrightarrow> wellFormed (setPitchBend v s)"
  by (simp add: wellFormed_def setPitchBend_frame)

subsection \<open>What playNote leaves alone\<close>

lemma resumeIfSuspended_frame:
  "mainGain (resumeIfSuspended s) = mainGain s"
  "delayNode (resumeIfSuspended s) = delayNode s"
  "delayFeedbackNode (resumeIfSuspended s) = delayFeedbackNode s"
  "activeOscillators (resumeIfSuspended s) = activeOscillators s"
  "voices (resumeIfSuspended s) = voices s"
  "arpTimer (resumeIfSuspended s) = arpTimer s"
  "activeNotesForArp (resumeIfSuspended s) = activeNotesForArp s"
  "currentArpIndex (resumeIfSuspended s) = currentArpIndex s"
  "currentPitchBend (resumeIfSuspended s) = currentPitchBend s"
  "lastFrequency (resumeIfSuspended s) = lastFrequency s"
  "currentSustain (resumeIfSuspended s) = currentSustain s"
  "timers (resumeIfSuspended s) = timers s"
  "nextTimerId (resumeIfSuspended s) = nextTimerId s"
  "clock (resumeIfSuspended s) = clock s"
  "(ctx (resumeIfSuspended s) = None) = (ctx s = None)"
  "map_option currentTime (ctx (resumeIfSuspended s)) = map_option currentTime (ctx s)"
  "hasWindow (resumeIfSuspended s) = hasWindow s"
  by (simp_all add: resumeIfSuspended_def split: option.splits)

lemma updateNoteSlide_frame:
  "ctx (updateNoteSlide k v s) = ctx s"
  "mainGain (updateNoteSlide k v s) = mainGain s"
  "delayNode (updateNoteSlide k v s) = delayNode s"
  "delayFeedbackNode (updateNoteSlide k v s) = delayFeedbackNode s"
  "activeOscillators (updateNoteSlide k v s) = activeOscillators s"
  "length (voices (updateNoteSlide k v s)) = length (voices s)"
  "arpTimer (updateNoteSlide k v s) = arpTimer s"
  "activeNotesForArp (updateNoteSlide k v s) = activeNotesForArp s"
  "currentArpIndex (updateNoteSlide k v s) = currentArpIndex s"
  "currentPitchBend (updateNoteSlide k v s) = currentPitchBend s"
  "lastFrequency (updateNoteSlide k v s) = lastFrequency s"
  "currentSustain (updateNoteSlide k v s) = currentSustain s"
  "timers (updateNoteSlide k v s) = timers s"
  "nextTimerId (updateNoteSlide k v s) = nextTimerId s"
  "clock (updateNoteSlide k v s) = clock s"
  "hasWindow (updateNoteSlide k v s) = hasWindow s"
  by (simp_all add: updateNoteSlide_def Let_def split: option.splits)

lemma playNote_retarget_frame:
  "ctx (playNote_retarget k st sl f tf now s) = ctx s"
  "mainGain (playNote_retarget k st sl f tf now s) = mainGain s"
  "delayNode (playNote_retarget k st sl f tf now s) = delayNode s"
  "delayFeedbackNode (playNote_retarget k st sl f tf now s) = delayFeedbackNode s"
  "length (voices (playNote_retarget k st sl f tf now s)) = length (voices s)"
  "arpTimer (playNote_retarget k st sl f tf now s) = arpTimer s"
  "activeNotesForArp (playNote_retarget k st sl f tf now s) = activeNotesForArp s"
  "currentArpIndex (playNote_retarget k st sl f tf now s) = currentArpIndex s"
  "currentPitchBend (playNote_retarget k st sl f tf now s) = currentPitchBend s"
  "currentSustain (playNote_retarget k st sl f tf now s) = currentSustain s"
  "timers (playNote_retarget k st sl f tf now s) = timers s"
  "nextTimerId (playNote_retarget k st sl f tf now s) = nextTimerId s"
  "clock (playNote_retarget k st sl f tf now s) = clock s"
  "hasWindow (playNote_retarget k st sl f tf now s) = hasWindow s"
  by (simp_all add: playNote_retarget_def updateNoteSlide_frame Let_def split: prod.splits)

lemma playNote_create_frame:
  "ctx (playNote_create k st v sl f tf now s) = ctx s"
  "mainGain (playNote_create k st v sl f tf now s) = mainGain s"
  "delayNode (playNote_create k st v sl f tf now s) = delayNode s"
  "delayFeedbackNode (playNote_create k st v sl f tf now s) = delayFeedbackNode s"
  "length (voices (playNote_create k st v sl f tf now s)) = Suc (length (voices s))"
  "activeOscillators (playNote_create k st v sl f tf now s) =
     AList.update k (length (voices s)) (activeOscillators s)"
  "take (length (voices s)) (voices (playNote_create k st v sl f tf now s)) = voices s"
  "arpTimer (playNote_create k st v sl f tf now s) = arpTimer s"
  "activeNotesForArp (playNote_create k st v sl f tf now s) = activeNotesForArp s"
  "currentArpIndex (playNote_create k st v sl f tf now s) = currentArpIndex s"
  "currentPitchBend (playNote_create k st v sl f tf now s) = currentPitchBend s"
  "lastFrequency (playNote_create k st v sl f tf now s) = Some tf"
  "currentSustain (playNote_create k st v sl f tf now s) = currentSustain s"
  "timers (playNote_create k st v sl f tf now s) = timers s"
  "nextTimerId (playNote_create k st v sl f tf now s) = nextTimerId s"
  "clock (playNote_create k st v sl f tf now s) = clock s"
  "hasWindow (playNote_create k st v sl f tf now s) = hasWindow s"
  by (simp_all add: playNote_create_def Let_def split: prod.splits)

lemma playNote_notANumber_frame:
  "ctx (playNote_notANumber st now s) = ctx s"
  "mainGain (playNote_notANumber st now s) = mainGain s"
  "delayNode (playNote_notANumber st now s) = delayNode s"
  "delayFeedbackNode (playNote_notANumber st now s) = delayFeedbackNode s"
  "activeOscillators (playNote_notANumber st now s) = activeOscillators s"
  "length (voices (playNote_notANumber st now s)) = length (voices s)"
  "arpTimer (playNote_notANumber st now s) = arpTimer s"
  "activeNotesForArp (playNote_notANumber st now s) = activeNotesForArp s"
  "currentArpIndex (playNote_notANumber st now s) = currentArpIndex s"
  "currentPitchBend (playNote_notANumber st now s) = currentPitchBend s"
  "lastFrequency (playNote_notANumber st now s) = lastFrequency s"
  "currentSustain (playNote_notANumber st now s) = currentSustain s"
  "timers (playNote_notANumber st now s) = timers s"
  "nextTimerId (playNote_notANumber st now s) = nextTimerId s"
  "clock (playNote_notANumber st now s) = clock s"
  "hasWindow (playNote_notANumber st now s) = hasWindow s"
  by (simp_all add: playNote_notANumber_def Let_def split: prod.splits)

text \<open>When \<open>playNote\<close> takes which branch, and whether it raises.\<close>

lemma playNote_outcome_uninitialised:
  "ctx s = None \<or> mainGain s = None \<Longrightarrow> playNote_outcome k st v sl s = Inr s"
  by (auto simp: playNote_outcome_def split: option.splits)


lemma playNote_outcome_inherited:
  "ctx s = Some c \<Longrightarrow> mainGain s \<noteq> None \<Longrightarrow> frequencyOf (shiftNote k (octave st)) = Inherited \<Longrightarrow>
   playNote_outcome k st v sl s =
     Inl (TypeError, playNote_notANumber st (currentTime c) (resumeIfSuspended s))"
  by (auto simp: playNote_outcome_def Let_def split: option.splits)

lemma getBentFrequency_resume [simp]:
  "getBentFrequency (resumeIfSuspended s) f = getBentFrequency s f"
  by (simp add: getBentFrequency_def resumeIfSuspended_frame)

lemma playNote_outcome_known:
  assumes "ctx s = Some c" and "mainGain s \<noteq> None"
    and "FREQUENCIES (shiftNote k (octave st)) = Some f"
  shows "playNote_outcome k st v sl s =
     Inr (let s1 = resumeIfSuspended s; tf = f * 2 powr (currentPitchBend s * 2 / 12) in
          if monoMode st \<and> activeOscillators s \<noteq> []
          then playNote_retarget k st sl f tf (currentTime c) s1
          else playNote_create k st v sl f tf (currentTime c) s1)"
  using assms FREQUENCIES_pos[OF assms(3)] frequencyOf_own[OF assms(3)]
  by (auto simp: playNote_outcome_def Let_def resumeIfSuspended_frame getBentFrequency_def)

lemma playNote_outcome_cases:
  "playNote_outcome k st v sl s = Inr (playNote k st v sl s) \<or>
   (\<exists>c. ctx s = Some c \<and> mainGain s \<noteq> None \<and> frequencyOf (shiftNote k (octave st)) = Inherited \<and>
        playNote_outcome k st v sl s = Inl (TypeError, playNote k st v sl s))"
  by (auto simp: playNote_def playNote_outcome_def stateOf_def Let_def
        split: option.splits property.splits)


lemma playNote_frame:
  "mainGain (playNote k st v sl s) = mainGain s"
  "delayNode (playNote k st v sl s) = delayNode s"
  "delayFeedbackNode (playNote k st v sl s) = delayFeedbackNode s"
  "arpTimer (playNote k st v sl s) = arpTimer s"
  "activeNotesForArp (playNote k st v sl s) = activeNotesForArp s"
  "currentArpIndex (playNote k st v sl s) = currentArpIndex s"
  "currentPitchBend (playNote k st v sl s) = currentPitchBend s"
  "currentSustain (playNote k st v sl s) = currentSustain s"
  "timers (playNote k st v sl s) = timers s"
  "nextTimerId (playNote k st v sl s) = nextTimerId s"
  "clock (playNote k st v sl s) = clock s"
  "hasWindow (playNote k st v sl s) = hasWindow s"
  by (simp_all add: playNote_def playNote_outcome_def stateOf_def playNote_retarget_frame
        playNote_create_frame playNote_notANumber_frame resumeIfSuspended_frame Let_def
        split: option.splits property.splits)

lemma playNote_ctx_cases:
  "ctx (playNote k st v sl s) = ctx s \<or> ctx (playNote k st v sl s) = ctx (resumeIfSuspended s)"
  by (simp add: playNote_def playNote_outcome_def stateOf_def playNote_retarget_frame
        playNote_create_frame playNote_notANumber_frame Let_def
        split: option.splits property.splits)

lemma playNote_ctx:
  "(ctx (playNote k st v sl s) = None) = (ctx s = None)"
  "map_option currentTime (ctx (playNote k st v sl s)) = map_option currentTime (ctx s)"
  using playNote_ctx_cases[of k st v sl s] resumeIfSuspended_frame(15,16)[of s] by auto

lemma playNote_unknown:
  "frequencyOf (shiftNote k (octave st)) = Absent \<Longrightarrow>
   playNote k st v sl s = (if ctx s = None \<or> mainGain s = None then s else resumeIfSuspended s)"
  by (simp add: playNote_def playNote_outcome_def stateOf_def Let_def split: option.splits)

lemma playNote_inherited:
  "ctx s = Some c \<Longrightarrow> mainGain s \<noteq> None \<Longrightarrow> frequencyOf (shiftNote k (octave st)) = Inherited \<Longrightarrow>
   playNote k st v sl s = playNote_notANumber st (currentTime c) (resumeIfSuspended s)"
  by (simp add: playNote_def playNote_outcome_inherited stateOf_def)

lemma playNote_uninitialised: "ctx s = None \<or> mainGain s = None \<Longrightarrow> playNote k st v sl s = s"
  by (simp add: playNote_def playNote_outcome_uninitialised stateOf_def)

lemma playNote_known:
  assumes "ctx s = Some c" and "mainGain s \<noteq> None"
    and "FREQUENCIES (shiftNote k (octave st)) = Some f"
  shows "playNote k st v sl s =
     (let s1 = resumeIfSuspended s; tf = f * 2 powr (currentPitchBend s * 2 / 12) in
      if monoMode st \<and> activeOscillators s \<noteq> []
      then playNote_retarget k st sl f tf (currentTime c) s1
      else playNote_create k st v sl f tf (currentTime c) s1)"
  by (simp add: playNote_def playNote_outcome_known[OF assms] stateOf_def)

lemma playNote_not_own:
  assumes "FREQUENCIES (shiftNote k (octave st)) = None" and "ctx s = Some c" and "mainGain s \<noteq> None"
  shows "playNote k st v sl s = resumeIfSuspended s \<or>
         playNote k st v sl s = playNote_notANumber st (currentTime c) (resumeIfSuspended s)"
proof (cases "frequencyOf (shiftNote k (octave st))")
  case Absent
  then show ?thesis using assms by (auto simp: playNote_unknown)
next
  case (Own f)
  then show ?thesis using assms(1) by (simp add: frequencyOf_def split: if_splits)
next
  case Inherited
  then show ?thesis using assms by (simp add: playNote_inherited)
qed

lemma resumeIfSuspended_running:
  "ctx s = Some c \<Longrightarrow> ctxState c \<noteq> Suspended \<Longrightarrow> resumeIfSuspended s = s"
  by (simp add: resumeIfSuspended_def)

lemma resume_audioService: "resumeIfSuspended audioService = audioService"
  by (rule resumeIfSuspended_running[OF audioService_fields(1)]) (simp add: runningContext_def)

subsection \<open>A first note on the concrete engine\<close>

lemma playingC4_create:
  "playingC4 =
     playNote_create ''C4'' INITIAL_SETTINGS 0.4 0.5 (440 * 2 powr (- 9 / 12))
       (440 * 2 powr (- 9 / 12)) 0 audioService"
proof -
  have o: "octave INITIAL_SETTINGS = 0" and m: "\<not> monoMode INITIAL_SETTINGS"
    by (simp_all add: INITIAL_SETTINGS_def)
  have f: "FREQUENCIES (shiftNote ''C4'' (octave INITIAL_SETTINGS)) = Some (440 * 2 powr (- 9 / 12))"
    by (simp add: o shiftNote_C4 FREQUENCIES_C4)
  have r: "resumeIfSuspended audioService = audioService"
    by (rule resumeIfSuspended_running[OF audioService_fields(1)]) (simp add: runningContext_def)
  show ?thesis
    unfolding playingC4_def
    by (simp add: playNote_known[OF audioService_fields(1,2) f] m r runningContext_def
          audioService_fields)
qed

lemma playingC4_fields:
  "ctx playingC4 = Some runningContext"
  "mainGain playingC4 \<noteq> None"
  "delayNode playingC4 \<noteq> None"
  "delayFeedbackNode playingC4 \<noteq> None"
  "activeOscillators playingC4 = [(''C4'', 0)]"
  "length (voices playingC4) = 1"
  "arpTimer playingC4 = None"
  "currentArpIndex playingC4 = 0"
  "currentSustain playingC4 = False"
  "timers playingC4 = []"
  "nextTimerId playingC4 = 1"
  "clock playingC4 = 0"
  unfolding playingC4_create playNote_create_frame
  by (simp_all add: audioService_fields)

lemma wellFormed_playingC4: "wellFormed playingC4"
  by (simp add: wellFormed_def playingC4_fields)

section \<open>Pitch bend\<close>

text \<open>
  C4. With a backend, \<open>setPitchBend v\<close> schedules on both oscillators of every entry of
  the map a smoothed retarget (time constant 0.03) to \<open>baseFreq * 2 powr (v * 2 / 12)\<close>;
  it changes no entry's \<open>baseFreq\<close> and not the map; and \<open>setPitchBend 0\<close> after any
  bend retargets both oscillators to exactly \<open>baseFreq\<close>.
\<close>

theorem setPitchBend_retargets_live_voices:
  assumes "ctx s = Some c" and "wellFormed s" and "(k, r) \<in> set (activeOscillators s)"
  shows "map baseFreq (voices (setPitchBend v s)) = map baseFreq (voices s) \<and>
         activeOscillators (setPitchBend v s) = activeOscillators s \<and>
         events (frequency (osc1 (voices (setPitchBend v s) ! r))) =
           events (frequency (osc1 (voices s ! r))) @
             [SetTargetAtTime (baseFreq (voices s ! r) * 2 powr (v * 2 / 12)) (currentTime c) 0.03] \<and>
         events (frequency (osc2 (voices (setPitchBend v s) ! r))) =
           events (frequency (osc2 (voices s ! r))) @
             [SetTargetAtTime (baseFreq (voices s ! r) * 2 powr (v * 2 / 12)) (currentTime c) 0.03] \<and>
         last (events (frequency (osc1 (voices (setPitchBend 0 (setPitchBend v s)) ! r)))) =
           SetTargetAtTime (baseFreq (voices s ! r)) (currentTime c) 0.03 \<and>
         last (events (frequency (osc2 (voices (setPitchBend 0 (setPitchBend v s)) ! r)))) =
           SetTargetAtTime (baseFreq (voices s ! r)) (currentTime c) 0.03"
proof -
  let ?s1 = "setPitchBend v s"
  have e1: "voices ?s1 ! r = bendEntry (s\<lparr>currentPitchBend := v\<rparr>) (currentTime c) (voices s ! r)"
    using assms by (rule setPitchBend_entry)
  have c1: "ctx ?s1 = Some c" using assms(1) by (simp add: setPitchBend_frame)
  have w1: "wellFormed ?s1" using assms(2) by (rule setPitchBend_wellFormed)
  have m1: "(k, r) \<in> set (activeOscillators ?s1)" using assms(3) by (simp add: setPitchBend_frame)
  have e2: "voices (setPitchBend 0 ?s1) ! r =
              bendEntry (?s1\<lparr>currentPitchBend := 0\<rparr>) (currentTime c) (voices ?s1 ! r)"
    using c1 w1 m1 by (rule setPitchBend_entry)
  show ?thesis
    by (simp add: setPitchBend_baseFreq setPitchBend_frame e1 e2 bendEntry_def
          getBentFrequency_def setTargetAtTime_def Let_def)
qed

theorem setPitchBend_retargets_live_voices_witness:
  "ctx playingC4 = Some runningContext \<and> wellFormed playingC4 \<and>
   (''C4'', 0) \<in> set (activeOscillators playingC4) \<and>
   map baseFreq (voices (setPitchBend 1 playingC4)) = map baseFreq (voices playingC4) \<and>
   events (frequency (osc1 (voices (setPitchBend 1 playingC4) ! 0))) =
     events (frequency (osc1 (voices playingC4 ! 0))) @
       [SetTargetAtTime (baseFreq (voices playingC4 ! 0) * 2 powr (1 * 2 / 12)) (currentTime runningContext) 0.03] \<and>
   last (events (frequency (osc1 (voices (setPitchBend 0 (setPitchBend 1 playingC4)) ! 0)))) =
     SetTargetAtTime (baseFreq (voices playingC4 ! 0)) (currentTime runningContext) 0.03"
proof -
  have h1: "ctx playingC4 = Some runningContext" by (rule playingC4_fields)
  have h2: "wellFormed playingC4" by (rule wellFormed_playingC4)
  have h3: "(''C4'', 0) \<in> set (activeOscillators playingC4)" by (simp add: playingC4_fields)
  show ?thesis
    using h1 h2 h3 setPitchBend_retargets_live_voices[OF h1 h2 h3, of 1] by simp
qed

section \<open>Failure as a silent no-op\<close>






section \<open>Gesture routes onto one destination\<close>

lemma applyGestureRoute_other:
  "\<not> (isGestureSource (source r) \<and> destination r = d) \<Longrightarrow>
   destinationSetting d (applyGestureRoute g nxt r) = destinationSetting d nxt"
  by (cases d; cases "destination r") (simp_all add: applyGestureRoute_def Let_def)

lemma applyGestureRoute_overwrites:
  "isGestureSource (source r) \<and> destination r = d \<Longrightarrow>
   destinationSetting d (applyGestureRoute g nxt r) = destinationSetting d (applyGestureRoute g nxt' r)"
  by (cases d) (auto simp: applyGestureRoute_def Let_def)

lemma foldl_applyGestureRoute_last:
  assumes "filter (\<lambda>r. isGestureSource (source r) \<and> destination r = d) rs \<noteq> []"
  shows "destinationSetting d (foldl (applyGestureRoute g) nxt rs) =
         destinationSetting d
           (applyGestureRoute g nxt' (last (filter (\<lambda>r. isGestureSource (source r) \<and> destination r = d) rs)))"
  using assms
proof (induction rs rule: rev_induct)
  case Nil
  then show ?case by simp
next
  case (snoc r rs)
  show ?case
  proof (cases "isGestureSource (source r) \<and> destination r = d")
    case True
    then show ?thesis
      using applyGestureRoute_overwrites[OF True, of g "foldl (applyGestureRoute g) nxt rs" nxt']
      by simp
  next
    case False
    with snoc.prems have ne: "filter (\<lambda>r. isGestureSource (source r) \<and> destination r = d) rs \<noteq> []"
      by auto
    show ?thesis
      using snoc.IH[OF ne] applyGestureRoute_other[OF False, of g "foldl (applyGestureRoute g) nxt rs"] False
      by simp
  qed
qed

text \<open>
  C9. When the matrix holds gesture-sourced routes onto a destination \<open>d\<close>, one
  evaluation of the bridge leaves the setting of \<open>d\<close> at what the last such route
  writes: the same value the bridge gives with that route as the only route, and the
  value of that route's own formula on any settings. Earlier routes leave no trace.
\<close>

theorem gesture_routes_last_wins:
  assumes "gestureControlEnabled prev"
    and "rs = filter (\<lambda>r. isGestureSource (source r) \<and> destination r = d) (modMatrix prev)"
    and "rs \<noteq> []"
  shows "destinationSetting d (applyGestures (Some g) prev) =
           destinationSetting d (applyGestures (Some g) (prev\<lparr>modMatrix := [last rs]\<rparr>)) \<and>
         destinationSetting d (applyGestures (Some g) prev) =
           destinationSetting d (applyGestureRoute g anySettings (last rs))"
proof -
  let ?P = "\<lambda>r. isGestureSource (source r) \<and> destination r = d"
  let ?nxt = "prev\<lparr>sustain := (active (leftHand g) \<and> isPincer (leftHand g)) \<or>
                              (active (rightHand g) \<and> isPincer (rightHand g))\<rparr>"
  have ne: "filter ?P (modMatrix prev) \<noteq> []" using assms(2,3) by simp
  have whole: "applyGestures (Some g) prev = foldl (applyGestureRoute g) ?nxt (modMatrix prev)"
    using assms(1) by (simp add: applyGestures_def Let_def)
  have a: "destinationSetting d (applyGestures (Some g) prev) =
           destinationSetting d (applyGestureRoute g nxt' (last rs))" for nxt'
    unfolding whole assms(2) by (rule foldl_applyGestureRoute_last[OF ne])
  have "last rs \<in> set rs" using assms(3) by simp
  then have l: "?P (last rs)" unfolding assms(2) by simp
  have "\<exists>n. applyGestures (Some g) (prev\<lparr>modMatrix := [last rs]\<rparr>) =
               applyGestureRoute g n (last rs)"
    using assms(1) by (auto simp: applyGestures_def Let_def)
  then obtain n where alone: "applyGestures (Some g) (prev\<lparr>modMatrix := [last rs]\<rparr>) =
               applyGestureRoute g n (last rs)" ..
  show ?thesis
    unfolding alone using a by simp
qed

theorem gesture_routes_last_wins_witness:
  "gestureControlEnabled twoCutoffRoutes \<and>
   filter (\<lambda>r. isGestureSource (source r) \<and> destination r = Cutoff) (modMatrix twoCutoffRoutes) =
     [\<lparr>source = Gesture_L_H, destination = Cutoff, amount = 1\<rparr>,
      \<lparr>source = Gesture_R_V, destination = Cutoff, amount = 0.5\<rparr>] \<and>
   destinationSetting Cutoff (applyGestures (Some openHands) twoCutoffRoutes) =
     destinationSetting Cutoff
       (applyGestures (Some openHands)
          (twoCutoffRoutes\<lparr>modMatrix := [\<lparr>source = Gesture_R_V, destination = Cutoff, amount = 0.5\<rparr>]\<rparr>)) \<and>
   cutoff (applyGestures (Some openHands) twoCutoffRoutes) = 4000"
proof -
  let ?rs = "filter (\<lambda>r. isGestureSource (source r) \<and> destination r = Cutoff) (modMatrix twoCutoffRoutes)"
  have h1: "gestureControlEnabled twoCutoffRoutes"
    by (simp add: twoCutoffRoutes_def)
  have h2: "?rs = [\<lparr>source = Gesture_L_H, destination = Cutoff, amount = 1\<rparr>,
                   \<lparr>source = Gesture_R_V, destination = Cutoff, amount = 0.5\<rparr>]"
    by (simp add: twoCutoffRoutes_def isGestureSource_def)
  have h3: "?rs \<noteq> []" by (simp add: h2)
  have v: "cutoff (applyGestureRoute openHands INITIAL_SETTINGS
             \<lparr>source = Gesture_R_V, destination = Cutoff, amount = 0.5\<rparr>) = 4000"
    by (simp add: applyGestureRoute_def isGestureSource_def openHands_def Let_def)
  show ?thesis
    using h1 h2 v gesture_routes_last_wins[OF h1 refl h3, of openHands INITIAL_SETTINGS]
    by simp
qed

section \<open>The modulation matrix at voice creation\<close>

lemma wireRoute_fold:
  "foldl (\<lambda>acc route. wireRoute now route acc) (lo, eo, mgs) routes =
     (lo @ map (ToModGain \<circ> fst)
             (filter (\<lambda>(j, r). source r = LFO)
                (enumerate (length mgs) (filter (\<lambda>r. routeTarget (destination r) \<noteq> None) routes))),
      eo @ map (ToModGain \<circ> fst)
             (filter (\<lambda>(j, r). source r = ENV)
                (enumerate (length mgs) (filter (\<lambda>r. routeTarget (destination r) \<noteq> None) routes))),
      mgs @ map (\<lambda>r. routeGain now r (the (routeTarget (destination r))))
              (filter (\<lambda>r. routeTarget (destination r) \<noteq> None) routes))"
proof (induction routes arbitrary: lo eo mgs)
  case Nil
  then show ?case by simp
next
  case (Cons r routes)
  show ?case
  proof (cases "routeTarget (destination r)")
    case None
    then show ?thesis using Cons.IH[of lo eo mgs] by (simp add: wireRoute_def)
  next
    case (Some target)
    then show ?thesis
      using Cons.IH[of "if source r = LFO then lo @ [ToModGain (length mgs)] else lo"
                       "if source r \<noteq> LFO \<and> source r = ENV then eo @ [ToModGain (length mgs)] else eo"
                       "mgs @ [routeGain now r target]"]
      by (auto simp: wireRoute_def Let_def)
  qed
qed

lemma playNote_create_entry:
  "modGains (last (voices (playNote_create k st v sl f tf now s))) =
     map (\<lambda>r. routeGain now r (the (routeTarget (destination r)))) (wiredRoutes st) @
     [createGain\<lparr>gainParam := setValueAtTime (slideScale (keySlideTarget st)) now (gainParam createGain),
                 gainOut := [ToParam (slideTarget (keySlideTarget st))]\<rparr>]"
  "oscOut (lfo (last (voices (playNote_create k st v sl f tf now s)))) =
     map (ToModGain \<circ> fst) (filter (\<lambda>(j, r). source r = LFO) (enumerate 0 (wiredRoutes st)))"
  "srcOut (envSource (last (voices (playNote_create k st v sl f tf now s)))) =
     map (ToModGain \<circ> fst) (filter (\<lambda>(j, r). source r = ENV) (enumerate 0 (wiredRoutes st)))"
  "srcOut (slideSource (last (voices (playNote_create k st v sl f tf now s)))) =
     [ToModGain (length (wiredRoutes st))]"
  "events (offset (envSource (last (voices (playNote_create k st v sl f tf now s))))) =
     [SetValueAtTime 0 now, LinearRampToValueAtTime 1 (now + max 0.005 (attack st))]"
  "oscOut (osc1 (last (voices (playNote_create k st v sl f tf now s)))) = [ToFilter]"
  "oscOut (osc2 (last (voices (playNote_create k st v sl f tf now s)))) = [ToFilter]"
  using wireRoute_fold[of now "[]" "[]" "[]" "modMatrix st"]
  by (simp_all add: playNote_create_def wiredRoutes_def Let_def createConstantSource_def newParam_def
        setValueAtTime_def linearRampToValueAtTime_def split: prod.splits)

lemma enumerate_member:
  "j < length xs \<Longrightarrow>
   (ToModGain j \<in> set (map (ToModGain \<circ> fst) (filter (\<lambda>(j, r). P r) (enumerate 0 xs)))) = P (xs ! j)"
  by (auto simp: in_set_enumerate_eq image_iff)

lemma routeTarget_cases:
  "(routeTarget d \<noteq> None) = (d = Cutoff \<or> d = Resonance \<or> d = Pitch \<or> d = Gain)"
  by (cases d) simp_all

text \<open>
  C5, as the code has it. When \<open>playNote\<close> creates a voice, every route of the matrix
  whose destination is Cutoff, Resonance, Pitch or Gain, whatever its source, gets one
  gain node, in matrix order, whose gain is set to the route's amount times the scale of
  the destination (6000, 15, 800, 0.5), whose output is connected to the destination's
  parameter (filter frequency, filter Q, frequency of the first oscillator, note gain)
  and which is kept in \<open>modGains\<close>. The LFO is connected into that node exactly when
  the route's source is LFO, the envelope source (a linear ramp from 0 to 1 over the
  attack) exactly when it is ENV. So a gesture-sourced route to one of the four
  destinations is wired into the voice as well, gain set and output connected; what it
  lacks is an input: no node of the voice is connected into its gain node. Routes to
  Reverb or Delay get no node. The last node of \<open>modGains\<close> is the key-slide connection.
\<close>

theorem playNote_wires_modulation:
  assumes "ctx s = Some c" and "mainGain s \<noteq> None"
    and "FREQUENCIES (shiftNote k (octave st)) = Some f"
    and "\<not> (monoMode st \<and> activeOscillators s \<noteq> [])"
    and "entry = last (voices (playNote k st v sl s))"
    and "now = currentTime c"
  shows "voices (playNote k st v sl s) = voices s @ [entry] \<and>
         map_of (activeOscillators (playNote k st v sl s)) k = Some (length (voices s)) \<and>
         wiredRoutes st =
           filter (\<lambda>r. destination r = Cutoff \<or> destination r = Resonance \<or>
                        destination r = Pitch \<or> destination r = Gain) (modMatrix st) \<and>
         routeScale Cutoff = 6000 \<and> routeScale Resonance = 15 \<and>
         routeScale Pitch = 800 \<and> routeScale Gain = 0.5 \<and>
         routeTarget Cutoff = Some FilterFrequency \<and> routeTarget Resonance = Some FilterQ \<and>
         routeTarget Pitch = Some Osc1Frequency \<and> routeTarget Gain = Some NoteGainGain \<and>
         length (modGains entry) = Suc (length (wiredRoutes st)) \<and>
         events (offset (envSource entry)) =
           [SetValueAtTime 0 now, LinearRampToValueAtTime 1 (now + max 0.005 (attack st))] \<and>
         oscOut (osc1 entry) = [ToFilter] \<and> oscOut (osc2 entry) = [ToFilter] \<and>
         srcOut (slideSource entry) = [ToModGain (length (wiredRoutes st))] \<and>
         (\<forall>j < length (wiredRoutes st).
            events (gainParam (modGains entry ! j)) =
              [SetValueAtTime (amount (wiredRoutes st ! j) * routeScale (destination (wiredRoutes st ! j))) now] \<and>
            gainOut (modGains entry ! j) = [ToParam (the (routeTarget (destination (wiredRoutes st ! j))))] \<and>
            (ToModGain j \<in> set (oscOut (lfo entry))) = (source (wiredRoutes st ! j) = LFO) \<and>
            (ToModGain j \<in> set (srcOut (envSource entry))) = (source (wiredRoutes st ! j) = ENV) \<and>
            (isGestureSource (source (wiredRoutes st ! j)) \<longrightarrow>
               ToModGain j \<notin> set (oscOut (lfo entry)) \<union> set (srcOut (envSource entry)) \<union>
                 set (srcOut (slideSource entry)) \<union> set (oscOut (osc1 entry)) \<union> set (oscOut (osc2 entry))))"
proof -
  let ?s1 = "resumeIfSuspended s"
  let ?tf = "f * 2 powr (currentPitchBend s * 2 / 12)"
  have p: "playNote k st v sl s = playNote_create k st v sl f ?tf now ?s1"
    using playNote_known[OF assms(1,2,3), of v sl] assms(4,6) by (simp add: Let_def)
  have vs: "voices (playNote k st v sl s) = voices s @ [entry]"
  proof -
    have "\<exists>e. voices (playNote_create k st v sl f ?tf now ?s1) = voices s @ [e]"
      by (simp add: playNote_create_def Let_def resumeIfSuspended_frame split: prod.splits)
    then show ?thesis unfolding assms(5) p by auto
  qed
  have e: "entry = last (voices (playNote_create k st v sl f ?tf now ?s1))"
    by (simp add: assms(5) p)
  have m: "map_of (activeOscillators (playNote k st v sl s)) k = Some (length (voices s))"
    by (simp add: p playNote_create_frame resumeIfSuspended_frame update_conv')
  have w: "wiredRoutes st =
           filter (\<lambda>r. destination r = Cutoff \<or> destination r = Resonance \<or>
                        destination r = Pitch \<or> destination r = Gain) (modMatrix st)"
    unfolding wiredRoutes_def routeTarget_cases ..
  have each: "events (gainParam (modGains entry ! j)) =
              [SetValueAtTime (amount (wiredRoutes st ! j) * routeScale (destination (wiredRoutes st ! j))) now] \<and>
            gainOut (modGains entry ! j) = [ToParam (the (routeTarget (destination (wiredRoutes st ! j))))] \<and>
            (ToModGain j \<in> set (oscOut (lfo entry))) = (source (wiredRoutes st ! j) = LFO) \<and>
            (ToModGain j \<in> set (srcOut (envSource entry))) = (source (wiredRoutes st ! j) = ENV) \<and>
            (isGestureSource (source (wiredRoutes st ! j)) \<longrightarrow>
               ToModGain j \<notin> set (oscOut (lfo entry)) \<union> set (srcOut (envSource entry)) \<union>
                 set (srcOut (slideSource entry)) \<union> set (oscOut (osc1 entry)) \<union> set (oscOut (osc2 entry)))"
    if j: "j < length (wiredRoutes st)" for j
    unfolding e playNote_create_entry
    using j enumerate_member[OF j, of "\<lambda>r. source r = LFO"] enumerate_member[OF j, of "\<lambda>r. source r = ENV"]
    by (simp add: nth_append routeGain_def createGain_def newParam_def setValueAtTime_def
          isGestureSource_def)
  have all: "\<forall>j < length (wiredRoutes st).
            events (gainParam (modGains entry ! j)) =
              [SetValueAtTime (amount (wiredRoutes st ! j) * routeScale (destination (wiredRoutes st ! j))) now] \<and>
            gainOut (modGains entry ! j) = [ToParam (the (routeTarget (destination (wiredRoutes st ! j))))] \<and>
            (ToModGain j \<in> set (oscOut (lfo entry))) = (source (wiredRoutes st ! j) = LFO) \<and>
            (ToModGain j \<in> set (srcOut (envSource entry))) = (source (wiredRoutes st ! j) = ENV) \<and>
            (isGestureSource (source (wiredRoutes st ! j)) \<longrightarrow>
               ToModGain j \<notin> set (oscOut (lfo entry)) \<union> set (srcOut (envSource entry)) \<union>
                 set (srcOut (slideSource entry)) \<union> set (oscOut (osc1 entry)) \<union> set (oscOut (osc2 entry)))"
    using each by blast
  have len: "length (modGains entry) = Suc (length (wiredRoutes st))"
    by (simp add: e playNote_create_entry)
  have env: "events (offset (envSource entry)) =
           [SetValueAtTime 0 now, LinearRampToValueAtTime 1 (now + max 0.005 (attack st))]"
    by (simp add: e playNote_create_entry)
  have outs: "oscOut (osc1 entry) = [ToFilter]" "oscOut (osc2 entry) = [ToFilter]"
    "srcOut (slideSource entry) = [ToModGain (length (wiredRoutes st))]"
    by (simp_all add: e playNote_create_entry)
  show ?thesis
    by (intro conjI; (fact vs m w len env outs all | simp))
qed

theorem playNote_wires_modulation_witness:
  "ctx audioService = Some runningContext \<and> mainGain audioService \<noteq> None \<and>
   FREQUENCIES (shiftNote ''C4'' (octave mixedRoutes)) = Some (440 * 2 powr (- 9 / 12)) \<and>
   \<not> (monoMode mixedRoutes \<and> activeOscillators audioService \<noteq> []) \<and>
   wiredRoutes mixedRoutes =
     [\<lparr>source = LFO, destination = Cutoff, amount = 0.2\<rparr>,
      \<lparr>source = Gesture_L_H, destination = Pitch, amount = 1\<rparr>,
      \<lparr>source = ENV, destination = Gain, amount = 0.5\<rparr>] \<and>
   length (modGains (last (voices (playNote ''C4'' mixedRoutes 0.4 0.5 audioService)))) = 4 \<and>
   events (gainParam (modGains (last (voices (playNote ''C4'' mixedRoutes 0.4 0.5 audioService))) ! 0)) =
     [SetValueAtTime (0.2 * 6000) 0] \<and>
   gainOut (modGains (last (voices (playNote ''C4'' mixedRoutes 0.4 0.5 audioService))) ! 0) =
     [ToParam FilterFrequency] \<and>
   ToModGain 0 \<in> set (oscOut (lfo (last (voices (playNote ''C4'' mixedRoutes 0.4 0.5 audioService))))) \<and>
   events (gainParam (modGains (last (voices (playNote ''C4'' mixedRoutes 0.4 0.5 audioService))) ! 1)) =
     [SetValueAtTime (1 * 800) 0] \<and>
   ToModGain 1 \<notin> set (oscOut (lfo (last (voices (playNote ''C4'' mixedRoutes 0.4 0.5 audioService))))) \<and>
   ToModGain 1 \<notin> set (srcOut (envSource (last (voices (playNote ''C4'' mixedRoutes 0.4 0.5 audioService))))) \<and>
   ToModGain 1 \<notin> set (srcOut (slideSource (last (voices (playNote ''C4'' mixedRoutes 0.4 0.5 audioService))))) \<and>
   events (gainParam (modGains (last (voices (playNote ''C4'' mixedRoutes 0.4 0.5 audioService))) ! 2)) =
     [SetValueAtTime (0.5 * 0.5) 0] \<and>
   ToModGain 2 \<in> set (srcOut (envSource (last (voices (playNote ''C4'' mixedRoutes 0.4 0.5 audioService)))))"
proof -
  have h1: "ctx audioService = Some runningContext" by (rule audioService_fields)
  have h2: "mainGain audioService \<noteq> None" by (rule audioService_fields)
  have h3: "FREQUENCIES (shiftNote ''C4'' (octave mixedRoutes)) = Some (440 * 2 powr (- 9 / 12))"
    by (simp add: mixedRoutes_def INITIAL_SETTINGS_def shiftNote_C4 FREQUENCIES_C4)
  have h4: "\<not> (monoMode mixedRoutes \<and> activeOscillators audioService \<noteq> [])"
    by (simp add: audioService_fields)
  have w: "wiredRoutes mixedRoutes =
     [\<lparr>source = LFO, destination = Cutoff, amount = 0.2\<rparr>,
      \<lparr>source = Gesture_L_H, destination = Pitch, amount = 1\<rparr>,
      \<lparr>source = ENV, destination = Gain, amount = 0.5\<rparr>]"
    by (simp add: wiredRoutes_def mixedRoutes_def INITIAL_SETTINGS_def)
  have t: "currentTime runningContext = 0" by (simp add: runningContext_def)
  show ?thesis
    using h1 h2 h3 h4 playNote_wires_modulation[OF h1 h2 h3 h4 refl refl, of "0.4" "0.5"]
    by (simp add: w t isGestureSource_def All_less_Suc eval_nat_numeral)
qed

lemma mixedRoutes_fields:
  "octave mixedRoutes = 0" "\<not> monoMode mixedRoutes"
  "modMatrix mixedRoutes =
     [\<lparr>source = LFO, destination = Cutoff, amount = 0.2\<rparr>,
      \<lparr>source = Gesture_Dist, destination = Reverb, amount = 1\<rparr>,
      \<lparr>source = Gesture_L_H, destination = Pitch, amount = 1\<rparr>,
      \<lparr>source = ENV, destination = Gain, amount = 0.5\<rparr>]"
  "wiredRoutes mixedRoutes =
     [\<lparr>source = LFO, destination = Cutoff, amount = 0.2\<rparr>,
      \<lparr>source = Gesture_L_H, destination = Pitch, amount = 1\<rparr>,
      \<lparr>source = ENV, destination = Gain, amount = 0.5\<rparr>]"
  by (simp_all add: wiredRoutes_def mixedRoutes_def INITIAL_SETTINGS_def)

lemma mixedC4_create:
  "playNote ''C4'' mixedRoutes 0.4 0.5 audioService =
     playNote_create ''C4'' mixedRoutes 0.4 0.5 (440 * 2 powr (- 9 / 12))
       (440 * 2 powr (- 9 / 12)) 0 audioService"
proof -
  have f: "FREQUENCIES (shiftNote ''C4'' (octave mixedRoutes)) = Some (440 * 2 powr (- 9 / 12))"
    by (simp add: mixedRoutes_fields shiftNote_C4 FREQUENCIES_C4)
  show ?thesis
    by (simp add: playNote_known[OF audioService_fields(1,2) f] mixedRoutes_fields resume_audioService
          runningContext_def audioService_fields)
qed

text \<open>
  The claim as stated fails: the third route of this matrix has a gesture source and the
  destination Pitch, and the voice created under it holds the route's gain node, set to
  1 * 800 and connected to the frequency of the first oscillator.
\<close>

theorem gesture_route_is_wired_counterexample:
  "modMatrix mixedRoutes ! 2 = \<lparr>source = Gesture_L_H, destination = Pitch, amount = 1\<rparr> \<and>
   isGestureSource Gesture_L_H \<and>
   voices (playNote ''C4'' mixedRoutes 0.4 0.5 audioService) \<noteq> [] \<and>
   length (modGains (last (voices (playNote ''C4'' mixedRoutes 0.4 0.5 audioService)))) = 4 \<and>
   gainOut (modGains (last (voices (playNote ''C4'' mixedRoutes 0.4 0.5 audioService))) ! 1) =
     [ToParam Osc1Frequency] \<and>
   events (gainParam (modGains (last (voices (playNote ''C4'' mixedRoutes 0.4 0.5 audioService))) ! 1)) =
     [SetValueAtTime (1 * 800) 0]"
proof -
  have v: "voices (playNote ''C4'' mixedRoutes 0.4 0.5 audioService) \<noteq> []"
    using playNote_create_frame(5)[of "''C4''" mixedRoutes "0.4" "0.5" "440 * 2 powr (- 9 / 12)"
            "440 * 2 powr (- 9 / 12)" 0 audioService]
    unfolding mixedC4_create by auto
  show ?thesis
    using v unfolding mixedC4_create playNote_create_entry
    by (simp add: mixedRoutes_fields isGestureSource_def routeGain_def createGain_def newParam_def
          setValueAtTime_def eval_nat_numeral)
qed

section \<open>Release and teardown\<close>

lemma setTimeout_fields:
  "fst (setTimeout cb ms s) = nextTimerId s"
  "timers (snd (setTimeout cb ms s)) =
     timers s @ [\<lparr>timerId = nextTimerId s, fireAt = clock s + max 0 ms, action = cb\<rparr>]"
  "nextTimerId (snd (setTimeout cb ms s)) = Suc (nextTimerId s)"
  "ctx (snd (setTimeout cb ms s)) = ctx s"
  "mainGain (snd (setTimeout cb ms s)) = mainGain s"
  "delayNode (snd (setTimeout cb ms s)) = delayNode s"
  "delayFeedbackNode (snd (setTimeout cb ms s)) = delayFeedbackNode s"
  "activeOscillators (snd (setTimeout cb ms s)) = activeOscillators s"
  "voices (snd (setTimeout cb ms s)) = voices s"
  "arpTimer (snd (setTimeout cb ms s)) = arpTimer s"
  "activeNotesForArp (snd (setTimeout cb ms s)) = activeNotesForArp s"
  "currentArpIndex (snd (setTimeout cb ms s)) = currentArpIndex s"
  "currentPitchBend (snd (setTimeout cb ms s)) = currentPitchBend s"
  "lastFrequency (snd (setTimeout cb ms s)) = lastFrequency s"
  "currentSustain (snd (setTimeout cb ms s)) = currentSustain s"
  "clock (snd (setTimeout cb ms s)) = clock s"
  "hasWindow (snd (setTimeout cb ms s)) = hasWindow s"
  by (simp_all add: setTimeout_def)

lemma stopNote_absent: "map_of (activeOscillators s) k = None \<Longrightarrow> stopNote k st immediate s = s"
  by (simp add: stopNote_def)

lemma stopNote_sustained:
  "ctx s = Some c \<Longrightarrow> map_of (activeOscillators s) k = Some r \<Longrightarrow> currentSustain s \<Longrightarrow>
   stopNote k st False s = s\<lparr>voices := (voices s)[r := (voices s ! r)\<lparr>released := True\<rparr>]\<rparr>"
  by (simp add: stopNote_def)

lemma stopNote_release:
  assumes "ctx s = Some c" and "map_of (activeOscillators s) k = Some r"
    and "\<not> (currentSustain s \<and> \<not> immediate)"
  shows "stopNote k st immediate s =
     snd (setTimeout (Teardown k r) (((if immediate then 0.01 else release st) + 0.2) * 1000)
       (s\<lparr>voices := (voices s)[r := releaseEntry (currentTime c) (if immediate then 0.01 else release st) (voices s ! r)]\<rparr>))"
  using assms by (auto simp: stopNote_def Let_def)

lemma stopNote_frame:
  "ctx (stopNote k st immediate s) = ctx s"
  "mainGain (stopNote k st immediate s) = mainGain s"
  "delayNode (stopNote k st immediate s) = delayNode s"
  "delayFeedbackNode (stopNote k st immediate s) = delayFeedbackNode s"
  "activeOscillators (stopNote k st immediate s) = activeOscillators s"
  "length (voices (stopNote k st immediate s)) = length (voices s)"
  "arpTimer (stopNote k st immediate s) = arpTimer s"
  "activeNotesForArp (stopNote k st immediate s) = activeNotesForArp s"
  "currentArpIndex (stopNote k st immediate s) = currentArpIndex s"
  "currentPitchBend (stopNote k st immediate s) = currentPitchBend s"
  "lastFrequency (stopNote k st immediate s) = lastFrequency s"
  "currentSustain (stopNote k st immediate s) = currentSustain s"
  "clock (stopNote k st immediate s) = clock s"
  "hasWindow (stopNote k st immediate s) = hasWindow s"
  by (simp_all add: stopNote_def setTimeout_def Let_def split: option.splits)

lemma releaseRamp_events:
  "events (releaseRamp now rt p) =
     filter (\<lambda>e. eventTime e < now) (events p) @
       [SetValueAtTime (pvalue p) now, ExponentialRampToValueAtTime 0.001 (now + rt)]"
  by (simp add: releaseRamp_def Let_def cancelScheduledValues_def setValueAtTime_def
        exponentialRampToValueAtTime_def)

lemma releaseEntry_fields:
  "events (gainParam (gain (releaseEntry now rt e))) = events (releaseRamp now rt (gainParam (gain e)))"
  "events (offset (envSource (releaseEntry now rt e))) = events (releaseRamp now rt (offset (envSource e)))"
  "oscStop (osc1 (releaseEntry now rt e)) = Some (now + rt + 0.1)"
  "oscStop (osc2 (releaseEntry now rt e)) = Some (now + rt + 0.1)"
  "oscStop (lfo (releaseEntry now rt e)) = Some (now + rt + 0.1)"
  "srcStop (envSource (releaseEntry now rt e)) = Some (now + rt + 0.1)"
  "srcStop (slideSource (releaseEntry now rt e)) = Some (now + rt + 0.1)"
  "oscOut (osc1 (releaseEntry now rt e)) = oscOut (osc1 e)"
  "oscOut (osc2 (releaseEntry now rt e)) = oscOut (osc2 e)"
  "gainOut (gain (releaseEntry now rt e)) = gainOut (gain e)"
  "frequency (osc1 (releaseEntry now rt e)) = frequency (osc1 e)"
  "frequency (osc2 (releaseEntry now rt e)) = frequency (osc2 e)"
  "baseFreq (releaseEntry now rt e) = baseFreq e"
  "released (releaseEntry now rt e) = released e"
  "modGains (releaseEntry now rt e) = modGains e"
  "filterNode (releaseEntry now rt e) = filterNode e"
  by (simp_all add: releaseEntry_def Let_def)

lemma teardown_fields:
  "voices (teardown k r u) = (voices u)[r := disconnectEntry (voices u ! r)]"
  "activeOscillators (teardown k r u) =
     (if map_of (activeOscillators u) k = Some r then AList.delete k (activeOscillators u)
      else activeOscillators u)"
  "ctx (teardown k r u) = ctx u"
  "mainGain (teardown k r u) = mainGain u"
  "delayNode (teardown k r u) = delayNode u"
  "delayFeedbackNode (teardown k r u) = delayFeedbackNode u"
  "arpTimer (teardown k r u) = arpTimer u"
  "activeNotesForArp (teardown k r u) = activeNotesForArp u"
  "currentArpIndex (teardown k r u) = currentArpIndex u"
  "currentPitchBend (teardown k r u) = currentPitchBend u"
  "lastFrequency (teardown k r u) = lastFrequency u"
  "currentSustain (teardown k r u) = currentSustain u"
  "timers (teardown k r u) = timers u"
  "nextTimerId (teardown k r u) = nextTimerId u"
  "clock (teardown k r u) = clock u"
  "hasWindow (teardown k r u) = hasWindow u"
  by (simp_all add: teardown_def Let_def)

lemma retargetEntry_fields:
  "events (frequency (osc1 (retargetEntry st f tf now e))) =
     filter (\<lambda>ev. eventTime ev < now) (events (frequency (osc1 e))) @
       [if glide st > 0 then ExponentialRampToValueAtTime tf (now + glide st) else SetValueAtTime tf now]"
  "events (frequency (osc2 (retargetEntry st f tf now e))) =
     filter (\<lambda>ev. eventTime ev < now) (events (frequency (osc2 e))) @
       [if glide st > 0 then ExponentialRampToValueAtTime tf (now + glide st) else SetValueAtTime tf now]"
  "baseFreq (retargetEntry st f tf now e) = f"
  "released (retargetEntry st f tf now e) = False"
  "gain (retargetEntry st f tf now e) = gain e"
  "envSource (retargetEntry st f tf now e) = envSource e"
  "slideSource (retargetEntry st f tf now e) = slideSource e"
  "filterNode (retargetEntry st f tf now e) = filterNode e"
  "lfo (retargetEntry st f tf now e) = lfo e"
  "modGains (retargetEntry st f tf now e) = modGains e"
  "oscOut (osc1 (retargetEntry st f tf now e)) = oscOut (osc1 e)"
  "oscOut (osc2 (retargetEntry st f tf now e)) = oscOut (osc2 e)"
  "oscStop (osc1 (retargetEntry st f tf now e)) = oscStop (osc1 e)"
  "oscStop (osc2 (retargetEntry st f tf now e)) = oscStop (osc2 e)"
  by (simp_all add: retargetEntry_def Let_def cancelScheduledValues_def setValueAtTime_def
        exponentialRampToValueAtTime_def)

lemma playNote_retarget_result:
  assumes "activeOscillators s = (k0, r) # rest" and "ctx s = Some c" and "r < length (voices s)"
  shows "voices (playNote_retarget k st sl f tf now s) =
           (voices s)[r := slideSource_update (offset_update (setTargetAtTime sl (currentTime c) 0.01))
                            (retargetEntry st f tf now (voices s ! r))]"
    and "activeOscillators (playNote_retarget k st sl f tf now s) =
           (if k0 \<noteq> k then AList.update k r (AList.delete k0 (activeOscillators s))
            else activeOscillators s)"
    and "lastFrequency (playNote_retarget k st sl f tf now s) = Some tf"
    and "map_of (activeOscillators (playNote_retarget k st sl f tf now s)) k = Some r"
  using assms
  by (auto simp: playNote_retarget_def updateNoteSlide_def Let_def update_conv')

subsection \<open>Mono mode on the concrete engine\<close>

lemma monoSettings_fields:
  "monoMode monoSettings" "octave monoSettings = 0" "release monoSettings = 0.5"
  "glide monoSettings = 0.1" "arpRate monoSettings = 120"
  by (simp_all add: monoSettings_def INITIAL_SETTINGS_def)

lemma monoC4_create:
  "monoC4 =
     playNote_create ''C4'' monoSettings 0.4 0.5 (440 * 2 powr (- 9 / 12))
       (440 * 2 powr (- 9 / 12)) 0 audioService"
proof -
  have f: "FREQUENCIES (shiftNote ''C4'' (octave monoSettings)) = Some (440 * 2 powr (- 9 / 12))"
    by (simp add: monoSettings_fields shiftNote_C4 FREQUENCIES_C4)
  show ?thesis
    unfolding monoC4_def
    by (simp add: playNote_known[OF audioService_fields(1,2) f] audioService_fields
          resume_audioService runningContext_def)
qed

lemma monoC4_fields:
  "ctx monoC4 = Some runningContext"
  "mainGain monoC4 \<noteq> None"
  "activeOscillators monoC4 = [(''C4'', 0)]"
  "length (voices monoC4) = 1"
  "currentSustain monoC4 = False"
  "timers monoC4 = []"
  "nextTimerId monoC4 = 1"
  "clock monoC4 = 0"
  "currentPitchBend monoC4 = 0"
  unfolding monoC4_create playNote_create_frame
  by (simp_all add: audioService_fields)

lemma monoC4_voice: "oscOut (osc1 (voices monoC4 ! 0)) = [ToFilter]"
proof -
  have "voices monoC4 ! 0 = last (voices monoC4)"
    using monoC4_fields(4) by (cases "voices monoC4") (simp_all add: last_conv_nth)
  then show ?thesis by (simp add: monoC4_create playNote_create_entry)
qed

lemma monoC4released_eq:
  "monoC4released =
     snd (setTimeout (Teardown ''C4'' 0) ((0.5 + 0.2) * 1000)
       (monoC4\<lparr>voices := (voices monoC4)[0 := releaseEntry 0 0.5 (voices monoC4 ! 0)]\<rparr>))"
  unfolding monoC4released_def
  using stopNote_release[OF monoC4_fields(1), of "''C4''" 0 False monoSettings]
  by (simp add: monoC4_fields monoSettings_fields runningContext_def)

lemma monoC4released_fields:
  "ctx monoC4released = Some runningContext"
  "mainGain monoC4released \<noteq> None"
  "activeOscillators monoC4released = [(''C4'', 0)]"
  "length (voices monoC4released) = 1"
  "timers monoC4released = [\<lparr>timerId = 1, fireAt = 700, action = Teardown ''C4'' 0\<rparr>]"
  "nextTimerId monoC4released = 2"
  "clock monoC4released = 0"
  "voices monoC4released ! 0 = releaseEntry 0 0.5 (voices monoC4 ! 0)"
  "currentPitchBend monoC4released = 0"
  unfolding monoC4released_eq setTimeout_fields
  by (simp_all add: monoC4_fields)

lemma monoE4retargeted_eq:
  "monoE4retargeted =
     playNote_retarget ''E4'' monoSettings 0.5 (440 * 2 powr (- 5 / 12))
       (440 * 2 powr (- 5 / 12)) 0 monoC4released"
proof -
  have f: "FREQUENCIES (shiftNote ''E4'' (octave monoSettings)) = Some (440 * 2 powr (- 5 / 12))"
    by (simp add: monoSettings_fields shiftNote_E4 FREQUENCIES_E4)
  have r: "resumeIfSuspended monoC4released = monoC4released"
    by (rule resumeIfSuspended_running[OF monoC4released_fields(1)]) (simp add: runningContext_def)
  show ?thesis
    unfolding monoE4retargeted_def
    by (simp add: playNote_known[OF monoC4released_fields(1,2) f] monoC4released_fields
          monoSettings_fields r runningContext_def)
qed

lemma monoE4retargeted_fields:
  "activeOscillators monoE4retargeted = [(''E4'', 0)]"
  "voices monoE4retargeted =
     (voices monoC4released)
       [0 := slideSource_update (offset_update (setTargetAtTime 0.5 (currentTime runningContext) 0.01))
               (retargetEntry monoSettings (440 * 2 powr (- 5 / 12))
                  (440 * 2 powr (- 5 / 12)) 0 (voices monoC4released ! 0))]"
  "timers monoE4retargeted = [\<lparr>timerId = 1, fireAt = 700, action = Teardown ''C4'' 0\<rparr>]"
  "clock monoE4retargeted = 0"
  "ctx monoE4retargeted = Some runningContext"
  "length (voices monoE4retargeted) = 1"
  unfolding monoE4retargeted_eq
  using playNote_retarget_result[OF monoC4released_fields(3) monoC4released_fields(1), of "''E4''" monoSettings
          "0.5" "440 * 2 powr (- 5 / 12)" "440 * 2 powr (- 5 / 12)" 0]
  by (simp_all add: monoC4released_fields playNote_retarget_frame)

text \<open>
  C3, as the code has it. When \<open>stopNote\<close> releases a voice (sustain off, or
  \<open>immediate\<close>), the gain and the envelope source drop what is scheduled from now on,
  hold the value the substrate reports and ramp exponentially to 0.001 over the release
  time (0.01 s when immediate); the sources are stopped 0.1 s after that; the voice stays
  in the map; and one timeout is set, (release time + 0.2) * 1000 ms ahead, for the
  teardown. The teardown, whenever it runs, disconnects the nodes of the entry it was
  scheduled for, whatever the map holds by then; only the removal of the map entry is
  guarded: it happens exactly when the map still has this entry under this key.
\<close>

theorem stopNote_releases_and_schedules_teardown:
  assumes "ctx s = Some c" and "map_of (activeOscillators s) k = Some r" and "r < length (voices s)"
    and "\<not> (currentSustain s \<and> \<not> immediate)"
    and "rt = (if immediate then 0.01 else release st)"
    and "now = currentTime c"
    and "s' = stopNote k st immediate s"
  shows "events (gainParam (gain (voices s' ! r))) =
           filter (\<lambda>e. eventTime e < now) (events (gainParam (gain (voices s ! r)))) @
             [SetValueAtTime (pvalue (gainParam (gain (voices s ! r)))) now,
              ExponentialRampToValueAtTime 0.001 (now + rt)] \<and>
         events (offset (envSource (voices s' ! r))) =
           filter (\<lambda>e. eventTime e < now) (events (offset (envSource (voices s ! r)))) @
             [SetValueAtTime (pvalue (offset (envSource (voices s ! r)))) now,
              ExponentialRampToValueAtTime 0.001 (now + rt)] \<and>
         oscStop (osc1 (voices s' ! r)) = Some (now + rt + 0.1) \<and>
         oscStop (osc2 (voices s' ! r)) = Some (now + rt + 0.1) \<and>
         activeOscillators s' = activeOscillators s \<and>
         timers s' = timers s @
           [\<lparr>timerId = nextTimerId s, fireAt = clock s + max 0 ((rt + 0.2) * 1000), action = Teardown k r\<rparr>] \<and>
         runCallback (Teardown k r) u = Inr (teardown k r u) \<and>
         voices (teardown k r u) = (voices u)[r := disconnectEntry (voices u ! r)] \<and>
         activeOscillators (teardown k r u) =
           (if map_of (activeOscillators u) k = Some r then AList.delete k (activeOscillators u)
            else activeOscillators u) \<and>
         timers (teardown k r u) = timers u"
proof -
  have s': "s' = snd (setTimeout (Teardown k r) ((rt + 0.2) * 1000)
       (s\<lparr>voices := (voices s)[r := releaseEntry now rt (voices s ! r)]\<rparr>))"
    unfolding assms(5,6,7) using assms(1,2,4) by (rule stopNote_release)
  have v: "voices s' ! r = releaseEntry now rt (voices s ! r)"
    using assms(3) by (simp add: s' setTimeout_fields)
  show ?thesis
    by (simp add: v releaseEntry_fields releaseRamp_events teardown_fields runCallback_def)
      (simp add: s' setTimeout_fields)
qed

theorem stopNote_releases_and_schedules_teardown_witness:
  "ctx playingC4 = Some runningContext \<and>
   map_of (activeOscillators playingC4) ''C4'' = Some 0 \<and>
   0 < length (voices playingC4) \<and>
   \<not> currentSustain playingC4 \<and>
   events (gainParam (gain (voices (stopNote ''C4'' INITIAL_SETTINGS False playingC4) ! 0))) =
     filter (\<lambda>e. eventTime e < 0) (events (gainParam (gain (voices playingC4 ! 0)))) @
       [SetValueAtTime (pvalue (gainParam (gain (voices playingC4 ! 0)))) 0,
        ExponentialRampToValueAtTime 0.001 (0 + 0.5)] \<and>
   activeOscillators (stopNote ''C4'' INITIAL_SETTINGS False playingC4) = [(''C4'', 0)] \<and>
   timers (stopNote ''C4'' INITIAL_SETTINGS False playingC4) =
     [\<lparr>timerId = 1, fireAt = 700, action = Teardown ''C4'' 0\<rparr>] \<and>
   activeOscillators (teardown ''C4'' 0 (stopNote ''C4'' INITIAL_SETTINGS False playingC4)) = [] \<and>
   activeOscillators (teardown ''C4'' 0 monoE4retargeted) = [(''E4'', 0)]"
proof -
  have h1: "ctx playingC4 = Some runningContext" by (rule playingC4_fields)
  have h2: "map_of (activeOscillators playingC4) ''C4'' = Some 0" by (simp add: playingC4_fields)
  have h3: "0 < length (voices playingC4)" by (simp add: playingC4_fields)
  have h4: "\<not> (currentSustain playingC4 \<and> \<not> False)" by (simp add: playingC4_fields)
  have rel: "release INITIAL_SETTINGS = 0.5" by (simp add: INITIAL_SETTINGS_def)
  have t: "currentTime runningContext = 0" by (simp add: runningContext_def)
  note a = stopNote_releases_and_schedules_teardown[OF h1 h2 h3 h4 refl refl refl,
      of INITIAL_SETTINGS "stopNote ''C4'' INITIAL_SETTINGS False playingC4"]
  note b = stopNote_releases_and_schedules_teardown[OF h1 h2 h3 h4 refl refl refl,
      of INITIAL_SETTINGS monoE4retargeted]
  show ?thesis
    using h1 h2 h3 h4 a b
    by (simp add: rel t playingC4_fields monoE4retargeted_fields)
qed

text \<open>
  The claim as stated fails where it says that a stale teardown is a no-op. C4 is played
  in mono mode and released; E4 is played before the teardown fires, which retargets
  and renames the same entry. The map then has no entry for C4, the entry lives under
  E4, and the teardown scheduled for C4 still fires and disconnects its oscillators.
\<close>

theorem stale_teardown_counterexample:
  "map_of (activeOscillators monoE4retargeted) ''C4'' = None \<and>
   map_of (activeOscillators monoE4retargeted) ''E4'' = Some 0 \<and>
   timers monoE4retargeted = [\<lparr>timerId = 1, fireAt = 700, action = Teardown ''C4'' 0\<rparr>] \<and>
   fireNext monoE4retargeted =
     Some (Inr (teardown ''C4'' 0 (monoE4retargeted\<lparr>timers := [], clock := 700\<rparr>))) \<and>
   oscOut (osc1 (voices monoE4retargeted ! 0)) = [ToFilter] \<and>
   oscOut (osc1 (voices (teardown ''C4'' 0 (monoE4retargeted\<lparr>timers := [], clock := 700\<rparr>)) ! 0)) = [] \<and>
   map_of (activeOscillators (teardown ''C4'' 0 (monoE4retargeted\<lparr>timers := [], clock := 700\<rparr>))) ''E4'' = Some 0 \<and>
   teardown ''C4'' 0 (monoE4retargeted\<lparr>timers := [], clock := 700\<rparr>) \<noteq>
     monoE4retargeted\<lparr>timers := [], clock := 700\<rparr>"
proof -
  let ?u = "monoE4retargeted\<lparr>timers := [], clock := 700\<rparr>"
  have before: "oscOut (osc1 (voices monoE4retargeted ! 0)) = [ToFilter]"
    by (simp add: monoE4retargeted_fields monoC4released_fields retargetEntry_fields
          releaseEntry_fields monoC4_voice)
  have after: "oscOut (osc1 (voices (teardown ''C4'' 0 ?u) ! 0)) = []"
    by (simp add: teardown_fields monoE4retargeted_fields(6) disconnectEntry_def)
  have f: "fireNext monoE4retargeted = Some (Inr (teardown ''C4'' 0 ?u))"
    by (simp add: fireNext_def fire_def runCallback_def monoE4retargeted_fields)
  have ne: "teardown ''C4'' 0 ?u \<noteq> ?u"
  proof
    assume "teardown ''C4'' 0 ?u = ?u"
    then have "oscOut (osc1 (voices (teardown ''C4'' 0 ?u) ! 0)) = oscOut (osc1 (voices ?u ! 0))"
      by simp
    then show False using before after by simp
  qed
  show ?thesis
    using before after f ne
    by (simp add: monoE4retargeted_fields(1,3) teardown_fields)
qed

section \<open>Mono mode\<close>

lemma playNote_ctx_obtain:
  assumes "ctx s = Some c"
  obtains c1 where "ctx (playNote k st v sl s) = Some c1" and "currentTime c1 = currentTime c"
proof -
  from playNote_ctx[of k st v sl s] assms
  have "map_option currentTime (ctx (playNote k st v sl s)) = Some (currentTime c)" by simp
  then show thesis using that by (cases "ctx (playNote k st v sl s)") auto
qed

lemma playNote_mono_retargets:
  assumes "ctx s = Some c" and "mainGain s \<noteq> None" and "monoMode st"
    and "activeOscillators s = (k0, r) # rest" and "r < length (voices s)"
    and "FREQUENCIES (shiftNote k (octave st)) = Some f"
  shows "length (voices (playNote k st v sl s)) = length (voices s)"
    and "activeOscillators (playNote k st v sl s) =
           (if k0 \<noteq> k then AList.update k r (AList.delete k0 (activeOscillators s))
            else activeOscillators s)"
    and "map_of (activeOscillators (playNote k st v sl s)) k = Some r"
    and "voices (playNote k st v sl s) ! r =
           slideSource_update (offset_update (setTargetAtTime sl (currentTime c) 0.01))
             (retargetEntry st f (f * 2 powr (currentPitchBend s * 2 / 12)) (currentTime c) (voices s ! r))"
proof -
  let ?s1 = "resumeIfSuspended s"
  let ?tf = "f * 2 powr (currentPitchBend s * 2 / 12)"
  have p: "playNote k st v sl s = playNote_retarget k st sl f ?tf (currentTime c) ?s1"
    using playNote_known[OF assms(1,2,6), of v sl] assms(3,4) by (simp add: Let_def)
  obtain c1 where c1: "ctx ?s1 = Some c1" "currentTime c1 = currentTime c"
    using assms(1) by (cases "ctxState c = Suspended") (auto simp: resumeIfSuspended_def)
  have al: "activeOscillators ?s1 = (k0, r) # rest" by (simp add: resumeIfSuspended_frame assms(4))
  have len: "r < length (voices ?s1)" by (simp add: resumeIfSuspended_frame assms(5))
  note res = playNote_retarget_result[OF al c1(1) len, of k st sl f ?tf "currentTime c"]
  show "length (voices (playNote k st v sl s)) = length (voices s)"
    by (simp add: p playNote_retarget_frame resumeIfSuspended_frame)
  show "activeOscillators (playNote k st v sl s) =
           (if k0 \<noteq> k then AList.update k r (AList.delete k0 (activeOscillators s))
            else activeOscillators s)"
    unfolding p res by (simp add: resumeIfSuspended_frame)
  show "map_of (activeOscillators (playNote k st v sl s)) k = Some r"
    unfolding p by (rule res)
  show "voices (playNote k st v sl s) ! r =
           slideSource_update (offset_update (setTargetAtTime sl (currentTime c) 0.01))
             (retargetEntry st f ?tf (currentTime c) (voices s ! r))"
    unfolding p res using assms(5) by (simp add: resumeIfSuspended_frame c1)
qed

lemma playNote_creates:
  assumes "ctx s = Some c" and "mainGain s \<noteq> None"
    and "FREQUENCIES (shiftNote k (octave st)) = Some f"
    and "\<not> (monoMode st \<and> activeOscillators s \<noteq> [])"
  shows "length (voices (playNote k st v sl s)) = Suc (length (voices s))"
    and "activeOscillators (playNote k st v sl s) = AList.update k (length (voices s)) (activeOscillators s)"
    and "take (length (voices s)) (voices (playNote k st v sl s)) = voices s"
    and "lastFrequency (playNote k st v sl s) = Some (f * 2 powr (currentPitchBend s * 2 / 12))"
proof -
  have p: "playNote k st v sl s =
      playNote_create k st v sl f (f * 2 powr (currentPitchBend s * 2 / 12)) (currentTime c) (resumeIfSuspended s)"
    using playNote_known[OF assms(1,2,3), of v sl] assms(4) by (simp add: Let_def)
  show "length (voices (playNote k st v sl s)) = Suc (length (voices s))"
    and "activeOscillators (playNote k st v sl s) = AList.update k (length (voices s)) (activeOscillators s)"
    and "lastFrequency (playNote k st v sl s) = Some (f * 2 powr (currentPitchBend s * 2 / 12))"
    by (simp_all add: p playNote_create_frame resumeIfSuspended_frame getBentFrequency_def)
  show "take (length (voices s)) (voices (playNote k st v sl s)) = voices s"
    using playNote_create_frame(7)[of "resumeIfSuspended s" k st v sl f "f * 2 powr (currentPitchBend s * 2 / 12)" "currentTime c"]
    by (simp add: p resumeIfSuspended_frame)
qed

lemma length_alist_update: "length (AList.update k v al) \<le> Suc (length al)"
  by (induction al) auto

lemma length_alist_delete: "length (AList.delete k al) \<le> length al"
  by (simp add: AList.delete_eq)

lemma length_rename:
  "length (AList.update k r (AList.delete k0 ((k0, r0) # rest))) \<le> Suc (length rest)"
proof -
  have d: "AList.delete k0 ((k0, r0) # rest) = AList.delete k0 rest" by (simp add: AList.delete_eq)
  show ?thesis
    unfolding d
    using length_alist_update[of k r "AList.delete k0 rest"] length_alist_delete[of k0 rest]
    by linarith
qed

text \<open>
  C1. In mono mode a note-on with a known note while the map is not empty allocates no
  voice. The first entry of the map has the pending automation of both oscillator
  frequencies cancelled from now on and gets, on both, an exponential ramp over the
  glide time (a set at once when glide is not positive) to the table frequency of the
  shifted note times \<open>2 powr (bend * 2 / 12)\<close>; its key is renamed to the new note if that
  differs, its \<open>released\<close> flag is cleared, its amplitude automation is untouched. So for
  C4 then E4 on an engine with an empty map (octave shift 0) the map has one entry after
  each note-on, the same entry object, and the last automation of its oscillators
  targets the table frequency of E4, bent.
\<close>

theorem mono_noteOn_retargets:
  "(ctx s = Some c \<and> mainGain s \<noteq> None \<and> monoMode st \<and> activeOscillators s = (k0, r) # rest \<and>
    r < length (voices s) \<and> FREQUENCIES (shiftNote k (octave st)) = Some f \<longrightarrow>
      length (voices (playNote k st v sl s)) = length (voices s) \<and>
      length (activeOscillators (playNote k st v sl s)) \<le> length (activeOscillators s) \<and>
      activeOscillators (playNote k st v sl s) =
        (if k0 \<noteq> k then AList.update k r (AList.delete k0 (activeOscillators s))
         else activeOscillators s) \<and>
      map_of (activeOscillators (playNote k st v sl s)) k = Some r \<and>
      events (frequency (osc1 (voices (playNote k st v sl s) ! r))) =
        filter (\<lambda>e. eventTime e < currentTime c) (events (frequency (osc1 (voices s ! r)))) @
          [if glide st > 0
           then ExponentialRampToValueAtTime (f * 2 powr (currentPitchBend s * 2 / 12)) (currentTime c + glide st)
           else SetValueAtTime (f * 2 powr (currentPitchBend s * 2 / 12)) (currentTime c)] \<and>
      events (frequency (osc2 (voices (playNote k st v sl s) ! r))) =
        filter (\<lambda>e. eventTime e < currentTime c) (events (frequency (osc2 (voices s ! r)))) @
          [if glide st > 0
           then ExponentialRampToValueAtTime (f * 2 powr (currentPitchBend s * 2 / 12)) (currentTime c + glide st)
           else SetValueAtTime (f * 2 powr (currentPitchBend s * 2 / 12)) (currentTime c)] \<and>
      released (voices (playNote k st v sl s) ! r) = False \<and>
      baseFreq (voices (playNote k st v sl s) ! r) = f \<and>
      amplitude (voices (playNote k st v sl s) ! r) = amplitude (voices s ! r)) \<and>
   (ctx s0 = Some c0 \<and> mainGain s0 \<noteq> None \<and> activeOscillators s0 = [] \<and> monoMode st0 \<and>
    octave st0 = 0 \<and> FREQUENCIES ''E4'' = Some fE \<longrightarrow>
      activeOscillators (playNote ''C4'' st0 v1 sl1 s0) = [(''C4'', length (voices s0))] \<and>
      length (voices (playNote ''C4'' st0 v1 sl1 s0)) = Suc (length (voices s0)) \<and>
      activeOscillators (playNote ''E4'' st0 v2 sl2 (playNote ''C4'' st0 v1 sl1 s0)) =
        [(''E4'', length (voices s0))] \<and>
      length (voices (playNote ''E4'' st0 v2 sl2 (playNote ''C4'' st0 v1 sl1 s0))) = Suc (length (voices s0)) \<and>
      last (events (frequency (osc1
          (voices (playNote ''E4'' st0 v2 sl2 (playNote ''C4'' st0 v1 sl1 s0)) ! length (voices s0))))) =
        (if glide st0 > 0
         then ExponentialRampToValueAtTime (fE * 2 powr (currentPitchBend s0 * 2 / 12)) (currentTime c0 + glide st0)
         else SetValueAtTime (fE * 2 powr (currentPitchBend s0 * 2 / 12)) (currentTime c0)) \<and>
      last (events (frequency (osc2
          (voices (playNote ''E4'' st0 v2 sl2 (playNote ''C4'' st0 v1 sl1 s0)) ! length (voices s0))))) =
        (if glide st0 > 0
         then ExponentialRampToValueAtTime (fE * 2 powr (currentPitchBend s0 * 2 / 12)) (currentTime c0 + glide st0)
         else SetValueAtTime (fE * 2 powr (currentPitchBend s0 * 2 / 12)) (currentTime c0)))"
proof (intro conjI impI)
  assume a: "ctx s = Some c \<and> mainGain s \<noteq> None \<and> monoMode st \<and> activeOscillators s = (k0, r) # rest \<and>
    r < length (voices s) \<and> FREQUENCIES (shiftNote k (octave st)) = Some f"
  then have a1: "ctx s = Some c" and a2: "mainGain s \<noteq> None" and a3: "monoMode st"
    and a4: "activeOscillators s = (k0, r) # rest" and a5: "r < length (voices s)"
    and a6: "FREQUENCIES (shiftNote k (octave st)) = Some f" by simp_all
  note res = playNote_mono_retargets[OF a1 a2 a3 a4 a5 a6, of v sl]
  show "length (voices (playNote k st v sl s)) = length (voices s)" by (rule res)
  show "activeOscillators (playNote k st v sl s) =
        (if k0 \<noteq> k then AList.update k r (AList.delete k0 (activeOscillators s))
         else activeOscillators s)" by (rule res)
  then show "length (activeOscillators (playNote k st v sl s)) \<le> length (activeOscillators s)"
    using length_rename[of k r k0 r rest] by (simp add: a4)
  show "map_of (activeOscillators (playNote k st v sl s)) k = Some r" by (rule res)
  show "events (frequency (osc1 (voices (playNote k st v sl s) ! r))) =
        filter (\<lambda>e. eventTime e < currentTime c) (events (frequency (osc1 (voices s ! r)))) @
          [if glide st > 0
           then ExponentialRampToValueAtTime (f * 2 powr (currentPitchBend s * 2 / 12)) (currentTime c + glide st)
           else SetValueAtTime (f * 2 powr (currentPitchBend s * 2 / 12)) (currentTime c)]"
    unfolding res by (simp add: retargetEntry_fields)
  show "events (frequency (osc2 (voices (playNote k st v sl s) ! r))) =
        filter (\<lambda>e. eventTime e < currentTime c) (events (frequency (osc2 (voices s ! r)))) @
          [if glide st > 0
           then ExponentialRampToValueAtTime (f * 2 powr (currentPitchBend s * 2 / 12)) (currentTime c + glide st)
           else SetValueAtTime (f * 2 powr (currentPitchBend s * 2 / 12)) (currentTime c)]"
    unfolding res by (simp add: retargetEntry_fields)
  show "released (voices (playNote k st v sl s) ! r) = False"
    unfolding res by (simp add: retargetEntry_fields)
  show "baseFreq (voices (playNote k st v sl s) ! r) = f"
    unfolding res by (simp add: retargetEntry_fields)
  show "amplitude (voices (playNote k st v sl s) ! r) = amplitude (voices s ! r)"
    unfolding res by (simp add: amplitude_def retargetEntry_fields)
next
  assume b: "ctx s0 = Some c0 \<and> mainGain s0 \<noteq> None \<and> activeOscillators s0 = [] \<and> monoMode st0 \<and>
    octave st0 = 0 \<and> FREQUENCIES ''E4'' = Some fE"
  then have b1: "ctx s0 = Some c0" and b2: "mainGain s0 \<noteq> None" and b3: "activeOscillators s0 = []"
    and b4: "monoMode st0" and b5: "octave st0 = 0" and b6: "FREQUENCIES ''E4'' = Some fE" by simp_all
  let ?s1 = "playNote ''C4'' st0 v1 sl1 s0"
  let ?s2 = "playNote ''E4'' st0 v2 sl2 ?s1"
  let ?n = "length (voices s0)"
  have fc: "FREQUENCIES (shiftNote ''C4'' (octave st0)) = Some (440 * 2 powr (- 9 / 12))"
    by (simp add: b5 shiftNote_C4 FREQUENCIES_C4)
  have fe: "FREQUENCIES (shiftNote ''E4'' (octave st0)) = Some fE"
    by (simp add: b5 shiftNote_E4 b6)
  have nm: "\<not> (monoMode st0 \<and> activeOscillators s0 \<noteq> [])" by (simp add: b3)
  note cr = playNote_creates[OF b1 b2 fc nm, of v1 sl1]
  show m1: "activeOscillators ?s1 = [(''C4'', ?n)]" unfolding cr by (simp add: b3)
  show l1: "length (voices ?s1) = Suc ?n" by (rule cr)
  obtain c1 where c1: "ctx ?s1 = Some c1" "currentTime c1 = currentTime c0"
    using b1 by (rule playNote_ctx_obtain)
  have g1: "mainGain ?s1 \<noteq> None" by (simp add: playNote_frame b2)
  have r1: "?n < length (voices ?s1)" by (simp add: l1)
  have pb: "currentPitchBend ?s1 = currentPitchBend s0" by (simp add: playNote_frame)
  note rt = playNote_mono_retargets[OF c1(1) g1 b4 m1 r1 fe, of v2 sl2]
  show "activeOscillators ?s2 = [(''E4'', ?n)]" unfolding rt by (simp add: m1)
  show "length (voices ?s2) = Suc ?n" unfolding rt by (rule l1)
  show "last (events (frequency (osc1 (voices ?s2 ! ?n)))) =
        (if glide st0 > 0
         then ExponentialRampToValueAtTime (fE * 2 powr (currentPitchBend s0 * 2 / 12)) (currentTime c0 + glide st0)
         else SetValueAtTime (fE * 2 powr (currentPitchBend s0 * 2 / 12)) (currentTime c0))"
    unfolding rt by (simp add: retargetEntry_fields c1 pb)
  show "last (events (frequency (osc2 (voices ?s2 ! ?n)))) =
        (if glide st0 > 0
         then ExponentialRampToValueAtTime (fE * 2 powr (currentPitchBend s0 * 2 / 12)) (currentTime c0 + glide st0)
         else SetValueAtTime (fE * 2 powr (currentPitchBend s0 * 2 / 12)) (currentTime c0))"
    unfolding rt by (simp add: retargetEntry_fields c1 pb)
qed

theorem mono_noteOn_retargets_witness:
  "ctx monoC4 = Some runningContext \<and> mainGain monoC4 \<noteq> None \<and> monoMode monoSettings \<and>
   activeOscillators monoC4 = [(''C4'', 0)] \<and> 0 < length (voices monoC4) \<and>
   FREQUENCIES (shiftNote ''E4'' (octave monoSettings)) = Some (440 * 2 powr (- 5 / 12)) \<and>
   length (voices (playNote ''E4'' monoSettings 0.4 0.5 monoC4)) = length (voices monoC4) \<and>
   activeOscillators (playNote ''E4'' monoSettings 0.4 0.5 monoC4) = [(''E4'', 0)] \<and>
   released (voices (playNote ''E4'' monoSettings 0.4 0.5 monoC4) ! 0) = False \<and>
   baseFreq (voices (playNote ''E4'' monoSettings 0.4 0.5 monoC4) ! 0) = 440 * 2 powr (- 5 / 12) \<and>
   ctx audioService = Some runningContext \<and> mainGain audioService \<noteq> None \<and>
   activeOscillators audioService = [] \<and> octave monoSettings = 0 \<and>
   FREQUENCIES ''E4'' = Some (440 * 2 powr (- 5 / 12)) \<and>
   activeOscillators (playNote ''C4'' monoSettings 0.4 0.5 audioService) = [(''C4'', 0)] \<and>
   activeOscillators (playNote ''E4'' monoSettings 0.4 0.5 (playNote ''C4'' monoSettings 0.4 0.5 audioService)) =
     [(''E4'', 0)] \<and>
   length (voices (playNote ''E4'' monoSettings 0.4 0.5 (playNote ''C4'' monoSettings 0.4 0.5 audioService))) = 1 \<and>
   last (events (frequency (osc1
       (voices (playNote ''E4'' monoSettings 0.4 0.5 (playNote ''C4'' monoSettings 0.4 0.5 audioService)) ! 0)))) =
     ExponentialRampToValueAtTime (440 * 2 powr (- 5 / 12)) 0.1"
proof -
  have h: "ctx monoC4 = Some runningContext \<and> mainGain monoC4 \<noteq> None \<and> monoMode monoSettings \<and>
     activeOscillators monoC4 = (''C4'', 0) # [] \<and> 0 < length (voices monoC4) \<and>
     FREQUENCIES (shiftNote ''E4'' (octave monoSettings)) = Some (440 * 2 powr (- 5 / 12))"
    by (simp add: monoC4_fields monoSettings_fields shiftNote_E4 FREQUENCIES_E4)
  have h0: "ctx audioService = Some runningContext \<and> mainGain audioService \<noteq> None \<and>
     activeOscillators audioService = [] \<and> monoMode monoSettings \<and> octave monoSettings = 0 \<and>
     FREQUENCIES ''E4'' = Some (440 * 2 powr (- 5 / 12))"
    by (simp add: audioService_fields monoSettings_fields FREQUENCIES_E4)
  have t: "currentTime runningContext = 0" by (simp add: runningContext_def)
  note inst = mono_noteOn_retargets[where s = monoC4 and c = runningContext and st = monoSettings
      and ?k0.0 = "''C4''" and r = 0 and rest = "[]" and k = "''E4''" and f = "440 * 2 powr (- 5 / 12)"
      and v = "0.4" and sl = "0.5" and ?s0.0 = audioService and ?c0.0 = runningContext
      and ?st0.0 = monoSettings and fE = "440 * 2 powr (- 5 / 12)" and ?v1.0 = "0.4" and ?sl1.0 = "0.5"
      and ?v2.0 = "0.4" and ?sl2.0 = "0.5"]
  from inst h have g: "length (voices (playNote ''E4'' monoSettings 0.4 0.5 monoC4)) = length (voices monoC4) \<and>
      activeOscillators (playNote ''E4'' monoSettings 0.4 0.5 monoC4) =
        AList.update ''E4'' 0 (AList.delete ''C4'' (activeOscillators monoC4)) \<and>
      released (voices (playNote ''E4'' monoSettings 0.4 0.5 monoC4) ! 0) = False \<and>
      baseFreq (voices (playNote ''E4'' monoSettings 0.4 0.5 monoC4) ! 0) = 440 * 2 powr (- 5 / 12)"
    by simp
  from inst h0 have e: "activeOscillators (playNote ''C4'' monoSettings 0.4 0.5 audioService) =
        [(''C4'', length (voices audioService))] \<and>
      activeOscillators (playNote ''E4'' monoSettings 0.4 0.5 (playNote ''C4'' monoSettings 0.4 0.5 audioService)) =
        [(''E4'', length (voices audioService))] \<and>
      length (voices (playNote ''E4'' monoSettings 0.4 0.5 (playNote ''C4'' monoSettings 0.4 0.5 audioService))) =
        Suc (length (voices audioService)) \<and>
      last (events (frequency (osc1
          (voices (playNote ''E4'' monoSettings 0.4 0.5 (playNote ''C4'' monoSettings 0.4 0.5 audioService)) !
             length (voices audioService))))) =
        (if glide monoSettings > 0
         then ExponentialRampToValueAtTime (440 * 2 powr (- 5 / 12) * 2 powr (currentPitchBend audioService * 2 / 12))
                (currentTime runningContext + glide monoSettings)
         else SetValueAtTime (440 * 2 powr (- 5 / 12) * 2 powr (currentPitchBend audioService * 2 / 12))
                (currentTime runningContext))"
    by simp
  show ?thesis
    using h h0 g e
    by (simp add: monoC4_fields audioService_fields monoSettings_fields t)
qed

section \<open>The shape of every state of a run\<close>

lemma wellFormed_alt:
  "wellFormed s =
     (distinct (map fst (activeOscillators s)) \<and> distinct (map snd (activeOscillators s)) \<and>
      (\<forall>p \<in> set (activeOscillators s). snd p < length (voices s)) \<and>
      0 < nextTimerId s \<and> (hasWindow s \<longrightarrow> truthy (arpTimer s) \<or> currentArpIndex s = 0))"
  by (auto simp: wellFormed_def list_all_iff)

lemma wellFormed_frame:
  assumes "wellFormed s" and "activeOscillators s' = activeOscillators s"
    and "length (voices s') = length (voices s)" and "nextTimerId s \<le> nextTimerId s'"
    and "arpTimer s' = arpTimer s" and "currentArpIndex s' = currentArpIndex s"
    and "hasWindow s' = hasWindow s"
  shows "wellFormed s'"
  using assms by (auto simp: wellFormed_alt)

lemma snd_alist_update: "snd ` set (AList.update k v al) \<subseteq> insert v (snd ` set al)"
  by (induction al) auto

lemma distinct_snd_alist_update:
  "distinct (map snd al) \<Longrightarrow> v \<notin> snd ` set al \<Longrightarrow> distinct (map snd (AList.update k v al))"
proof (induction al)
  case Nil
  then show ?case by simp
next
  case (Cons p al)
  then show ?case using snd_alist_update[of k v al] by (auto simp: image_iff) 
qed

lemma snd_alist_delete: "snd ` set (AList.delete k al) \<subseteq> snd ` set al"
  by (auto simp: AList.delete_eq)

lemma distinct_snd_alist_delete: "distinct (map snd al) \<Longrightarrow> distinct (map snd (AList.delete k al))"
  by (simp add: AList.delete_eq distinct_map_filter)

lemma wellFormed_map_update:
  assumes "wellFormed s"
    and "activeOscillators s' = AList.update k (length (voices s)) (activeOscillators s)"
    and "length (voices s') = Suc (length (voices s))" and "nextTimerId s \<le> nextTimerId s'"
    and "arpTimer s' = arpTimer s" and "currentArpIndex s' = currentArpIndex s"
    and "hasWindow s' = hasWindow s"
  shows "wellFormed s'"
proof -
  from assms(1) have d1: "distinct (map fst (activeOscillators s))"
    and d2: "distinct (map snd (activeOscillators s))"
    and rg: "\<forall>p \<in> set (activeOscillators s). snd p < length (voices s)"
    by (simp_all add: wellFormed_alt)
  have fresh: "length (voices s) \<notin> snd ` set (activeOscillators s)" using rg by auto
  have "distinct (map fst (activeOscillators s'))" unfolding assms(2) using d1 by (rule distinct_update)
  moreover have "distinct (map snd (activeOscillators s'))"
    unfolding assms(2) using d2 fresh by (rule distinct_snd_alist_update)
  moreover have "\<forall>p \<in> set (activeOscillators s'). snd p < length (voices s')"
    unfolding assms(2,3) using snd_alist_update[of k "length (voices s)" "activeOscillators s"] rg
    by (fastforce simp: less_Suc_eq)
  ultimately show ?thesis using assms(1,4,5,6,7) by (auto simp: wellFormed_alt)
qed

lemma wellFormed_map_rename:
  assumes "wellFormed s" and "activeOscillators s = (k0, r) # rest"
    and "activeOscillators s' =
           (if k0 \<noteq> k then AList.update k r (AList.delete k0 (activeOscillators s)) else activeOscillators s)"
    and "length (voices s') = length (voices s)" and "nextTimerId s \<le> nextTimerId s'"
    and "arpTimer s' = arpTimer s" and "currentArpIndex s' = currentArpIndex s"
    and "hasWindow s' = hasWindow s"
  shows "wellFormed s'"
proof (cases "k0 = k")
  case True
  then show ?thesis using assms by (auto intro: wellFormed_frame)
next
  case False
  from assms(1,2) have d1: "distinct (map fst rest)" and n1: "k0 \<notin> fst ` set rest"
    and d2: "distinct (map snd rest)" and n2: "r \<notin> snd ` set rest"
    and rg: "\<forall>x \<in> snd ` set rest. x < length (voices s)" and r: "r < length (voices s)"
    by (auto simp: wellFormed_alt)
  have del: "AList.delete k0 (activeOscillators s) = rest"
    using n1 by (simp add: assms(2))
  have m: "activeOscillators s' = AList.update k r rest" using False by (simp add: assms(3) del)
  have "distinct (map fst (activeOscillators s'))" unfolding m using d1 by (rule distinct_update)
  moreover have "distinct (map snd (activeOscillators s'))"
    unfolding m using d2 n2 by (rule distinct_snd_alist_update)
  moreover have "\<forall>p \<in> set (activeOscillators s'). snd p < length (voices s')"
    unfolding m assms(4) using snd_alist_update[of k r rest] rg r by fastforce
  ultimately show ?thesis using assms(1,5,6,7,8) by (auto simp: wellFormed_alt)
qed

lemma wellFormed_resume: "wellFormed s \<Longrightarrow> wellFormed (resumeIfSuspended s)"
  by (erule wellFormed_frame) (simp_all add: resumeIfSuspended_frame)

lemma wellFormed_playNote: "wellFormed s \<Longrightarrow> wellFormed (playNote k st v sl s)"
proof -
  assume wf: "wellFormed s"
  show ?thesis
  proof (cases "ctx s = None \<or> mainGain s = None")
    case True
    then show ?thesis using wf by (simp add: playNote_uninitialised)
  next
    case False
    then obtain c where c: "ctx s = Some c" and g: "mainGain s \<noteq> None" by auto
    show ?thesis
    proof (cases "FREQUENCIES (shiftNote k (octave st))")
      case None
      have "wellFormed (playNote_notANumber st (currentTime c) (resumeIfSuspended s))"
        by (rule wellFormed_frame[OF wellFormed_resume[OF wf]]) (simp_all add: playNote_notANumber_frame)
      then show ?thesis
        using playNote_not_own[OF None c g, of v sl] wellFormed_resume[OF wf] by auto
    next
      case (Some f)
      show ?thesis
      proof (cases "monoMode st \<and> activeOscillators s \<noteq> []")
        case True
        then obtain k0 r rest where al: "activeOscillators s = (k0, r) # rest"
          by (cases "activeOscillators s") auto
        have r: "r < length (voices s)" using wf al by (auto simp: wellFormed_alt)
        from True have mono: "monoMode st" by simp
        note res = playNote_mono_retargets[OF c g mono al r Some, of v sl]
        show ?thesis
          by (rule wellFormed_map_rename[OF wf al res(2) res(1)]) (simp_all add: playNote_frame)
      next
        case False
        note res = playNote_creates[OF c g Some False, of v sl]
        show ?thesis
          by (rule wellFormed_map_update[OF wf res(2) res(1)]) (simp_all add: playNote_frame)
      qed
    qed
  qed
qed

lemma stopNote_nextTimerId: "nextTimerId s \<le> nextTimerId (stopNote k st immediate s)"
  by (simp add: stopNote_def setTimeout_def Let_def split: option.splits)

lemma wellFormed_stopNote: "wellFormed s \<Longrightarrow> wellFormed (stopNote k st immediate s)"
  by (erule wellFormed_frame) (simp_all add: stopNote_frame stopNote_nextTimerId)

lemma wellFormed_updateNoteSlide: "wellFormed s \<Longrightarrow> wellFormed (updateNoteSlide k sl s)"
  by (erule wellFormed_frame) (simp_all add: updateNoteSlide_frame)

lemma in_alist_delete: "(a, b) \<in> set (AList.delete k al) \<Longrightarrow> (a, b) \<in> set al"
  by (auto simp: AList.delete_eq)

lemma wellFormed_teardown: "wellFormed s \<Longrightarrow> wellFormed (teardown k r s)"
  by (auto simp: wellFormed_alt teardown_fields distinct_delete distinct_snd_alist_delete
        dest!: in_alist_delete)

lemma releaseHeld_fold_frame:
  fixes al :: "(string \<times> nat) list"
  shows "ctx (foldl (\<lambda>st' (k, r). if released (voices st' ! r) then stopNote k st False st' else st') s al) = ctx s"
    and "mainGain (foldl (\<lambda>st' (k, r). if released (voices st' ! r) then stopNote k st False st' else st') s al) = mainGain s"
    and "delayNode (foldl (\<lambda>st' (k, r). if released (voices st' ! r) then stopNote k st False st' else st') s al) = delayNode s"
    and "delayFeedbackNode (foldl (\<lambda>st' (k, r). if released (voices st' ! r) then stopNote k st False st' else st') s al) = delayFeedbackNode s"
    and "activeOscillators (foldl (\<lambda>st' (k, r). if released (voices st' ! r) then stopNote k st False st' else st') s al) = activeOscillators s"
    and "length (voices (foldl (\<lambda>st' (k, r). if released (voices st' ! r) then stopNote k st False st' else st') s al)) = length (voices s)"
    and "arpTimer (foldl (\<lambda>st' (k, r). if released (voices st' ! r) then stopNote k st False st' else st') s al) = arpTimer s"
    and "activeNotesForArp (foldl (\<lambda>st' (k, r). if released (voices st' ! r) then stopNote k st False st' else st') s al) = activeNotesForArp s"
    and "currentArpIndex (foldl (\<lambda>st' (k, r). if released (voices st' ! r) then stopNote k st False st' else st') s al) = currentArpIndex s"
    and "currentPitchBend (foldl (\<lambda>st' (k, r). if released (voices st' ! r) then stopNote k st False st' else st') s al) = currentPitchBend s"
    and "lastFrequency (foldl (\<lambda>st' (k, r). if released (voices st' ! r) then stopNote k st False st' else st') s al) = lastFrequency s"
    and "currentSustain (foldl (\<lambda>st' (k, r). if released (voices st' ! r) then stopNote k st False st' else st') s al) = currentSustain s"
    and "clock (foldl (\<lambda>st' (k, r). if released (voices st' ! r) then stopNote k st False st' else st') s al) = clock s"
    and "hasWindow (foldl (\<lambda>st' (k, r). if released (voices st' ! r) then stopNote k st False st' else st') s al) = hasWindow s"
  by (induction al arbitrary: s; simp add: stopNote_frame case_prod_beta)+

lemma releaseHeld_fold_nextTimerId:
  fixes al :: "(string \<times> nat) list"
  shows "nextTimerId s \<le> nextTimerId (foldl (\<lambda>st' (k, r). if released (voices st' ! r) then stopNote k st False st' else st') s al)"
proof (induction al arbitrary: s)
  case Nil
  then show ?case by simp
next
  case (Cons a al)
  obtain k r where a: "a = (k, r)" by (cases a)
  show ?case
    using Cons[of s] Cons[of "stopNote k st False s"] stopNote_nextTimerId[of s k st False]
    by (auto simp: a)
qed

lemma releaseHeld_frame:
  "ctx (releaseHeld st s) = ctx s"
  "mainGain (releaseHeld st s) = mainGain s"
  "delayNode (releaseHeld st s) = delayNode s"
  "delayFeedbackNode (releaseHeld st s) = delayFeedbackNode s"
  "activeOscillators (releaseHeld st s) = activeOscillators s"
  "length (voices (releaseHeld st s)) = length (voices s)"
  "arpTimer (releaseHeld st s) = arpTimer s"
  "activeNotesForArp (releaseHeld st s) = activeNotesForArp s"
  "currentArpIndex (releaseHeld st s) = currentArpIndex s"
  "currentPitchBend (releaseHeld st s) = currentPitchBend s"
  "lastFrequency (releaseHeld st s) = lastFrequency s"
  "currentSustain (releaseHeld st s) = currentSustain s"
  "clock (releaseHeld st s) = clock s"
  "nextTimerId s \<le> nextTimerId (releaseHeld st s)"
  "hasWindow (releaseHeld st s) = hasWindow s"
  unfolding releaseHeld_def
  by (simp_all add: releaseHeld_fold_frame releaseHeld_fold_nextTimerId)

lemma forEachEntry_frame:
  "ctx (forEachEntry f s) = ctx s"
  "mainGain (forEachEntry f s) = mainGain s"
  "delayNode (forEachEntry f s) = delayNode s"
  "delayFeedbackNode (forEachEntry f s) = delayFeedbackNode s"
  "activeOscillators (forEachEntry f s) = activeOscillators s"
  "length (voices (forEachEntry f s)) = length (voices s)"
  "arpTimer (forEachEntry f s) = arpTimer s"
  "activeNotesForArp (forEachEntry f s) = activeNotesForArp s"
  "currentArpIndex (forEachEntry f s) = currentArpIndex s"
  "currentPitchBend (forEachEntry f s) = currentPitchBend s"
  "lastFrequency (forEachEntry f s) = lastFrequency s"
  "currentSustain (forEachEntry f s) = currentSustain s"
  "timers (forEachEntry f s) = timers s"
  "nextTimerId (forEachEntry f s) = nextTimerId s"
  "clock (forEachEntry f s) = clock s"
  "hasWindow (forEachEntry f s) = hasWindow s"
  by (simp_all add: forEachEntry_alt foldl_update_length)

lemma updateGlobalParams_frame:
  "ctx (updateGlobalParams st s) = ctx s"
  "mainGain (updateGlobalParams st s) = mainGain s"
  "activeOscillators (updateGlobalParams st s) = activeOscillators s"
  "length (voices (updateGlobalParams st s)) = length (voices s)"
  "arpTimer (updateGlobalParams st s) = arpTimer s"
  "activeNotesForArp (updateGlobalParams st s) = activeNotesForArp s"
  "currentArpIndex (updateGlobalParams st s) = currentArpIndex s"
  "lastFrequency (updateGlobalParams st s) = lastFrequency s"
  "clock (updateGlobalParams st s) = clock s"
  "hasWindow (updateGlobalParams st s) = hasWindow s"
  by (simp_all add: updateGlobalParams_def Let_def setPitchBend_frame forEachEntry_frame
        releaseHeld_frame setPitchBend_alt foldl_update_length split: option.splits)

lemma updateGlobalParams_nextTimerId: "nextTimerId s \<le> nextTimerId (updateGlobalParams st s)"
  using releaseHeld_frame(14)[of "s\<lparr>currentSustain := False\<rparr>" st]
  by (simp add: updateGlobalParams_def Let_def setPitchBend_frame forEachEntry_frame
        split: option.splits)

lemma wellFormed_updateGlobalParams: "wellFormed s \<Longrightarrow> wellFormed (updateGlobalParams st s)"
  by (erule wellFormed_frame) (simp_all add: updateGlobalParams_frame updateGlobalParams_nextTimerId)


lemma clearTimeout_fields:
  "timers (clearTimeout i s) = filter (\<lambda>t. timerId t \<noteq> i) (timers s)"
  "ctx (clearTimeout i s) = ctx s"
  "mainGain (clearTimeout i s) = mainGain s"
  "activeOscillators (clearTimeout i s) = activeOscillators s"
  "voices (clearTimeout i s) = voices s"
  "arpTimer (clearTimeout i s) = arpTimer s"
  "activeNotesForArp (clearTimeout i s) = activeNotesForArp s"
  "currentArpIndex (clearTimeout i s) = currentArpIndex s"
  "currentPitchBend (clearTimeout i s) = currentPitchBend s"
  "lastFrequency (clearTimeout i s) = lastFrequency s"
  "currentSustain (clearTimeout i s) = currentSustain s"
  "nextTimerId (clearTimeout i s) = nextTimerId s"
  "clock (clearTimeout i s) = clock s"
  "hasWindow (clearTimeout i s) = hasWindow s"
  "delayNode (clearTimeout i s) = delayNode s"
  "delayFeedbackNode (clearTimeout i s) = delayFeedbackNode s"
  by (simp_all add: clearTimeout_def)

lemma stopArp_fields:
  "currentArpIndex (stopArp s) = 0"
  "timers (stopArp s) = (if truthy (arpTimer s) then filter (\<lambda>t. timerId t \<noteq> the (arpTimer s)) (timers s) else timers s)"
  "arpTimer (stopArp s) = (if truthy (arpTimer s) then None else arpTimer s)"
  "ctx (stopArp s) = ctx s"
  "mainGain (stopArp s) = mainGain s"
  "activeOscillators (stopArp s) = activeOscillators s"
  "voices (stopArp s) = voices s"
  "activeNotesForArp (stopArp s) = activeNotesForArp s"
  "currentPitchBend (stopArp s) = currentPitchBend s"
  "lastFrequency (stopArp s) = lastFrequency s"
  "currentSustain (stopArp s) = currentSustain s"
  "nextTimerId (stopArp s) = nextTimerId s"
  "clock (stopArp s) = clock s"
  "hasWindow (stopArp s) = hasWindow s"
  "delayNode (stopArp s) = delayNode s"
  "delayFeedbackNode (stopArp s) = delayFeedbackNode s"
  by (simp_all add: stopArp_def clearTimeout_fields Let_def)

lemma wellFormed_stopArp: "wellFormed s \<Longrightarrow> wellFormed (stopArp s)"
  by (simp add: wellFormed_alt stopArp_fields)

text \<open>What a tick that finds a note does, field by field.\<close>

lemma tick_empty: "activeNotesForArp s = [] \<Longrightarrow> tick st s = Inr (stopArp s)"
  by (simp add: tick_def)

lemma tick_raises:
  assumes "currentArpIndex s < length (activeNotesForArp s)"
    and "playNote_outcome (activeNotesForArp s ! currentArpIndex s) st 0.3 0.5 s = Inl (e, s1)"
  shows "tick st s = Inl (e, s1)"
  using assms by (auto simp: tick_def Let_def)

lemma tick_in_range:
  assumes "currentArpIndex s < length (activeNotesForArp s)"
    and "playNote_outcome (activeNotesForArp s ! currentArpIndex s) st 0.3 0.5 s =
           Inr (playNote (activeNotesForArp s ! currentArpIndex s) st 0.3 0.5 s)"
    and "hasWindow s"
  shows "\<exists>s'. tick st s = Inr s' \<and>
           voices s' = voices (playNote (activeNotesForArp s ! currentArpIndex s) st 0.3 0.5 s) \<and>
           activeOscillators s' = activeOscillators (playNote (activeNotesForArp s ! currentArpIndex s) st 0.3 0.5 s) \<and>
           lastFrequency s' = lastFrequency (playNote (activeNotesForArp s ! currentArpIndex s) st 0.3 0.5 s) \<and>
           ctx s' = ctx (playNote (activeNotesForArp s ! currentArpIndex s) st 0.3 0.5 s) \<and>
           mainGain s' = mainGain s \<and> currentSustain s' = currentSustain s \<and>
           currentPitchBend s' = currentPitchBend s \<and>
           activeNotesForArp s' = activeNotesForArp s \<and>
           clock s' = clock s \<and>
           timers s' = timers s @
             [\<lparr>timerId = nextTimerId s, fireAt = clock s + max 0 (60 / arpRate st * 0.8 * 1000),
               action = ArpNoteOff (Some (activeNotesForArp s ! currentArpIndex s)) st\<rparr>,
              \<lparr>timerId = Suc (nextTimerId s), fireAt = clock s + max 0 (60 / arpRate st * 1000),
               action = ArpTick st\<rparr>] \<and>
           nextTimerId s' = Suc (Suc (nextTimerId s)) \<and>
           currentArpIndex s' = Suc (currentArpIndex s) mod length (activeNotesForArp s) \<and>
           arpTimer s' = Some (Suc (nextTimerId s)) \<and> hasWindow s' \<and>
           delayNode s' = delayNode s \<and> delayFeedbackNode s' = delayFeedbackNode s"
  using assms
  by (auto simp: tick_def Let_def setTimeout_def playNote_frame split: prod.splits)

lemma tick_no_window:
  assumes "currentArpIndex s < length (activeNotesForArp s)"
    and "playNote_outcome (activeNotesForArp s ! currentArpIndex s) st 0.3 0.5 s =
           Inr (playNote (activeNotesForArp s ! currentArpIndex s) st 0.3 0.5 s)"
    and "\<not> hasWindow s"
  shows "\<exists>s'. tick st s = Inl (ReferenceError, s') \<and>
           voices s' = voices (playNote (activeNotesForArp s ! currentArpIndex s) st 0.3 0.5 s) \<and>
           activeOscillators s' = activeOscillators (playNote (activeNotesForArp s ! currentArpIndex s) st 0.3 0.5 s) \<and>
           ctx s' = ctx (playNote (activeNotesForArp s ! currentArpIndex s) st 0.3 0.5 s) \<and>
           mainGain s' = mainGain s \<and> currentSustain s' = currentSustain s \<and>
           currentPitchBend s' = currentPitchBend s \<and>
           activeNotesForArp s' = activeNotesForArp s \<and>
           clock s' = clock s \<and>
           timers s' = timers s @
             [\<lparr>timerId = nextTimerId s, fireAt = clock s + max 0 (60 / arpRate st * 0.8 * 1000),
               action = ArpNoteOff (Some (activeNotesForArp s ! currentArpIndex s)) st\<rparr>] \<and>
           nextTimerId s' = Suc (nextTimerId s) \<and>
           currentArpIndex s' = Suc (currentArpIndex s) mod length (activeNotesForArp s) \<and>
           arpTimer s' = arpTimer s \<and> \<not> hasWindow s' \<and>
           delayNode s' = delayNode s \<and> delayFeedbackNode s' = delayFeedbackNode s"
  using assms
  by (auto simp: tick_def Let_def setTimeout_def playNote_frame split: prod.splits)

lemma tick_out_of_range:
  assumes "activeNotesForArp s \<noteq> []" and "\<not> currentArpIndex s < length (activeNotesForArp s)"
  shows "tick st s =
     (if ctx s = None \<or> mainGain s = None
      then if hasWindow s
           then Inr (s\<lparr>timers := timers s @
                   [\<lparr>timerId = nextTimerId s, fireAt = clock s + max 0 (60 / arpRate st * 0.8 * 1000),
                     action = ArpNoteOff None st\<rparr>,
                    \<lparr>timerId = Suc (nextTimerId s), fireAt = clock s + max 0 (60 / arpRate st * 1000),
                     action = ArpTick st\<rparr>],
                 nextTimerId := Suc (Suc (nextTimerId s)),
                 currentArpIndex := Suc (currentArpIndex s) mod length (activeNotesForArp s),
                 arpTimer := Some (Suc (nextTimerId s))\<rparr>)
           else Inl (ReferenceError,
                  s\<lparr>timers := timers s @
                   [\<lparr>timerId = nextTimerId s, fireAt = clock s + max 0 (60 / arpRate st * 0.8 * 1000),
                     action = ArpNoteOff None st\<rparr>],
                 nextTimerId := Suc (nextTimerId s),
                 currentArpIndex := Suc (currentArpIndex s) mod length (activeNotesForArp s)\<rparr>)
      else Inl (TypeError, resumeIfSuspended s))"
  using assms
  by (auto simp: tick_def Let_def setTimeout_def playNote_undefined_def split: prod.splits)

lemma truthy_Suc [simp]: "truthy (Some (Suc n))"
  by (simp add: truthy_def)

lemma wellFormed_tick: "wellFormed s \<Longrightarrow> wellFormed (stateOf (tick st s))"
proof -
  assume wf: "wellFormed s"
  consider (empty) "activeNotesForArp s = []"
    | (inside) "currentArpIndex s < length (activeNotesForArp s)"
    | (outside) "activeNotesForArp s \<noteq> []" "\<not> currentArpIndex s < length (activeNotesForArp s)"
    by fastforce
  then show ?thesis
  proof cases
    case empty
    then show ?thesis using wf by (simp add: tick_empty stateOf_def wellFormed_stopArp)
  next
    case inside
    let ?p = "playNote (activeNotesForArp s ! currentArpIndex s) st 0.3 0.5 s"
    have wp: "wellFormed ?p" using wf by (rule wellFormed_playNote)
    from playNote_outcome_cases[of "activeNotesForArp s ! currentArpIndex s" st "0.3" "0.5" s]
    consider (returns) "playNote_outcome (activeNotesForArp s ! currentArpIndex s) st 0.3 0.5 s = Inr ?p"
      | (raises) "playNote_outcome (activeNotesForArp s ! currentArpIndex s) st 0.3 0.5 s = Inl (TypeError, ?p)"
      by auto
    then show ?thesis
    proof cases
      case returns
      show ?thesis
      proof (cases "hasWindow s")
        case True
        from tick_in_range[OF inside returns True] obtain s' where s': "tick st s = Inr s'"
          "voices s' = voices ?p" "activeOscillators s' = activeOscillators ?p"
          "nextTimerId s' = Suc (Suc (nextTimerId s))" "arpTimer s' = Some (Suc (nextTimerId s))"
          by blast
        have "wellFormed s'" using wp by (simp add: wellFormed_alt s')
        then show ?thesis by (simp add: s'(1) stateOf_def)
      next
        case False
        from tick_no_window[OF inside returns False] obtain s' where s': "tick st s = Inl (ReferenceError, s')"
          "voices s' = voices ?p" "activeOscillators s' = activeOscillators ?p"
          "nextTimerId s' = Suc (nextTimerId s)" "\<not> hasWindow s'"
          by blast
        have "wellFormed s'" using wp by (simp add: wellFormed_alt s')
        then show ?thesis by (simp add: s'(1) stateOf_def)
      qed
    next
      case raises
      show ?thesis using wp by (simp add: tick_raises[OF inside raises] stateOf_def)
    qed
  next
    case outside
    show ?thesis
    proof (cases "ctx s = None \<or> mainGain s = None")
      case True
      then show ?thesis
        using wf by (simp add: tick_out_of_range[OF outside] stateOf_def wellFormed_alt)
    next
      case False
      then show ?thesis
        using wellFormed_resume[OF wf] by (auto simp: tick_out_of_range[OF outside] stateOf_def)
    qed
  qed
qed

text \<open>
  Every outcome of a tick at once: the state it leaves is that of \<open>stopArp\<close>, of the
  note-on or of the engine as it was, with at most a note-off and a tick set after it.
\<close>

lemma tick_state:
  "\<exists>p cbs. (p = s \<or> p = stopArp s \<or> p = resumeIfSuspended s \<or>
             p = playNote (activeNotesForArp s ! currentArpIndex s) st 0.3 0.5 s) \<and>
      voices (stateOf (tick st s)) = voices p \<and>
      activeOscillators (stateOf (tick st s)) = activeOscillators p \<and>
      currentSustain (stateOf (tick st s)) = currentSustain s \<and>
      activeNotesForArp (stateOf (tick st s)) = activeNotesForArp s \<and>
      hasWindow (stateOf (tick st s)) = hasWindow s \<and>
      ctx (stateOf (tick st s)) = ctx p \<and>
      mainGain (stateOf (tick st s)) = mainGain s \<and>
      delayNode (stateOf (tick st s)) = delayNode s \<and>
      delayFeedbackNode (stateOf (tick st s)) = delayFeedbackNode s \<and>
      timers (stateOf (tick st s)) = timers p @ cbs \<and>
      (\<forall>t \<in> set cbs. action t = ArpTick st \<or> (\<exists>k. action t = ArpNoteOff k st))"
proof -
  let ?p = "playNote (activeNotesForArp s ! currentArpIndex s) st 0.3 0.5 s"
  consider (empty) "activeNotesForArp s = []"
    | (inside) "currentArpIndex s < length (activeNotesForArp s)"
    | (outside) "activeNotesForArp s \<noteq> []" "\<not> currentArpIndex s < length (activeNotesForArp s)"
    by fastforce
  then show ?thesis
  proof cases
    case empty
    show ?thesis
      by (rule exI[of _ "stopArp s"], rule exI[of _ "[]"])
         (simp add: tick_empty[OF empty] stateOf_def stopArp_fields)
  next
    case inside
    from playNote_outcome_cases[of "activeNotesForArp s ! currentArpIndex s" st "0.3" "0.5" s]
    consider (returns) "playNote_outcome (activeNotesForArp s ! currentArpIndex s) st 0.3 0.5 s = Inr ?p"
      | (raises) "playNote_outcome (activeNotesForArp s ! currentArpIndex s) st 0.3 0.5 s = Inl (TypeError, ?p)"
      by auto
    then show ?thesis
    proof cases
      case raises
      show ?thesis
        by (rule exI[of _ ?p], rule exI[of _ "[]"])
           (simp add: tick_raises[OF inside raises] stateOf_def playNote_frame)
    next
      case returns
      show ?thesis
      proof (cases "hasWindow s")
        case True
        from tick_in_range[OF inside returns True] obtain s' where s': "tick st s = Inr s'"
          "voices s' = voices ?p" "activeOscillators s' = activeOscillators ?p"
          "currentSustain s' = currentSustain s" "activeNotesForArp s' = activeNotesForArp s"
          "hasWindow s'" "ctx s' = ctx ?p" "mainGain s' = mainGain s"
          "delayNode s' = delayNode s" "delayFeedbackNode s' = delayFeedbackNode s"
          "timers s' = timers s @
             [\<lparr>timerId = nextTimerId s, fireAt = clock s + max 0 (60 / arpRate st * 0.8 * 1000),
               action = ArpNoteOff (Some (activeNotesForArp s ! currentArpIndex s)) st\<rparr>,
              \<lparr>timerId = Suc (nextTimerId s), fireAt = clock s + max 0 (60 / arpRate st * 1000),
               action = ArpTick st\<rparr>]"
          by blast
        show ?thesis
          by (rule exI[of _ ?p], rule exI[of _
               "[\<lparr>timerId = nextTimerId s, fireAt = clock s + max 0 (60 / arpRate st * 0.8 * 1000),
                  action = ArpNoteOff (Some (activeNotesForArp s ! currentArpIndex s)) st\<rparr>,
                 \<lparr>timerId = Suc (nextTimerId s), fireAt = clock s + max 0 (60 / arpRate st * 1000),
                  action = ArpTick st\<rparr>]"])
             (simp add: s' stateOf_def playNote_frame True)
      next
        case False
        from tick_no_window[OF inside returns False] obtain s' where s': "tick st s = Inl (ReferenceError, s')"
          "voices s' = voices ?p" "activeOscillators s' = activeOscillators ?p"
          "currentSustain s' = currentSustain s" "activeNotesForArp s' = activeNotesForArp s"
          "\<not> hasWindow s'" "ctx s' = ctx ?p" "mainGain s' = mainGain s"
          "delayNode s' = delayNode s" "delayFeedbackNode s' = delayFeedbackNode s"
          "timers s' = timers s @
             [\<lparr>timerId = nextTimerId s, fireAt = clock s + max 0 (60 / arpRate st * 0.8 * 1000),
               action = ArpNoteOff (Some (activeNotesForArp s ! currentArpIndex s)) st\<rparr>]"
          by blast
        show ?thesis
          by (rule exI[of _ ?p], rule exI[of _
               "[\<lparr>timerId = nextTimerId s, fireAt = clock s + max 0 (60 / arpRate st * 0.8 * 1000),
                  action = ArpNoteOff (Some (activeNotesForArp s ! currentArpIndex s)) st\<rparr>]"])
             (simp add: s' stateOf_def playNote_frame False)
      qed
    qed
  next
    case outside
    show ?thesis
    proof (cases "ctx s = None \<or> mainGain s = None")
      case False
      show ?thesis
        apply (rule exI[of _ "resumeIfSuspended s"], rule exI[of _ "[]"])
        using False by (auto simp: tick_out_of_range[OF outside] stateOf_def resumeIfSuspended_frame)
    next
      case True
      show ?thesis
      proof (cases "hasWindow s")
        case w: True
        show ?thesis
          apply (rule exI[of _ s], rule exI[of _
               "[\<lparr>timerId = nextTimerId s, fireAt = clock s + max 0 (60 / arpRate st * 0.8 * 1000),
                  action = ArpNoteOff None st\<rparr>,
                 \<lparr>timerId = Suc (nextTimerId s), fireAt = clock s + max 0 (60 / arpRate st * 1000),
                  action = ArpTick st\<rparr>]"])
          using True w by (auto simp: tick_out_of_range[OF outside] stateOf_def)
      next
        case w: False
        show ?thesis
          apply (rule exI[of _ s], rule exI[of _
               "[\<lparr>timerId = nextTimerId s, fireAt = clock s + max 0 (60 / arpRate st * 0.8 * 1000),
                  action = ArpNoteOff None st\<rparr>]"])
          using True w by (auto simp: tick_out_of_range[OF outside] stateOf_def)
      qed
    qed
  qed
qed

lemma wellFormed_startArp: "wellFormed s \<Longrightarrow> wellFormed (stateOf (startArp ks st s))"
proof -
  assume wf: "wellFormed s"
  have wf1: "wellFormed (s\<lparr>activeNotesForArp := sort ks\<rparr>)" using wf by (simp add: wellFormed_alt)
  show ?thesis
    using wf1 wellFormed_tick[OF wf1, of st] by (simp add: startArp_def Let_def stateOf_def)
qed

lemma wellFormed_runCallback: "wellFormed s \<Longrightarrow> wellFormed (stateOf (runCallback cb s))"
proof (cases cb)
  case (Teardown k r)
  assume "wellFormed s"
  then show ?thesis by (simp add: Teardown runCallback_def stateOf_def wellFormed_teardown)
next
  case (ArpNoteOff k st)
  assume "wellFormed s"
  then show ?thesis
    by (cases k) (simp_all add: ArpNoteOff runCallback_def stateOf_def wellFormed_stopNote)
next
  case (ArpTick st)
  assume "wellFormed s"
  then show ?thesis using wellFormed_tick[of s st] by (simp add: ArpTick runCallback_def)
qed

lemma wellFormed_fire: "wellFormed s \<Longrightarrow> wellFormed (stateOf (fire t s))"
proof -
  assume wf: "wellFormed s"
  have "wellFormed (s\<lparr>timers := filter (\<lambda>u. timerId u \<noteq> timerId t) (timers s), clock := max (clock s) (fireAt t)\<rparr>)"
    using wf by (simp add: wellFormed_alt)
  then show ?thesis unfolding fire_def by (rule wellFormed_runCallback)
qed

lemma wellFormed_step: "wellFormed s \<Longrightarrow> wellFormed (step e s)"
proof (cases e)
  case FireNext
  assume "wellFormed s"
  then show ?thesis
    by (simp add: FireNext fireNext_def wellFormed_fire split: option.splits)
next
  case (Browser c)
  assume "wellFormed s"
  then show ?thesis by (simp add: Browser wellFormed_alt)
qed (simp_all add: wellFormed_playNote wellFormed_stopNote wellFormed_updateNoteSlide
      setPitchBend_wellFormed wellFormed_updateGlobalParams wellFormed_startArp wellFormed_stopArp)


section \<open>The arpeggiator\<close>



subsection \<open>The schedule under the callbacks\<close>





lemma fire_schedule_pre:
  "schedule (s\<lparr>timers := ts, clock := t\<rparr>) =
     (t, ts, nextTimerId s, currentArpIndex s, activeOscillators s, length (voices s))"
  "ready (s\<lparr>timers := ts, clock := t\<rparr>) = ready s"
  by (simp_all add: schedule_def ready_def)











section \<open>Voice allocation\<close>


















section \<open>The sustain pedal\<close>

lemma releaseHeld_fold_effect:
  fixes al :: "(string \<times> nat) list"
  assumes "distinct (map snd al)" and "set al \<subseteq> set (activeOscillators s)"
    and "distinct (map fst (activeOscillators s))" and "ctx s = Some c" and "\<not> currentSustain s"
    and "\<forall>p \<in> set al. snd p < length (voices s)"
  shows "(\<forall>i. voices (foldl (\<lambda>st' (k, r). if released (voices st' ! r) then stopNote k st False st' else st') s al) ! i =
            (if i \<in> snd ` set (filter (\<lambda>p. released (voices s ! snd p)) al)
             then releaseEntry (currentTime c) (release st) (voices s ! i) else voices s ! i)) \<and>
         map (\<lambda>t. (fireAt t, action t))
           (timers (foldl (\<lambda>st' (k, r). if released (voices st' ! r) then stopNote k st False st' else st') s al)) =
           map (\<lambda>t. (fireAt t, action t)) (timers s) @
           map (\<lambda>p. (clock s + max 0 ((release st + 0.2) * 1000), Teardown (fst p) (snd p)))
             (filter (\<lambda>p. released (voices s ! snd p)) al)"
  using assms
proof (induction al arbitrary: s)
  case Nil
  then show ?case by simp
next
  case (Cons a al)
  obtain k r where a: "a = (k, r)" by (cases a)
  from Cons.prems have d: "distinct (map snd al)" and nr: "r \<notin> snd ` set al"
    and sub: "set al \<subseteq> set (activeOscillators s)" and mem: "(k, r) \<in> set (activeOscillators s)"
    and r: "r < length (voices s)" and bound: "\<forall>p \<in> set al. snd p < length (voices s)"
    by (auto simp: a)
  have lk: "map_of (activeOscillators s) k = Some r"
    using Cons.prems(3) mem by (rule map_of_is_SomeI)
  show ?case
  proof (cases "released (voices s ! r)")
    case False
    from Cons.IH[OF d sub Cons.prems(3) Cons.prems(4) Cons.prems(5) bound] False
    show ?thesis by (simp add: a)
  next
    case True
    define s1 where "s1 = stopNote k st False s"
    have s1: "s1 = snd (setTimeout (Teardown k r) ((release st + 0.2) * 1000)
       (s\<lparr>voices := (voices s)[r := releaseEntry (currentTime c) (release st) (voices s ! r)]\<rparr>))"
      unfolding s1_def using stopNote_release[OF Cons.prems(4) lk, of False st] Cons.prems(5) by simp
    have v1: "voices s1 = (voices s)[r := releaseEntry (currentTime c) (release st) (voices s ! r)]"
      and t1: "timers s1 = timers s @
         [\<lparr>timerId = nextTimerId s, fireAt = clock s + max 0 ((release st + 0.2) * 1000),
           action = Teardown k r\<rparr>]"
      and c1: "clock s1 = clock s"
      unfolding s1 setTimeout_fields by simp_all
    have f1: "activeOscillators s1 = activeOscillators s" "ctx s1 = Some c" "\<not> currentSustain s1"
      unfolding s1_def using Cons.prems(4,5) by (simp_all add: stopNote_frame)
    have same: "voices s1 ! snd p = voices s ! snd p" if "p \<in> set al" for p
      using that nr unfolding v1 by (intro nth_list_update_neq) force
    have flt: "filter (\<lambda>p. released (voices s1 ! snd p)) al = filter (\<lambda>p. released (voices s ! snd p)) al"
      by (rule filter_cong[OF refl]) (simp add: same)
    have bound1: "\<forall>p \<in> set al. snd p < length (voices s1)" using bound by (simp add: v1)
    have sub1: "set al \<subseteq> set (activeOscillators s1)" using sub by (simp add: f1)
    have d1: "distinct (map fst (activeOscillators s1))" using Cons.prems(3) by (simp add: f1)
    note ih = Cons.IH[OF d sub1 d1 f1(2) f1(3) bound1, unfolded flt c1]
    have step: "foldl (\<lambda>st' (k, r). if released (voices st' ! r) then stopNote k st False st' else st') s (a # al) =
       foldl (\<lambda>st' (k, r). if released (voices st' ! r) then stopNote k st False st' else st') s1 al"
      using True by (simp add: a s1_def)
    have fa: "filter (\<lambda>p. released (voices s ! snd p)) (a # al) =
       (k, r) # filter (\<lambda>p. released (voices s ! snd p)) al"
      using True by (simp add: a)
    have nr': "r \<notin> snd ` set (filter (\<lambda>p. released (voices s ! snd p)) al)" using nr by auto
    show ?thesis
      unfolding step fa
    proof (intro conjI allI)
      fix i
      show "voices (foldl (\<lambda>st' (k, r). if released (voices st' ! r) then stopNote k st False st' else st') s1 al) ! i =
         (if i \<in> snd ` set ((k, r) # filter (\<lambda>p. released (voices s ! snd p)) al)
          then releaseEntry (currentTime c) (release st) (voices s ! i) else voices s ! i)"
      proof (cases "i = r")
        case True
        then show ?thesis using ih nr' r by (simp add: v1)
      next
        case False
        then show ?thesis using ih by (simp add: v1)
      qed
    next
      show "map (\<lambda>t. (fireAt t, action t))
           (timers (foldl (\<lambda>st' (k, r). if released (voices st' ! r) then stopNote k st False st' else st') s1 al)) =
           map (\<lambda>t. (fireAt t, action t)) (timers s) @
           map (\<lambda>p. (clock s + max 0 ((release st + 0.2) * 1000), Teardown (fst p) (snd p)))
             ((k, r) # filter (\<lambda>p. released (voices s ! snd p)) al)"
        using ih by (simp add: t1)
    qed
  qed
qed

lemma releaseHeld_effect:
  assumes wf: "wellFormed s" and c: "ctx s = Some c" and ns: "\<not> currentSustain s"
  shows "voices (releaseHeld st s) ! i =
            (if i \<in> snd ` set (filter (\<lambda>p. released (voices s ! snd p)) (activeOscillators s))
             then releaseEntry (currentTime c) (release st) (voices s ! i) else voices s ! i)"
    and "map (\<lambda>t. (fireAt t, action t)) (timers (releaseHeld st s)) =
           map (\<lambda>t. (fireAt t, action t)) (timers s) @
           map (\<lambda>p. (clock s + max 0 ((release st + 0.2) * 1000), Teardown (fst p) (snd p)))
             (filter (\<lambda>p. released (voices s ! snd p)) (activeOscillators s))"
proof -
  from wf have d: "distinct (map snd (activeOscillators s))" "distinct (map fst (activeOscillators s))"
    "\<forall>p \<in> set (activeOscillators s). snd p < length (voices s)"
    by (simp_all add: wellFormed_alt)
  note e = releaseHeld_fold_effect[OF d(1) subset_refl d(2) c ns d(3), of st, folded releaseHeld_def]
  from e show "voices (releaseHeld st s) ! i =
            (if i \<in> snd ` set (filter (\<lambda>p. released (voices s ! snd p)) (activeOscillators s))
             then releaseEntry (currentTime c) (release st) (voices s ! i) else voices s ! i)"
    by blast
  from e show "map (\<lambda>t. (fireAt t, action t)) (timers (releaseHeld st s)) =
           map (\<lambda>t. (fireAt t, action t)) (timers s) @
           map (\<lambda>p. (clock s + max 0 ((release st + 0.2) * 1000), Teardown (fst p) (snd p)))
             (filter (\<lambda>p. released (voices s ! snd p)) (activeOscillators s))"
    by blast
qed

section \<open>Failure, silent and not\<close>














lemma sort_one: "sort [k] = [k]"
  by simp





section \<open>The first tick\<close>










section \<open>The allocation of voices over a run\<close>










section \<open>The sustain pedal over a run\<close>

subsection \<open>The backend of a constructed engine\<close>

lemma updateGlobalParams_delay:
  "(delayNode (updateGlobalParams st s) = None) = (delayNode s = None)"
  "(delayFeedbackNode (updateGlobalParams st s) = None) = (delayFeedbackNode s = None)"
  by (auto simp: updateGlobalParams_def Let_def setPitchBend_frame forEachEntry_frame releaseHeld_frame
        split: option.splits)

lemma backed_frame:
  assumes "backed s" and "(ctx s' = None) = (ctx s = None)"
    and "activeOscillators s' = activeOscillators s \<or> (ctx s = None \<and> activeOscillators s' = [])"
    and "mainGain s' = mainGain s"
    and "(delayNode s' = None) = (delayNode s = None)"
    and "(delayFeedbackNode s' = None) = (delayFeedbackNode s = None)"
  shows "backed s'"
  using assms by (auto simp: backed_def)

lemma backed_playNote: "backed s \<Longrightarrow> backed (playNote k st v sl s)"
proof (cases "ctx s = None")
  case True
  assume "backed s"
  then show ?thesis using True by (simp add: playNote_uninitialised)
next
  case False
  assume "backed s"
  then show ?thesis using False by (auto simp: backed_def playNote_ctx playNote_frame)
qed

lemma backed_stopNote: "backed s \<Longrightarrow> backed (stopNote k st immediate s)"
  by (erule backed_frame) (simp_all add: stopNote_frame)

lemma backed_teardown: "backed s \<Longrightarrow> backed (teardown k r s)"
  by (auto simp: backed_def teardown_fields)

lemma backed_tick: "backed s \<Longrightarrow> backed (stateOf (tick st s))"
proof -
  assume b: "backed s"
  let ?p = "playNote (activeNotesForArp s ! currentArpIndex s) st 0.3 0.5 s"
  from tick_state[of s st] obtain p cbs where
    p: "p = s \<or> p = stopArp s \<or> p = resumeIfSuspended s \<or> p = ?p"
    and f: "activeOscillators (stateOf (tick st s)) = activeOscillators p"
      "ctx (stateOf (tick st s)) = ctx p"
      "mainGain (stateOf (tick st s)) = mainGain s"
      "delayNode (stateOf (tick st s)) = delayNode s"
      "delayFeedbackNode (stateOf (tick st s)) = delayFeedbackNode s"
    by blast
  have "backed ?p" using b by (rule backed_playNote)
  moreover have "backed (stopArp s)" using b by (simp add: backed_def stopArp_fields)
  moreover have "backed (resumeIfSuspended s)" using b by (simp add: backed_def resumeIfSuspended_frame)
  ultimately have bp: "backed p" using p b by auto
  have m: "mainGain p = mainGain s" "delayNode p = delayNode s" "delayFeedbackNode p = delayFeedbackNode s"
    using p by (auto simp: stopArp_fields resumeIfSuspended_frame playNote_frame)
  show ?thesis using bp by (simp add: backed_def f m)
qed

lemma backed_runCallback: "backed s \<Longrightarrow> backed (stateOf (runCallback cb s))"
proof (cases cb)
  case (Teardown k r)
  assume "backed s"
  then show ?thesis by (simp add: Teardown runCallback_def stateOf_def backed_teardown)
next
  case (ArpNoteOff k st)
  assume "backed s"
  then show ?thesis by (cases k) (simp_all add: ArpNoteOff runCallback_def stateOf_def backed_stopNote)
next
  case (ArpTick st)
  assume "backed s"
  then show ?thesis using backed_tick[of s st] by (simp add: ArpTick runCallback_def)
qed

lemma backed_step: "backed s \<Longrightarrow> backed (step e s)"
proof (cases e)
  case (PlayNote k st v sl)
  assume "backed s"
  then show ?thesis by (simp add: PlayNote backed_playNote)
next
  case (StopNote k st im)
  assume "backed s"
  then show ?thesis by (simp add: StopNote backed_stopNote)
next
  case (UpdateNoteSlide k v)
  assume "backed s"
  then show ?thesis by (simp add: UpdateNoteSlide backed_def updateNoteSlide_frame)
next
  case (SetPitchBend v)
  assume "backed s"
  then show ?thesis by (simp add: SetPitchBend backed_def setPitchBend_frame)
next
  case (UpdateGlobalParams st)
  assume "backed s"
  then show ?thesis
    by (simp add: UpdateGlobalParams backed_def updateGlobalParams_frame updateGlobalParams_delay)
next
  case (StartArp ks st)
  assume b: "backed s"
  have b1: "backed (s\<lparr>activeNotesForArp := sort ks\<rparr>)" using b by (simp add: backed_def)
  show ?thesis using b1 backed_tick[OF b1, of st] by (simp add: StartArp startArp_def Let_def stateOf_def)
next
  case StopArp
  assume "backed s"
  then show ?thesis by (simp add: StopArp backed_def stopArp_fields)
next
  case FireNext
  assume b: "backed s"
  have "backed (stateOf (fire t s))" for t
  proof -
    have "backed (s\<lparr>timers := filter (\<lambda>u. timerId u \<noteq> timerId t) (timers s), clock := max (clock s) (fireAt t)\<rparr>)"
      using b by (simp add: backed_def)
    then show ?thesis unfolding fire_def by (rule backed_runCallback)
  qed
  then show ?thesis using b by (simp add: FireNext fireNext_def split: option.splits)
next
  case (Browser c)
  assume "backed s"
  then show ?thesis by (simp add: Browser backed_def)
qed

lemma backed_run: "backed s \<Longrightarrow> backed (run evs s)"
  unfolding run_def by (induction evs arbitrary: s) (simp_all add: backed_step)

lemma backed_init: "backed (init c (newAudioService w))"
  by (simp add: backed_def init_def newAudioService_def)

lemma backed_live:
  assumes "backed s" and "map_of (activeOscillators s) k = Some r"
  shows "ctx s \<noteq> None" "mainGain s \<noteq> None" "delayNode s \<noteq> None" "delayFeedbackNode s \<noteq> None"
  using assms by (auto simp: backed_def)

subsection \<open>What leaves the amplitude of the entries alone\<close>

lemma forEachEntry_map:
  "(\<And>e. g (f e) = g e) \<Longrightarrow> map g (voices (forEachEntry f s)) = map g (voices s)"
  by (simp add: forEachEntry_alt foldl_update_map)

lemma forEachEntry_nth:
  assumes "wellFormed s" and "(k, r) \<in> set (activeOscillators s)"
  shows "voices (forEachEntry f s) ! r = f (voices s ! r)"
proof -
  have d: "distinct (map snd (activeOscillators s))" using assms(1) by (simp add: wellFormed_def)
  have r: "r < length (voices s)" using assms by (rule wellFormed_ref)
  have m: "r \<in> snd ` set (activeOscillators s)" using assms(2) by force
  show ?thesis using foldl_update_nth[OF d r, of f] m by (simp add: forEachEntry_alt)
qed

lemma setPitchBend_map:
  "(\<And>u now e. g (bendEntry u now e) = g e) \<Longrightarrow> map g (voices (setPitchBend v s)) = map g (voices s)"
  by (simp add: setPitchBend_alt foldl_update_map split: option.splits)

lemma amplitude_simps:
  "amplitude (bendEntry u now e) = amplitude e"
  "amplitude (sweepEntry st now e) = amplitude e"
  "amplitude (disconnectEntry e) = amplitude e"
  "amplitude (retargetEntry st f tf now e) = amplitude e"
  "amplitude (slideSource_update h e) = amplitude e"
  "amplitude (osc1_update h1 e) = amplitude e"
  "amplitude (osc2_update h2 e) = amplitude e"
  "amplitude (e\<lparr>released := b\<rparr>) = amplitude e"
  "amplitude (releaseEntry now rt e) =
     (events (releaseRamp now rt (gainParam (gain e))), events (releaseRamp now rt (offset (envSource e))))"
  by (simp_all add: amplitude_def bendEntry_def sweepEntry_def disconnectEntry_def retargetEntry_def
        releaseEntry_def Let_def)

lemma held_simps:
  "released (bendEntry u now e) = released e"
  "released (sweepEntry st now e) = released e"
  "oscStop (osc1 (bendEntry u now e)) = oscStop (osc1 e)"
  "oscStop (osc1 (sweepEntry st now e)) = oscStop (osc1 e)"
  "filterNode (bendEntry u now e) = filterNode e"
  by (simp_all add: bendEntry_def sweepEntry_def Let_def)

lemma nth_of_map: "map g xs = map g ys \<Longrightarrow> i < length ys \<Longrightarrow> g (xs ! i) = g (ys ! i)"
  by (metis length_map nth_map)

lemma map_take_update:
  "g y = g (xs ! r) \<Longrightarrow> map g (take n (xs[r := y])) = map g (take n xs)"
  by (simp add: take_map[symmetric] map_update_same)

lemma setPitchBend_filterNode:
  "r < length (voices s) \<Longrightarrow> filterNode (voices (setPitchBend v s) ! r) = filterNode (voices s ! r)"
  by (rule nth_of_map[OF setPitchBend_map]) (simp_all add: held_simps)

text \<open>\<open>updateGlobalParams\<close> on an engine with its backend, in its two cases.\<close>

lemma updateGlobalParams_hold:
  assumes "ctx s = Some c" and "delayNode s \<noteq> None" and "delayFeedbackNode s \<noteq> None"
    and "\<not> (currentSustain s \<and> \<not> sustain st)"
  shows "map amplitude (voices (updateGlobalParams st s)) = map amplitude (voices s)"
    and "timers (updateGlobalParams st s) = timers s"
    and "currentSustain (updateGlobalParams st s) = sustain st"
    and "map released (voices (updateGlobalParams st s)) = map released (voices s)"
  using assms
  by (auto simp: updateGlobalParams_def Let_def setPitchBend_frame forEachEntry_frame
        setPitchBend_map forEachEntry_map amplitude_simps held_simps split: if_splits)

lemma updateGlobalParams_sweeps:
  assumes c: "ctx s = Some c" and dn: "delayNode s \<noteq> None" and fb: "delayFeedbackNode s \<noteq> None"
    and hold: "\<not> (currentSustain s \<and> \<not> sustain st)"
    and wf: "wellFormed s" and mem: "(k, r) \<in> set (activeOscillators s)"
  shows "filterNode (voices (updateGlobalParams st s) ! r) =
           filterNode (sweepEntry st (currentTime c) (voices s ! r))"
proof -
  from dn fb obtain d f where d: "delayNode s = Some d" and f: "delayFeedbackNode s = Some f" by auto
  define s3 where "s3 = s\<lparr>currentSustain := sustain st,
      delayNode := Some (delayTimeParam_update (setTargetAtTime (delayTime st) (currentTime c) 0.1) d),
      delayFeedbackNode := Some (gainParam_update (setTargetAtTime (delayFeedback st) (currentTime c) 0.1) f)\<rparr>"
  have wf3: "wellFormed s3" using wf by (simp add: s3_def wellFormed_alt)
  have mem3: "(k, r) \<in> set (activeOscillators s3)" using mem by (simp add: s3_def)
  have r: "r < length (voices s)" using wf mem by (rule wellFormed_ref)
  have n: "voices (forEachEntry (sweepEntry st (currentTime c)) s3) ! r =
           sweepEntry st (currentTime c) (voices s ! r)"
    using forEachEntry_nth[OF wf3 mem3, of "sweepEntry st (currentTime c)"] by (simp add: s3_def)
  have len: "r < length (voices (forEachEntry (sweepEntry st (currentTime c)) s3))"
    using r by (simp add: forEachEntry_frame s3_def)
  have u: "updateGlobalParams st s =
     (if pitchBend st \<noteq> currentPitchBend s
      then setPitchBend (pitchBend st) (forEachEntry (sweepEntry st (currentTime c)) s3)
      else forEachEntry (sweepEntry st (currentTime c)) s3)"
    using hold by (auto simp: updateGlobalParams_def Let_def c d f s3_def forEachEntry_frame)
  show ?thesis unfolding u using n len by (simp add: setPitchBend_filterNode)
qed

lemma updateGlobalParams_lift:
  assumes "ctx s = Some c" and "delayNode s \<noteq> None" and "delayFeedbackNode s \<noteq> None"
    and "currentSustain s" and "\<not> sustain st"
  shows "map amplitude (voices (updateGlobalParams st s)) =
           map amplitude (voices (releaseHeld st (s\<lparr>currentSustain := False\<rparr>)))"
    and "timers (updateGlobalParams st s) = timers (releaseHeld st (s\<lparr>currentSustain := False\<rparr>))"
    and "currentSustain (updateGlobalParams st s) = False"
    and "map (\<lambda>e. oscStop (osc1 e)) (voices (updateGlobalParams st s)) =
           map (\<lambda>e. oscStop (osc1 e)) (voices (releaseHeld st (s\<lparr>currentSustain := False\<rparr>)))"
    and "map released (voices (updateGlobalParams st s)) =
           map released (voices (releaseHeld st (s\<lparr>currentSustain := False\<rparr>)))"
  using assms
  by (auto simp: updateGlobalParams_def Let_def setPitchBend_frame forEachEntry_frame
        setPitchBend_map forEachEntry_map amplitude_simps held_simps releaseHeld_frame
        split: if_splits)

lemma updateGlobalParams_sustain:
  "currentSustain s \<Longrightarrow> sustain st \<Longrightarrow> currentSustain (updateGlobalParams st s)"
  by (auto simp: updateGlobalParams_def Let_def setPitchBend_frame forEachEntry_frame
        split: option.splits)

lemma updateGlobalParams_amplitude:
  "\<not> (currentSustain s \<and> \<not> sustain st) \<Longrightarrow>
   map amplitude (voices (updateGlobalParams st s)) = map amplitude (voices s)"
  by (auto simp: updateGlobalParams_def Let_def setPitchBend_map forEachEntry_map amplitude_simps
        split: option.splits)

lemma updateNoteSlide_amplitude:
  "map amplitude (voices (updateNoteSlide k sl s)) = map amplitude (voices s)"
  by (simp add: updateNoteSlide_def Let_def map_update_same amplitude_simps split: option.splits)

lemma stopNote_held:
  "currentSustain s \<Longrightarrow> map amplitude (voices (stopNote k st False s)) = map amplitude (voices s)"
  "currentSustain s \<Longrightarrow> timers (stopNote k st False s) = timers s"
  by (simp_all add: stopNote_def map_update_same amplitude_simps split: option.splits)

lemma teardown_amplitude: "map amplitude (voices (teardown k r s)) = map amplitude (voices s)"
  by (simp add: teardown_fields map_update_same amplitude_simps)

lemma playNote_notANumber_amplitude:
  "map amplitude (voices (playNote_notANumber st now s)) = map amplitude (voices s)"
  by (simp add: playNote_notANumber_def map_update_same amplitude_simps split: prod.splits)

lemma playNote_amplitude:
  assumes wf: "wellFormed s"
  shows "map amplitude (take (length (voices s)) (voices (playNote k st v sl s))) = map amplitude (voices s)"
    and "length (voices s) \<le> length (voices (playNote k st v sl s))"
proof -
  have "map amplitude (take (length (voices s)) (voices (playNote k st v sl s))) = map amplitude (voices s) \<and>
        length (voices s) \<le> length (voices (playNote k st v sl s))"
  proof (cases "ctx s = None \<or> mainGain s = None")
    case True
    then show ?thesis by (simp add: playNote_uninitialised)
  next
    case False
    then obtain c where c: "ctx s = Some c" and g: "mainGain s \<noteq> None" by auto
    show ?thesis
    proof (cases "FREQUENCIES (shiftNote k (octave st))")
      case None
      show ?thesis
        using playNote_not_own[OF None c g, of v sl]
        by (auto simp: resumeIfSuspended_frame playNote_notANumber_frame playNote_notANumber_amplitude)
    next
      case (Some f)
      show ?thesis
      proof (cases "monoMode st \<and> activeOscillators s \<noteq> []")
        case True
        then obtain k0 r rest where al: "activeOscillators s = (k0, r) # rest"
          by (cases "activeOscillators s") auto
        have r: "r < length (voices s)" using wf al by (auto simp: wellFormed_alt)
        from True have mono: "monoMode st" by simp
        note res = playNote_mono_retargets[OF c g mono al r Some, of v sl]
        have len: "length (voices (playNote k st v sl s)) = length (voices s)" by (rule res(1))
        have "amplitude (voices (playNote k st v sl s) ! i) = amplitude (voices s ! i)"
          if i: "i < length (voices s)" for i
        proof (cases "i = r")
          case True
          then show ?thesis by (simp add: res(4) amplitude_simps)
        next
          case False
          have p: "playNote k st v sl s =
              playNote_retarget k st sl f (f * 2 powr (currentPitchBend s * 2 / 12)) (currentTime c)
                (resumeIfSuspended s)"
            using playNote_known[OF c g Some, of v sl] True by (simp add: Let_def)
          have al': "activeOscillators (resumeIfSuspended s) = (k0, r) # rest"
            by (simp add: resumeIfSuspended_frame al)
          obtain c' where c': "ctx (resumeIfSuspended s) = Some c'"
            using c resumeIfSuspended_frame(15)[of s] by auto
          have r': "r < length (voices (resumeIfSuspended s))" using r by (simp add: resumeIfSuspended_frame)
          show ?thesis
            unfolding p playNote_retarget_result(1)[OF al' c' r']
            using False by (simp add: resumeIfSuspended_frame)
        qed
        then have "map amplitude (voices (playNote k st v sl s)) = map amplitude (voices s)"
          using len by (intro nth_equalityI) simp_all
        then show ?thesis using len by simp
      next
        case False
        note res = playNote_creates[OF c g Some False, of v sl]
        show ?thesis by (simp add: res(1) res(3))
      qed
    qed
  qed
  then show "map amplitude (take (length (voices s)) (voices (playNote k st v sl s))) = map amplitude (voices s)"
    and "length (voices s) \<le> length (voices (playNote k st v sl s))"
    by simp_all
qed

subsection \<open>While the pedal is down\<close>

lemma stillHeld_refl: "currentSustain s \<Longrightarrow> stillHeld s s"
  by (simp add: stillHeld_def)

lemma stillHeld_trans:
  assumes "stillHeld s s'" and "stillHeld s' s''"
  shows "stillHeld s s''"
proof -
  let ?n = "length (voices s)"
  from assms have le: "?n \<le> length (voices s')" "length (voices s') \<le> length (voices s'')"
    and a1: "map amplitude (take ?n (voices s')) = map amplitude (voices s)"
    and a2: "map amplitude (take (length (voices s')) (voices s'')) = map amplitude (voices s')"
    and c: "currentSustain s''"
    by (simp_all add: stillHeld_def)
  have "map amplitude (take ?n (voices s'')) = take ?n (map amplitude (take (length (voices s')) (voices s'')))"
    using le by (simp add: take_map min_def)
  also have "\<dots> = take ?n (map amplitude (voices s'))" by (simp only: a2)
  also have "\<dots> = map amplitude (voices s)" using a1 by (simp add: take_map)
  finally show ?thesis using le c by (simp add: stillHeld_def)
qed

lemma stillHeld_same:
  "map amplitude (voices s') = map amplitude (voices s) \<Longrightarrow> currentSustain s' \<Longrightarrow> stillHeld s s'"
  by (metis stillHeld_def length_map order_refl take_all)

lemma stillHeld_nth:
  assumes "stillHeld s s'" and "i < length (voices s)"
  shows "amplitude (voices s' ! i) = amplitude (voices s ! i)"
proof -
  from assms(1) have e: "map amplitude (take (length (voices s)) (voices s')) = map amplitude (voices s)"
    by (simp add: stillHeld_def)
  have "amplitude (take (length (voices s)) (voices s') ! i) = amplitude (voices s ! i)"
    using e assms(2) by (rule nth_of_map)
  then show ?thesis using assms(2) by simp
qed

lemma stillHeld_playNote:
  "wellFormed s \<Longrightarrow> currentSustain s \<Longrightarrow> stillHeld s (playNote k st v sl s)"
  by (simp add: stillHeld_def playNote_amplitude playNote_frame)

lemma stillHeld_stopNote:
  "currentSustain s \<Longrightarrow> stillHeld s (stopNote k st False s)"
  by (rule stillHeld_same) (simp_all add: stopNote_held stopNote_frame)

lemma stillHeld_tick:
  assumes wf: "wellFormed s" and cs: "currentSustain s"
  shows "stillHeld s (stateOf (tick st s))"
proof -
  let ?p = "playNote (activeNotesForArp s ! currentArpIndex s) st 0.3 0.5 s"
  from tick_state[of s st] obtain p cbs where
    p: "p = s \<or> p = stopArp s \<or> p = resumeIfSuspended s \<or> p = ?p"
    and v: "voices (stateOf (tick st s)) = voices p"
    and c: "currentSustain (stateOf (tick st s)) = currentSustain s"
    by blast
  have "stillHeld s ?p" using wf cs by (rule stillHeld_playNote)
  moreover have "stillHeld s (stopArp s)" using cs by (simp add: stillHeld_def stopArp_fields)
  moreover have "stillHeld s (resumeIfSuspended s)"
    using cs by (simp add: stillHeld_def resumeIfSuspended_frame)
  moreover have "stillHeld s s" using cs by (rule stillHeld_refl)
  ultimately have "stillHeld s p" using p by auto
  then show ?thesis using cs by (simp add: stillHeld_def v c)
qed

lemma stillHeld_runCallback:
  assumes wf: "wellFormed s" and cs: "currentSustain s"
  shows "stillHeld s (stateOf (runCallback cb s))"
proof (cases cb)
  case (Teardown k r)
  have "stillHeld s (teardown k r s)"
    using teardown_amplitude[of k r s] cs by (intro stillHeld_same) (simp_all add: teardown_fields(12))
  then show ?thesis by (simp add: Teardown runCallback_def stateOf_def)
next
  case (ArpNoteOff k st)
  show ?thesis using cs
    by (cases k) (simp_all add: ArpNoteOff runCallback_def stateOf_def stillHeld_stopNote stillHeld_refl)
next
  case (ArpTick st)
  show ?thesis using stillHeld_tick[OF wf cs, of st] by (simp add: ArpTick runCallback_def)
qed

lemma stillHeld_step:
  assumes wf: "wellFormed s" and cs: "currentSustain s" and k: "keepsSustain e"
  shows "stillHeld s (step e s)"
proof (cases e)
  case (PlayNote k st v sl)
  show ?thesis using stillHeld_playNote[OF wf cs] by (simp add: PlayNote)
next
  case (StopNote k st im)
  show ?thesis using k stillHeld_stopNote[OF cs] by (simp add: StopNote)
next
  case (UpdateNoteSlide k v)
  show ?thesis
    by (rule stillHeld_same) (simp_all add: UpdateNoteSlide updateNoteSlide_amplitude updateNoteSlide_frame cs)
next
  case (SetPitchBend v)
  show ?thesis
    by (rule stillHeld_same)
       (simp_all add: SetPitchBend setPitchBend_map amplitude_simps setPitchBend_frame cs)
next
  case (UpdateGlobalParams st)
  show ?thesis using k
    by (intro stillHeld_same)
       (simp_all add: UpdateGlobalParams updateGlobalParams_amplitude updateGlobalParams_sustain cs)
next
  case (StartArp ks st)
  have wf1: "wellFormed (s\<lparr>activeNotesForArp := sort ks\<rparr>)" using wf by (simp add: wellFormed_alt)
  have cs1: "currentSustain (s\<lparr>activeNotesForArp := sort ks\<rparr>)" using cs by simp
  have "stillHeld (s\<lparr>activeNotesForArp := sort ks\<rparr>) (stateOf (tick st (s\<lparr>activeNotesForArp := sort ks\<rparr>)))"
    using wf1 cs1 by (rule stillHeld_tick)
  then show ?thesis using cs
    by (simp add: StartArp startArp_def Let_def stateOf_def stillHeld_def)
next
  case StopArp
  show ?thesis using cs by (simp add: StopArp stillHeld_def stopArp_fields)
next
  case FireNext
  have "stillHeld s (stateOf (fire t s))" for t
  proof -
    let ?u = "s\<lparr>timers := filter (\<lambda>u. timerId u \<noteq> timerId t) (timers s), clock := max (clock s) (fireAt t)\<rparr>"
    have "wellFormed ?u" using wf by (simp add: wellFormed_alt)
    moreover have "currentSustain ?u" using cs by simp
    ultimately have "stillHeld ?u (stateOf (runCallback (action t) ?u))" by (rule stillHeld_runCallback)
    then show ?thesis by (simp add: fire_def stillHeld_def)
  qed
  then show ?thesis using cs by (simp add: FireNext fireNext_def stillHeld_refl split: option.splits)
next
  case (Browser c)
  show ?thesis using cs by (simp add: Browser stillHeld_def)
qed

lemma stillHeld_run:
  "wellFormed s \<Longrightarrow> currentSustain s \<Longrightarrow> list_all keepsSustain evs \<Longrightarrow> stillHeld s (run evs s)"
proof (induction evs arbitrary: s)
  case Nil
  then show ?case by (simp add: run_def stillHeld_refl)
next
  case (Cons e evs)
  have h1: "stillHeld s (step e s)" using Cons.prems by (intro stillHeld_step) simp_all
  have wf1: "wellFormed (step e s)" using Cons.prems(1) by (rule wellFormed_step)
  have cs1: "currentSustain (step e s)" using h1 by (simp add: stillHeld_def)
  have h2: "stillHeld (step e s) (run evs (step e s))"
    using Cons.IH[OF wf1 cs1] Cons.prems(3) by simp
  have "run (e # evs) s = run evs (step e s)" by (simp add: run_def)
  then show ?case using stillHeld_trans[OF h1 h2] by simp
qed

end
